(* ===== verification/Prelude.thy ===== *)
theory Prelude
  imports Main "HOL-Library.Word"
begin

text \<open>
  What every component of the model shares: thread identities, the faults a C++
  program can run into, the outcome type of an operation, its sequencing, and the
  lemma collections the component proofs are driven by.
\<close>

section \<open>Outcomes of operations\<close>

text \<open>A thread is the value of \<open>pthread_self()\<close>.\<close>

type_synonym thread = nat

text \<open>A byte of a \<open>std::string\<close>, and a C++ \<open>std::string\<close> of bytes.\<close>

type_synonym byte = "8 word"

type_synonym bytes = "8 word list"

text \<open>
  The ways in which an operation of the program leaves defined behaviour:
  \<open>Fatal\<close> is \<open>ThreadError\<close> of thread.cc, which prints its message and aborts; the
  others are undefined behaviour of C++ that the model makes visible.
\<close>

datatype fault =
    Fatal string
  | Null_deref
  | Out_of_bounds
  | Use_after_free
  | Uninitialized
  | Type_confusion
  | Missing_return
  | Aborted

text \<open>
  The outcome of an operation: it finishes with a value, it blocks in a system
  call, it faults, or the fuel of the model runs out.
\<close>

datatype 'a flow = Done 'a | Block | Crash fault | Out_of_fuel

fun bind_flow :: "'a flow \<Rightarrow> ('a \<Rightarrow> 'b flow) \<Rightarrow> 'b flow" where
  "bind_flow (Done x) f = f x"
| "bind_flow Block f = Block"
| "bind_flow (Crash e) f = Crash e"
| "bind_flow Out_of_fuel f = Out_of_fuel"

fun map_flow_value :: "('a \<Rightarrow> 'b) \<Rightarrow> 'a flow \<Rightarrow> 'b flow" where
  "map_flow_value g (Done x) = Done (g x)"
| "map_flow_value g Block = Block"
| "map_flow_value g (Crash e) = Crash e"
| "map_flow_value g Out_of_fuel = Out_of_fuel"

lemma bind_flow_assoc:
  "bind_flow (bind_flow m f) g = bind_flow m (\<lambda>x. bind_flow (f x) g)"
  by (cases m) simp_all

lemma bind_flow_Done_right: "bind_flow m Done = m"
  by (cases m) simp_all

lemma bind_flow_Done_iff:
  "bind_flow m f = Done y \<longleftrightarrow> (\<exists>x. m = Done x \<and> f x = Done y)"
  by (cases m) simp_all

lemma bind_flow_DoneE:
  assumes "bind_flow m f = Done y"
  obtains x where "m = Done x" and "f x = Done y"
  using assms by (auto simp: bind_flow_Done_iff)

lemma map_flow_value_Done_iff:
  "map_flow_value g m = Done y \<longleftrightarrow> (\<exists>x. m = Done x \<and> y = g x)"
  by (cases m) auto

lemma bind_flow_cong [fundef_cong]:
  "m = m' \<Longrightarrow> (\<And>x. m' = Done x \<Longrightarrow> f x = g x) \<Longrightarrow> bind_flow m f = bind_flow m' g"
  by (cases m') auto

text \<open>A loop over a list that threads a state through a fallible body.\<close>

fun fold_flow :: "('a \<Rightarrow> 's \<Rightarrow> 's flow) \<Rightarrow> 'a list \<Rightarrow> 's \<Rightarrow> 's flow" where
  "fold_flow f [] s = Done s"
| "fold_flow f (x # xs) s = bind_flow (f x s) (fold_flow f xs)"

lemma fold_flow_cong [fundef_cong]:
  "xs = ys \<Longrightarrow> s = s' \<Longrightarrow> (\<And>x s. x \<in> set ys \<Longrightarrow> f x s = g x s) \<Longrightarrow>
   fold_flow f xs s = fold_flow g ys s'"
proof (induction xs arbitrary: ys s s')
  case (Cons x xs)
  have "fold_flow f xs = fold_flow g xs"
    using Cons.IH [of xs] Cons.prems(1,3) by (intro ext) auto
  then show ?case using Cons.prems by auto
qed simp

lemma fold_flow_invariant:
  assumes "fold_flow f xs s = Done s'" and "P s"
    and "\<And>x s s'. x \<in> set xs \<Longrightarrow> f x s = Done s' \<Longrightarrow> P s \<Longrightarrow> P s'"
  shows "P s'"
  using assms by (induction xs arbitrary: s) (auto simp: bind_flow_Done_iff)

lemma fold_flow_append: "fold_flow f (xs @ ys) s = bind_flow (fold_flow f xs s) (fold_flow f ys)"
proof (induction xs arbitrary: s)
  case (Cons x xs)
  then show ?case by (cases "f x s") simp_all
qed simp

section \<open>Lemma collections\<close>

text \<open>
  \<open>lock_simps\<close> evaluates lock and condition variable operations on states of known
  shape, \<open>read_simps\<close> the reads of the serialisation buffer, \<open>job_simps\<close> the
  updates of the job heap.
\<close>

named_theorems lock_simps
named_theorems read_simps
named_theorems job_simps

section \<open>Generic lemmas\<close>

lemma mem_update_cases: "x \<in> set (xs[i := y]) \<Longrightarrow> x = y \<or> x \<in> set xs"
  using set_update_subset_insert by fastforce

lemma length_remove1_mem: "x \<in> set xs \<Longrightarrow> length xs = Suc (length (remove1 x xs))"
  by (induction xs) auto

end
