(* ===== verification/Locks.thy ===== *)
theory Locks
  imports Prelude
begin

text \<open>
  thread.h: the class \<open>Lock\<close> (an owner and a depth over a POSIX mutex) and the
  class \<open>ConditionVariable\<close>. The POSIX mutex is its holder; a POSIX condition
  variable is the threads blocked in it and the threads already unblocked but not yet
  running again. Depths and numbers of waiting threads, \<open>int\<close> in the code, have no bound.
\<close>

section \<open>Lock\<close>

record lock =
  mutex :: "thread option"
  owner :: "thread option"
  locked :: int
  recursive :: bool

definition new_lock :: "bool \<Rightarrow> lock" where
  "new_lock rec = \<lparr>mutex = None, owner = None, locked = 0, recursive = rec\<rparr>"

definition lock_lock :: "thread \<Rightarrow> lock \<Rightarrow> lock flow" where
  "lock_lock self l =
     (if owner l = Some self then
        (if locked l \<noteq> 0 \<and> \<not> recursive l
         then Crash (Fatal ''locking mutex twice'')
         else Done (l\<lparr>owner := Some self, locked := locked l + 1\<rparr>))
      else
        (case mutex l of
           Some _ \<Rightarrow> Block
         | None \<Rightarrow> Done (l\<lparr>mutex := Some self, owner := Some self, locked := locked l + 1\<rparr>)))"

definition unlock_lock :: "thread \<Rightarrow> lock \<Rightarrow> lock flow" where
  "unlock_lock self l =
     (if owner l \<noteq> Some self then Crash (Fatal ''unlocking unowned lock'')
      else if locked l - 1 = 0
      then Done (l\<lparr>locked := 0, owner := None, mutex := None\<rparr>)
      else Done (l\<lparr>locked := locked l - 1\<rparr>))"

definition is_locked :: "thread \<Rightarrow> lock \<Rightarrow> bool" where
  "is_locked self l \<longleftrightarrow> locked l \<noteq> 0 \<and> owner l = Some self"

definition break_lock :: "lock \<Rightarrow> int \<times> lock" where
  "break_lock l = (locked l, l\<lparr>owner := None, locked := 0\<rparr>)"

definition resume_lock :: "thread \<Rightarrow> int \<Rightarrow> lock \<Rightarrow> lock" where
  "resume_lock self n l = l\<lparr>owner := Some self, locked := n\<rparr>"

text \<open>
  A lock between operations: its owner and depth agree with the mutex, and only a
  recursive lock is more than one deep.
\<close>

fun lock_wf :: "lock \<Rightarrow> bool" where
  "lock_wf l =
     (case mutex l of
        None \<Rightarrow> owner l = None \<and> locked l = 0
      | Some t \<Rightarrow> owner l = Some t \<and> 1 \<le> locked l \<and> (\<not> recursive l \<longrightarrow> locked l = 1))"

text \<open>The abstract lock: nobody, or a thread with a depth.\<close>

definition lock_abs :: "lock \<Rightarrow> (thread \<times> int) option" where
  "lock_abs l = map_option (\<lambda>t. (t, locked l)) (mutex l)"

lemma new_lock_wf: "lock_wf (new_lock r)"
  by (simp add: new_lock_def)

lemma lock_lock_wf: "lock_wf l \<Longrightarrow> lock_lock t l = Done l' \<Longrightarrow> lock_wf l'"
  by (auto simp: lock_lock_def split: if_splits option.splits)

lemma unlock_lock_wf: "lock_wf l \<Longrightarrow> unlock_lock t l = Done l' \<Longrightarrow> lock_wf l'"
  by (auto simp: unlock_lock_def split: if_splits option.splits)

lemma lock_lock_held: "lock_lock t l = Done l' \<Longrightarrow> lock_wf l \<Longrightarrow> is_locked t l'"
  by (auto simp: lock_lock_def is_locked_def split: if_splits option.splits)

lemma lock_lock_free [lock_simps]:
  "lock_lock t (new_lock r) = Done \<lparr>mutex = Some t, owner = Some t, locked = 1, recursive = r\<rparr>"
  by (simp add: lock_lock_def new_lock_def)

lemma lock_unlock:
  "lock_wf l \<Longrightarrow> lock_lock t l = Done l' \<Longrightarrow> unlock_lock t l' = Done l"
  by (auto simp: lock_lock_def unlock_lock_def split: if_splits option.splits)

text \<open>
  What the rest of the program may rely on: the interface of a (possibly recursive)
  lock. The operations are the acquiring and the releasing call, the test, and the
  depth a thread holds it with.
\<close>

locale lock_interface =
  fixes acquire :: "thread \<Rightarrow> 'l \<Rightarrow> 'l flow"
    and release :: "thread \<Rightarrow> 'l \<Rightarrow> 'l flow"
    and holds :: "thread \<Rightarrow> 'l \<Rightarrow> bool"
    and wf :: "'l \<Rightarrow> bool"
  assumes acquire_wf: "wf l \<Longrightarrow> acquire t l = Done l' \<Longrightarrow> wf l'"
    and release_wf: "wf l \<Longrightarrow> release t l = Done l' \<Longrightarrow> wf l'"
    and acquire_holds: "wf l \<Longrightarrow> acquire t l = Done l' \<Longrightarrow> holds t l'"
    and holds_unique: "wf l \<Longrightarrow> holds t l \<Longrightarrow> holds u l \<Longrightarrow> t = u"
    and release_undoes: "wf l \<Longrightarrow> acquire t l = Done l' \<Longrightarrow> release t l' = Done l"
    and release_unheld: "wf l \<Longrightarrow> \<not> holds t l \<Longrightarrow> \<exists>e. release t l = Crash e"
    and acquire_foreign: "wf l \<Longrightarrow> holds u l \<Longrightarrow> u \<noteq> t \<Longrightarrow> acquire t l = Block"
begin

text \<open>
  A critical section: acquire, run a body that does not touch the lock, release. It
  leaves the lock as it was, and no other thread could have acquired it meanwhile.
\<close>

lemma critical_section:
  assumes "wf l" and "acquire t l = Done l'"
  shows "release t l' = Done l \<and> (\<forall>u. u \<noteq> t \<longrightarrow> acquire u l' = Block)"
  using assms acquire_foreign acquire_holds acquire_wf release_undoes by metis

lemma nested_acquire:
  assumes "wf l" and "acquire t l = Done l1" and "acquire t l1 = Done l2"
  shows "bind_flow (release t l2) (release t) = Done l"
  using assms acquire_wf release_undoes by (metis bind_flow.simps(1))

lemma release_other:
  assumes "wf l" and "holds u l" and "u \<noteq> t"
  shows "\<exists>e. release t l = Crash e"
  using assms holds_unique release_unheld by metis

end

interpretation lk: lock_interface lock_lock unlock_lock is_locked lock_wf
  by unfold_locales
    (auto simp: lock_lock_def unlock_lock_def is_locked_def split: if_splits option.splits)

text \<open>
  A thread that locks a well-formed \<open>Lock\<close> excludes every other thread until it
  unlocks it, and unlocking restores the lock exactly as it was before.
\<close>

theorem lock_critical_section:
  assumes "lock_wf l" and "lock_lock t l = Done l'"
  shows "unlock_lock t l' = Done l \<and> (\<forall>u. u \<noteq> t \<longrightarrow> lock_lock u l' = Block)"
  using assms by (rule lk.critical_section)

theorem lock_critical_section_witness:
  "unlock_lock 1 \<lparr>mutex = Some 1, owner = Some 1, locked = 1, recursive = False\<rparr>
     = Done (new_lock False)"
  using lock_critical_section [OF new_lock_wf lock_lock_free, of 1 False] by simp

end
