(* ===== verification/Lock_Steps.thy ===== *)
theory Lock_Steps
  imports Locks
begin

text \<open>
  thread.h, \<open>Lock::lock\<close> and \<open>Lock::unlock\<close>, one memory access per step. The code
  reads the field \<open>owner\<close> before it holds the mutex; the steps interleave freely
  between threads, so the model shows that this unprotected read is harmless and that
  the coarse operations of theory Locks are what a thread observes.
\<close>

section \<open>Program points\<close>

datatype lock_pc =
    Idle
  | Lock_read_owner
  | Lock_check_recursive
  | Lock_mutex
  | Lock_set_owner
  | Lock_count
  | Unlock_read_owner
  | Unlock_count
  | Unlock_test
  | Unlock_clear_owner
  | Unlock_mutex
  | Failed

record lock_sys =
  the_lock :: lock
  pc :: "thread \<Rightarrow> lock_pc"
  depth :: "thread \<Rightarrow> nat"

text \<open>
  \<open>depth\<close> is a ghost: how often a thread has locked minus how often it has unlocked.
  It changes exactly where the code changes \<open>locked\<close>.
\<close>

definition start_sys :: "bool \<Rightarrow> lock_sys" where
  "start_sys rec = \<lparr>the_lock = new_lock rec, pc = (\<lambda>_. Idle), depth = (\<lambda>_. 0)\<rparr>"

definition goto :: "thread \<Rightarrow> lock_pc \<Rightarrow> lock_sys \<Rightarrow> lock_sys" where
  "goto t p s = s\<lparr>pc := (pc s)(t := p)\<rparr>"

inductive lock_step :: "lock_sys \<Rightarrow> lock_sys \<Rightarrow> bool" where
  call_lock:
    "pc s t = Idle \<Longrightarrow> lock_step s (goto t Lock_read_owner s)"
| owner_is_self:
    "pc s t = Lock_read_owner \<Longrightarrow> owner (the_lock s) = Some t \<Longrightarrow>
     lock_step s (goto t Lock_check_recursive s)"
| owner_is_other:
    "pc s t = Lock_read_owner \<Longrightarrow> owner (the_lock s) \<noteq> Some t \<Longrightarrow>
     lock_step s (goto t Lock_mutex s)"
| relock_error:
    "pc s t = Lock_check_recursive \<Longrightarrow> locked (the_lock s) \<noteq> 0 \<and> \<not> recursive (the_lock s) \<Longrightarrow>
     lock_step s (goto t Failed s)"
| relock:
    "pc s t = Lock_check_recursive \<Longrightarrow> \<not> (locked (the_lock s) \<noteq> 0 \<and> \<not> recursive (the_lock s)) \<Longrightarrow>
     lock_step s (goto t Lock_set_owner s)"
| mutex_acquired:
    "pc s t = Lock_mutex \<Longrightarrow> mutex (the_lock s) = None \<Longrightarrow>
     lock_step s (goto t Lock_set_owner (s\<lparr>the_lock := (the_lock s)\<lparr>mutex := Some t\<rparr>\<rparr>))"
| owner_set:
    "pc s t = Lock_set_owner \<Longrightarrow>
     lock_step s (goto t Lock_count (s\<lparr>the_lock := (the_lock s)\<lparr>owner := Some t\<rparr>\<rparr>))"
| counted:
    "pc s t = Lock_count \<Longrightarrow>
     lock_step s (goto t Idle (s\<lparr>the_lock := (the_lock s)\<lparr>locked := locked (the_lock s) + 1\<rparr>,
                               depth := (depth s)(t := depth s t + 1)\<rparr>))"
| call_unlock:
    "pc s t = Idle \<Longrightarrow> lock_step s (goto t Unlock_read_owner s)"
| unlock_error:
    "pc s t = Unlock_read_owner \<Longrightarrow> owner (the_lock s) \<noteq> Some t \<Longrightarrow>
     lock_step s (goto t Failed s)"
| unlock_owner:
    "pc s t = Unlock_read_owner \<Longrightarrow> owner (the_lock s) = Some t \<Longrightarrow>
     lock_step s (goto t Unlock_count s)"
| uncounted:
    "pc s t = Unlock_count \<Longrightarrow>
     lock_step s (goto t Unlock_test (s\<lparr>the_lock := (the_lock s)\<lparr>locked := locked (the_lock s) - 1\<rparr>,
                                      depth := (depth s)(t := depth s t - 1)\<rparr>))"
| still_locked:
    "pc s t = Unlock_test \<Longrightarrow> locked (the_lock s) \<noteq> 0 \<Longrightarrow> lock_step s (goto t Idle s)"
| last_unlock:
    "pc s t = Unlock_test \<Longrightarrow> locked (the_lock s) = 0 \<Longrightarrow>
     lock_step s (goto t Unlock_clear_owner s)"
| owner_cleared:
    "pc s t = Unlock_clear_owner \<Longrightarrow>
     lock_step s (goto t Unlock_mutex (s\<lparr>the_lock := (the_lock s)\<lparr>owner := None\<rparr>\<rparr>))"
| mutex_released:
    "pc s t = Unlock_mutex \<Longrightarrow>
     lock_step s (goto t Idle (s\<lparr>the_lock := (the_lock s)\<lparr>mutex := None\<rparr>\<rparr>))"

inductive lock_reachable :: "bool \<Rightarrow> lock_sys \<Rightarrow> bool" for rec where
  start: "lock_reachable rec (start_sys rec)"
| step: "lock_reachable rec s \<Longrightarrow> lock_step s s' \<Longrightarrow> lock_reachable rec s'"

section \<open>Calls\<close>

text \<open>
  The calls as they are made one after the other on the coarse lock of theory Locks, and a
  run of the steps with the calls each thread has returned from.
\<close>

datatype lock_call = Lock_call | Unlock_call

fun do_call :: "thread \<times> lock_call \<Rightarrow> lock \<Rightarrow> lock flow" where
  "do_call (t, Lock_call) l = lock_lock t l"
| "do_call (t, Unlock_call) l = unlock_lock t l"

definition calls_of :: "thread \<Rightarrow> (thread \<times> lock_call) list \<Rightarrow> lock_call list" where
  "calls_of t h = map snd (filter (\<lambda>c. fst c = t) h)"

definition call_of :: "lock_pc \<Rightarrow> lock_call" where
  "call_of p = (if p \<in> {Lock_read_owner, Lock_check_recursive, Lock_mutex, Lock_set_owner, Lock_count}
     then Lock_call else Unlock_call)"

definition returned :: "lock_sys \<Rightarrow> lock_sys \<Rightarrow> thread \<Rightarrow> lock_call list" where
  "returned s s' t = (if pc s t \<noteq> Idle \<and> pc s' t = Idle then [call_of (pc s t)] else [])"

inductive lock_run :: "bool \<Rightarrow> (thread \<Rightarrow> lock_call list) \<Rightarrow> lock_sys \<Rightarrow> bool" for rec where
  run_start: "lock_run rec (\<lambda>_. []) (start_sys rec)"
| run_step: "lock_run rec calls s \<Longrightarrow> lock_step s s' \<Longrightarrow>
    lock_run rec (\<lambda>t. calls t @ returned s s' t) s'"

lemma lock_run_reachable: "lock_run rec calls s \<Longrightarrow> lock_reachable rec s"
  by (induction rule: lock_run.induct) (auto intro: lock_reachable.intros)

section \<open>The invariant\<close>

text \<open>At which program points a thread holds the mutex, and at which it is the owner.\<close>

definition has_mutex :: "lock_pc \<Rightarrow> nat \<Rightarrow> bool" where
  "has_mutex p d \<longleftrightarrow> 0 < d \<or>
     p \<in> {Lock_set_owner, Lock_count, Unlock_test, Unlock_clear_owner, Unlock_mutex}"

definition is_owner :: "lock_pc \<Rightarrow> nat \<Rightarrow> bool" where
  "is_owner p d \<longleftrightarrow> 0 < d \<or> p \<in> {Lock_count, Unlock_test, Unlock_clear_owner}"

definition pc_depth_ok :: "bool \<Rightarrow> lock_pc \<Rightarrow> nat \<Rightarrow> bool" where
  "pc_depth_ok rec p d \<longleftrightarrow>
     (p \<in> {Lock_check_recursive, Unlock_count} \<longrightarrow> 0 < d) \<and>
     (p \<in> {Lock_mutex, Unlock_clear_owner, Unlock_mutex} \<longrightarrow> d = 0) \<and>
     (\<not> rec \<longrightarrow> d \<le> 1 \<and> (p \<in> {Lock_set_owner, Lock_count, Unlock_test} \<longrightarrow> d = 0))"

definition thread_ok :: "lock \<Rightarrow> thread \<Rightarrow> lock_pc \<Rightarrow> nat \<Rightarrow> bool" where
  "thread_ok l t p d \<longleftrightarrow>
     (mutex l = Some t \<longleftrightarrow> has_mutex p d) \<and>
     (owner l = Some t \<longleftrightarrow> is_owner p d) \<and>
     (has_mutex p d \<longrightarrow> locked l = int d) \<and>
     pc_depth_ok (recursive l) p d"

definition lock_inv :: "lock_sys \<Rightarrow> bool" where
  "lock_inv s \<longleftrightarrow>
     (\<forall>t. thread_ok (the_lock s) t (pc s t) (depth s t)) \<and>
     (mutex (the_lock s) = None \<longrightarrow> locked (the_lock s) = 0)"

lemmas thread_ok_defs = thread_ok_def has_mutex_def is_owner_def pc_depth_ok_def

lemma lock_inv_start: "lock_inv (start_sys rec)"
  by (simp add: lock_inv_def thread_ok_defs start_sys_def new_lock_def)

text \<open>
  One thread moves: it is enough to look at the thread itself and at one other thread.
\<close>

lemma lock_inv_move:
  assumes inv: "lock_inv s"
    and frame: "\<And>u. u \<noteq> t \<Longrightarrow> pc s' u = pc s u \<and> depth s' u = depth s u"
    and own: "thread_ok (the_lock s) t (pc s t) (depth s t) \<Longrightarrow>
        mutex (the_lock s) = None \<longrightarrow> locked (the_lock s) = 0 \<Longrightarrow>
        thread_ok (the_lock s') t (pc s' t) (depth s' t) \<and>
        (mutex (the_lock s') = None \<longrightarrow> locked (the_lock s') = 0)"
    and other: "\<And>u p d. u \<noteq> t \<Longrightarrow> thread_ok (the_lock s) t (pc s t) (depth s t) \<Longrightarrow>
        thread_ok (the_lock s) u p d \<Longrightarrow> thread_ok (the_lock s') u p d"
  shows "lock_inv s'"
proof -
  from inv have all: "thread_ok (the_lock s) u (pc s u) (depth s u)" for u
    by (simp add: lock_inv_def)
  from inv all [of t] have "thread_ok (the_lock s') t (pc s' t) (depth s' t) \<and>
      (mutex (the_lock s') = None \<longrightarrow> locked (the_lock s') = 0)"
    by (intro own) (simp_all add: lock_inv_def)
  moreover have "thread_ok (the_lock s') u (pc s' u) (depth s' u)" if "u \<noteq> t" for u
    using other [OF that all [of t] all [of u]] frame [OF that] by simp
  ultimately show ?thesis
    unfolding lock_inv_def by metis
qed

lemma lock_step_inv: "lock_step s s' \<Longrightarrow> lock_inv s \<Longrightarrow> lock_inv s'"
proof (induction rule: lock_step.induct)
  case (uncounted s t)
  then have "thread_ok (the_lock s) t Unlock_count (depth s t)"
    by (metis lock_inv_def)
  then obtain d where d: "depth s t = Suc d" and "recursive (the_lock s) \<or> d = 0"
    by (cases "depth s t") (auto simp: thread_ok_defs)
  with uncounted show ?case
    by (rule_tac lock_inv_move [of s t]) (auto simp: goto_def thread_ok_defs)
qed (rule_tac s = s and t = t in lock_inv_move; auto simp: goto_def thread_ok_defs; fail)+

lemma lock_reachable_inv: "lock_reachable rec s \<Longrightarrow> lock_inv s"
  by (induction rule: lock_reachable.induct) (auto intro: lock_inv_start lock_step_inv)

section \<open>What a thread observes\<close>

text \<open>
  C1. Mutual exclusion of the memory-level steps: in every state reachable by any
  interleaving, at most one thread is between its outermost \<open>lock()\<close> and the matching
  \<open>unlock()\<close>, although \<open>owner\<close> is read without holding the mutex.
\<close>

theorem lock_mutual_exclusion:
  assumes "lock_reachable rec s" and "0 < depth s t" and "0 < depth s u"
  shows "t = u"
proof -
  have "thread_ok (the_lock s) v (pc s v) (depth s v)" for v
    using lock_reachable_inv [OF assms(1)] by (simp add: lock_inv_def)
  from this [of t] this [of u] assms(2,3) show ?thesis
    by (auto simp: thread_ok_defs)
qed

text \<open>A run of a thread's \<open>lock()\<close> on a free lock, for the examples below.\<close>

definition after_lock :: "bool \<Rightarrow> thread \<Rightarrow> lock_sys" where
  "after_lock rec t =
     \<lparr>the_lock = \<lparr>mutex = Some t, owner = Some t, locked = 1, recursive = rec\<rparr>,
      pc = (\<lambda>_. Idle), depth = (\<lambda>_. 0)(t := 1)\<rparr>"

lemma const_fun_upd: "(\<lambda>_. c)(t := c) = (\<lambda>_. c)"
  by auto

lemma run_quiet: "lock_run rec calls s \<Longrightarrow> lock_step s s' \<Longrightarrow> (\<And>u. returned s s' u = []) \<Longrightarrow> lock_run rec calls s'"
  using lock_run.run_step [of rec calls s s'] by simp

lemma after_lock_run: "lock_run rec ((\<lambda>_. [])(t := [Lock_call])) (after_lock rec t)"
proof -
  let ?L = "\<lambda>m ow n. \<lparr>mutex = m, owner = ow, locked = n, recursive = rec\<rparr>"
  let ?S = "\<lambda>l p. \<lparr>the_lock = l, pc = (\<lambda>_. Idle)(t := p), depth = (\<lambda>_. 0)\<rparr>"
  have 1: "lock_step (start_sys rec) (?S (?L None None 0) Lock_read_owner)"
    using lock_step.call_lock [of "start_sys rec" t]
    by (simp add: goto_def start_sys_def new_lock_def)
  have 2: "lock_step (?S (?L None None 0) Lock_read_owner) (?S (?L None None 0) Lock_mutex)"
    using lock_step.owner_is_other [of "?S (?L None None 0) Lock_read_owner" t]
    by (simp add: goto_def)
  have 3: "lock_step (?S (?L None None 0) Lock_mutex) (?S (?L (Some t) None 0) Lock_set_owner)"
    using lock_step.mutex_acquired [of "?S (?L None None 0) Lock_mutex" t]
    by (simp add: goto_def)
  have 4: "lock_step (?S (?L (Some t) None 0) Lock_set_owner) (?S (?L (Some t) (Some t) 0) Lock_count)"
    using lock_step.owner_set [of "?S (?L (Some t) None 0) Lock_set_owner" t]
    by (simp add: goto_def)
  have 5: "lock_step (?S (?L (Some t) (Some t) 0) Lock_count) (after_lock rec t)"
    using lock_step.counted [of "?S (?L (Some t) (Some t) 0) Lock_count" t]
    by (simp add: goto_def after_lock_def const_fun_upd)
  note quiet = run_quiet [OF run_quiet [OF run_quiet [OF run_quiet [OF lock_run.run_start 1] 2] 3] 4]
  have "lock_run rec (\<lambda>_. []) (?S (?L (Some t) (Some t) 0) Lock_count)"
    by (rule quiet) (simp_all add: returned_def start_sys_def)
  from lock_run.run_step [OF this 5] show ?thesis
    by (rule back_subst [where P = "\<lambda>f. lock_run rec f _"])
      (auto simp: returned_def call_of_def after_lock_def fun_eq_iff)
qed

lemmas after_lock_reachable = after_lock_run [THEN lock_run_reachable]

theorem lock_mutual_exclusion_witness:
  "lock_reachable False (after_lock False 7) \<and> {u. 0 < depth (after_lock False 7) u} = {7}"
proof -
  have d: "0 < depth (after_lock False 7) 7" by (simp add: after_lock_def)
  show ?thesis
    using after_lock_reachable d lock_mutual_exclusion [OF after_lock_reachable _ d] by blast
qed

text \<open>
  A thread that is between two calls, or has only read \<open>owner\<close> or waits for the mutex,
  has not changed the lock yet.
\<close>

definition quiescent :: "lock_sys \<Rightarrow> bool" where
  "quiescent s \<longleftrightarrow>
     (\<forall>t. pc s t \<in> {Idle, Lock_read_owner, Lock_mutex, Unlock_read_owner, Failed})"

lemma thread_ok_resting:
  assumes "thread_ok l t p d" and "p \<in> {Idle, Lock_read_owner, Lock_mutex, Unlock_read_owner, Failed}"
  shows "(mutex l = Some t \<longleftrightarrow> 0 < d) \<and> (owner l = Some t \<longleftrightarrow> 0 < d)"
  using assms by (auto simp: thread_ok_def has_mutex_def is_owner_def)

section \<open>Refinement of the coarse lock\<close>

text \<open>
  The refinement mapping. \<open>lock()\<close> takes effect when the thread has the mutex and no error
  was found, \<open>unlock()\<close> when it gives the mutex back or, on a lock that stays locked, when
  it counts down. \<open>pending\<close> is the call that has taken effect and not returned yet.
\<close>

definition held_depth :: "lock_pc \<Rightarrow> nat \<Rightarrow> nat" where
  "held_depth p d = (if p \<in> {Lock_set_owner, Lock_count} then d + 1
     else if p \<in> {Unlock_test, Unlock_clear_owner, Unlock_mutex} \<and> d = 0 then 1 else d)"

definition coarse :: "lock_sys \<Rightarrow> lock" where
  "coarse s = (let l = the_lock s in
     l\<lparr>owner := mutex l,
       locked := (case mutex l of None \<Rightarrow> 0 | Some t \<Rightarrow> int (held_depth (pc s t) (depth s t)))\<rparr>)"

definition pending_call :: "lock_sys \<Rightarrow> thread \<Rightarrow> lock_call list" where
  "pending_call s t = (if pc s t \<in> {Lock_set_owner, Lock_count} then [Lock_call]
     else if pc s t = Unlock_test \<and> 0 < depth s t then [Unlock_call] else [])"

lemma calls_of_append: "calls_of t (h @ map (Pair u) cs) = calls_of t h @ (if u = t then cs else [])"
  by (simp add: calls_of_def filter_map o_def)

text \<open>One step is one call on the coarse lock, or none.\<close>

definition coarse_step :: "thread \<Rightarrow> lock_call list \<Rightarrow> lock_sys \<Rightarrow> lock_sys \<Rightarrow> bool" where
  "coarse_step t cs s s' \<longleftrightarrow> fold_flow do_call (map (Pair t) cs) (coarse s) = Done (coarse s') \<and>
     (\<forall>u. returned s s' u @ pending_call s' u = pending_call s u @ (if u = t then cs else []))"

lemmas coarse_defs = returned_def pending_call_def held_depth_def call_of_def goto_def thread_ok_defs

lemma coarse_stutter:
  assumes "\<forall>u. u \<noteq> t \<longrightarrow> pc s' u = pc s u \<and> depth s' u = depth s u"
    and "mutex (the_lock s') = mutex (the_lock s)" and "recursive (the_lock s') = recursive (the_lock s)"
    and "mutex (the_lock s) = Some t \<longrightarrow> held_depth (pc s' t) (depth s' t) = held_depth (pc s t) (depth s t)"
    and "returned s s' t @ pending_call s' t = pending_call s t"
  shows "\<exists>t cs. coarse_step t cs s s'"
proof -
  have "coarse s' = coarse s"
    using assms(1-4) by (cases "the_lock s"; cases "the_lock s'") (auto simp: coarse_def split: option.split)
  have "u \<noteq> t \<Longrightarrow> returned s s' u @ pending_call s' u = pending_call s u" for u
    using assms(1) by (simp add: returned_def pending_call_def)
  with assms(5) have "returned s s' u @ pending_call s' u = pending_call s u" for u
    by (cases "u = t") simp_all
  with \<open>coarse s' = coarse s\<close> show ?thesis
    by (intro exI [of _ t] exI [of _ "[]"]) (simp add: coarse_step_def)
qed

lemma lock_step_coarse:
  assumes "lock_step s s'" and "lock_inv s"
  shows "\<exists>t cs. coarse_step t cs s s'"
proof -
  from assms(2) have ok: "thread_ok (the_lock s) u (pc s u) (depth s u)"
    and free: "mutex (the_lock s) = None \<Longrightarrow> locked (the_lock s) = 0" for u
    by (simp_all add: lock_inv_def)
  show ?thesis
    using assms(1)
  proof cases
    case (mutex_acquired t)
    then show ?thesis using ok [of t] free
      by (intro exI [of _ t] exI [of _ "[Lock_call]"]) (auto simp: coarse_step_def coarse_def coarse_defs lock_lock_def)
  next
    case (relock t)
    then show ?thesis using ok [of t]
      by (intro exI [of _ t] exI [of _ "[Lock_call]"]) (auto simp: coarse_step_def coarse_def coarse_defs lock_lock_def)
  next
    case (uncounted t)
    then show ?thesis using ok [of t]
      by (intro exI [of _ t] exI [of _ "if depth s t = 1 then [] else [Unlock_call]"])
        (auto simp: coarse_step_def coarse_def coarse_defs unlock_lock_def)
  next
    case (mutex_released t)
    then show ?thesis using ok [of t]
      by (intro exI [of _ t] exI [of _ "[Unlock_call]"]) (auto simp: coarse_step_def coarse_def coarse_defs unlock_lock_def)
  next
    case (call_lock t)
    then show ?thesis using ok [of t] by (intro coarse_stutter [of t]) (auto simp: coarse_defs)
  next
    case (owner_is_self t)
    then show ?thesis using ok [of t] by (intro coarse_stutter [of t]) (auto simp: coarse_defs)
  next
    case (owner_is_other t)
    then show ?thesis using ok [of t] by (intro coarse_stutter [of t]) (auto simp: coarse_defs)
  next
    case (relock_error t)
    then show ?thesis using ok [of t] by (intro coarse_stutter [of t]) (auto simp: coarse_defs)
  next
    case (owner_set t)
    then show ?thesis using ok [of t] by (intro coarse_stutter [of t]) (auto simp: coarse_defs)
  next
    case (counted t)
    then show ?thesis using ok [of t] by (intro coarse_stutter [of t]) (auto simp: coarse_defs)
  next
    case (call_unlock t)
    then show ?thesis using ok [of t] by (intro coarse_stutter [of t]) (auto simp: coarse_defs)
  next
    case (unlock_error t)
    then show ?thesis using ok [of t] by (intro coarse_stutter [of t]) (auto simp: coarse_defs)
  next
    case (unlock_owner t)
    then show ?thesis using ok [of t] by (intro coarse_stutter [of t]) (auto simp: coarse_defs)
  next
    case (still_locked t)
    then show ?thesis using ok [of t] by (intro coarse_stutter [of t]) (auto simp: coarse_defs)
  next
    case (last_unlock t)
    then show ?thesis using ok [of t] by (intro coarse_stutter [of t]) (auto simp: coarse_defs)
  next
    case (owner_cleared t)
    then show ?thesis using ok [of t] by (intro coarse_stutter [of t]) (auto simp: coarse_defs)
  qed
qed

lemma failing_step:
  assumes "lock_step s s'" and "pc s t \<noteq> Failed" and "pc s' t = Failed"
  shows "pc s t = Lock_check_recursive \<and> locked (the_lock s) \<noteq> 0 \<and> \<not> recursive (the_lock s) \<or>
    pc s t = Unlock_read_owner \<and> owner (the_lock s) \<noteq> Some t"
  using assms by cases (simp_all add: goto_def split: if_splits)

lemma failing_call:
  assumes "thread_ok (the_lock s) t (pc s t) (depth s t)"
  shows "pc s t = Lock_check_recursive \<and> locked (the_lock s) \<noteq> 0 \<and> \<not> recursive (the_lock s) \<Longrightarrow>
      \<exists>msg. do_call (t, call_of (pc s t)) (coarse s) = Crash (Fatal msg)"
    and "pc s t = Unlock_read_owner \<and> owner (the_lock s) \<noteq> Some t \<Longrightarrow>
      \<exists>msg. do_call (t, call_of (pc s t)) (coarse s) = Crash (Fatal msg)"
proof -
  assume p: "pc s t = Lock_check_recursive \<and> locked (the_lock s) \<noteq> 0 \<and> \<not> recursive (the_lock s)"
  then have "mutex (the_lock s) = Some t" "0 < depth s t" using assms by (simp_all add: thread_ok_defs)
  with p show "\<exists>msg. do_call (t, call_of (pc s t)) (coarse s) = Crash (Fatal msg)"
    by (simp add: call_of_def coarse_def held_depth_def lock_lock_def)
next
  assume p: "pc s t = Unlock_read_owner \<and> owner (the_lock s) \<noteq> Some t"
  then have "mutex (the_lock s) \<noteq> Some t" using assms by (simp add: thread_ok_defs)
  with p show "\<exists>msg. do_call (t, call_of (pc s t)) (coarse s) = Crash (Fatal msg)"
    by (simp add: call_of_def coarse_def unlock_lock_def Let_def)
qed

lemma lock_run_history:
  assumes "lock_run rec calls s"
  shows "\<exists>h. fold_flow do_call h (new_lock rec) = Done (coarse s) \<and> (\<forall>t. calls_of t h = calls t @ pending_call s t)"
  using assms
proof (induction rule: lock_run.induct)
  case run_start
  then show ?case
    by (intro exI [of _ "[]"]) (simp add: start_sys_def new_lock_def coarse_def calls_of_def pending_call_def)
next
  case (run_step calls s s')
  then obtain h where h: "fold_flow do_call h (new_lock rec) = Done (coarse s)"
    "\<And>t. calls_of t h = calls t @ pending_call s t" by blast
  obtain t cs where "coarse_step t cs s s'"
    using lock_step_coarse run_step.hyps lock_reachable_inv lock_run_reachable by blast
  with h show ?case
    by (intro exI [of _ "h @ map (Pair t) cs"])
      (simp add: coarse_step_def fold_flow_append calls_of_append)
qed

lemma coarse_quiescent:
  assumes "lock_inv s" and "quiescent s"
  shows "coarse s = the_lock s"
proof -
  have ok: "thread_ok (the_lock s) t (pc s t) (depth s t)" for t using assms(1) by (simp add: lock_inv_def)
  have rest: "pc s t \<in> {Idle, Lock_read_owner, Lock_mutex, Unlock_read_owner, Failed}" for t
    using assms(2) by (simp only: quiescent_def)
  have same: "mutex (the_lock s) = Some t \<longleftrightarrow> owner (the_lock s) = Some t" for t
    using thread_ok_resting [OF ok rest] by blast
  then have "mutex (the_lock s) = owner (the_lock s)"
    by (cases "owner (the_lock s)"; cases "mutex (the_lock s)") auto
  moreover have "(case mutex (the_lock s) of None \<Rightarrow> 0 | Some t \<Rightarrow> int (held_depth (pc s t) (depth s t))) = locked (the_lock s)"
  proof (cases "mutex (the_lock s)")
    case None
    then show ?thesis using assms(1) by (simp add: lock_inv_def)
  next
    case (Some v)
    then have "locked (the_lock s) = int (depth s v)" using ok [of v] by (simp add: thread_ok_def)
    moreover have "held_depth (pc s v) (depth s v) = depth s v" using rest [of v] by (auto simp: held_depth_def)
    ultimately show ?thesis using Some by simp
  qed
  ultimately show ?thesis by (simp add: coarse_def Let_def)
qed

text \<open>
  C2. The memory-level steps refine \<open>lock_lock\<close> and \<open>unlock_lock\<close>: in every run, under any
  interleaving, the coarse value of the lock is what the coarse calls lead to when they are
  made one after the other, each thread's calls being those it has returned from, in their
  order, and at most one more that has taken effect already. When no thread is in the middle
  of changing the lock, that value is the lock itself and no such call is open. A call that
  ends in \<open>ThreadError\<close> is one that does so on the coarse lock, and a thread that finds the
  mutex taken is one that the coarse lock makes wait.
\<close>

theorem lock_refines_coarse:
  assumes "lock_run rec calls s"
  shows "(\<exists>h. fold_flow do_call h (new_lock rec) = Done (coarse s) \<and> (\<forall>t. calls_of t h = calls t @ pending_call s t)) \<and>
    (quiescent s \<longrightarrow> coarse s = the_lock s \<and> (\<forall>t. pending_call s t = [])) \<and>
    (\<forall>t s'. lock_step s s' \<and> pc s t \<noteq> Failed \<and> pc s' t = Failed \<longrightarrow>
      (\<exists>msg. do_call (t, call_of (pc s t)) (coarse s) = Crash (Fatal msg))) \<and>
    (\<forall>t. pc s t = Lock_mutex \<and> mutex (the_lock s) \<noteq> None \<longrightarrow> lock_lock t (coarse s) = Block)"
proof (intro conjI allI impI)
  have inv: "lock_inv s" using lock_reachable_inv lock_run_reachable [OF assms] .
  then have ok: "thread_ok (the_lock s) t (pc s t) (depth s t)" for t by (simp add: lock_inv_def)
  show "\<exists>h. fold_flow do_call h (new_lock rec) = Done (coarse s) \<and> (\<forall>t. calls_of t h = calls t @ pending_call s t)"
    by (rule lock_run_history [OF assms])
  show "coarse s = the_lock s" if "quiescent s" by (rule coarse_quiescent [OF inv that])
  show "pending_call s t = []" if "quiescent s" for t
    using that by (auto simp: quiescent_def pending_call_def dest: spec [of _ t])
  show "\<exists>msg. do_call (t, call_of (pc s t)) (coarse s) = Crash (Fatal msg)"
    if "lock_step s s' \<and> pc s t \<noteq> Failed \<and> pc s' t = Failed" for t s'
    using failing_step [of s s' t] that failing_call [OF ok [of t]] by blast
  show "lock_lock t (coarse s) = Block" if "pc s t = Lock_mutex \<and> mutex (the_lock s) \<noteq> None" for t
    using that ok [of t] by (auto simp: coarse_def lock_lock_def thread_ok_defs)
qed

theorem lock_refines_coarse_witness:
  "\<exists>h. fold_flow do_call h (new_lock True) = Done (the_lock (after_lock True 3)) \<and> calls_of 3 h = [Lock_call]"
proof -
  have q: "quiescent (after_lock True 3)" by (simp add: quiescent_def after_lock_def)
  from lock_refines_coarse [OF after_lock_run, of True 3] q show ?thesis by auto
qed

end
