(* ===== verification/Monitors.thy ===== *)
theory Monitors
  imports Locks
begin

text \<open>
  thread.h, the class \<open>ConditionVariable\<close>, and the pattern all its clients follow: an
  object with a lock, a condition variable on that lock and some data. The theory also
  states the wake-up contract every blocking operation has to meet.
\<close>

section \<open>ConditionVariable\<close>

text \<open>
  \<open>cv_waiting\<close> is the field \<open>waiting\<close>. \<open>sleepers\<close> are the threads blocked in
  \<open>pthread_cond_wait\<close>, each with the depth that \<open>wait()\<close> keeps in its local variable
  \<open>l\<close>; \<open>woken\<close> are those unblocked and about to take the mutex again.
\<close>

record cond_var =
  cv_waiting :: int
  sleepers :: "(thread \<times> int) list"
  woken :: "(thread \<times> int) list"

definition new_cond :: cond_var where
  "new_cond = \<lparr>cv_waiting = 0, sleepers = [], woken = []\<rparr>"

text \<open>The first half of \<open>wait()\<close>, up to the point where the thread sleeps.\<close>

definition cond_wait :: "thread \<Rightarrow> lock \<Rightarrow> cond_var \<Rightarrow> (lock \<times> cond_var) flow" where
  "cond_wait self l c =
     (if \<not> is_locked self l then Crash (Fatal ''waited on condition without locked mutex'')
      else let (n, l') = break_lock l
           in Done (l'\<lparr>mutex := None\<rparr>,
                    c\<lparr>cv_waiting := cv_waiting c + 1, sleepers := sleepers c @ [(self, n)]\<rparr>))"

text \<open>The second half: \<open>pthread_cond_wait\<close> returns with the mutex taken.\<close>

definition cond_wait_return :: "thread \<Rightarrow> lock \<Rightarrow> cond_var \<Rightarrow> (lock \<times> cond_var) flow" where
  "cond_wait_return self l c =
     (case map_of (woken c) self of
        None \<Rightarrow> Block
      | Some n \<Rightarrow>
          (case mutex l of
             Some _ \<Rightarrow> Block
           | None \<Rightarrow>
               Done (resume_lock self n (l\<lparr>mutex := Some self\<rparr>),
                     c\<lparr>cv_waiting := cv_waiting c - 1, woken := remove1 (self, n) (woken c)\<rparr>)))"

text \<open>
  \<open>pthread_cond_signal\<close> unblocks a blocked thread of the system's choice: \<open>pick\<close>.
  That more may wake is \<open>spurious_wakeup\<close>, which can happen at any time.
\<close>

definition remove_nth :: "nat \<Rightarrow> 'a list \<Rightarrow> 'a list" where
  "remove_nth i xs = take i xs @ drop (Suc i) xs"

definition pthread_cond_signal :: "nat \<Rightarrow> cond_var \<Rightarrow> cond_var" where
  "pthread_cond_signal pick c =
     (if sleepers c = [] then c
      else let i = pick mod length (sleepers c)
           in c\<lparr>sleepers := remove_nth i (sleepers c), woken := woken c @ [sleepers c ! i]\<rparr>)"

definition cond_signal :: "nat \<Rightarrow> thread \<Rightarrow> lock \<Rightarrow> cond_var \<Rightarrow> cond_var flow" where
  "cond_signal pick self l c =
     (if \<not> is_locked self l then Crash (Fatal ''signaled condition without locked mutex'')
      else Done (if cv_waiting c \<noteq> 0 then pthread_cond_signal pick c else c))"

definition cond_broadcast :: "thread \<Rightarrow> lock \<Rightarrow> cond_var \<Rightarrow> cond_var flow" where
  "cond_broadcast self l c =
     (if \<not> is_locked self l then Crash (Fatal ''signaled condition without locked mutex'')
      else Done (if cv_waiting c \<noteq> 0 then c\<lparr>sleepers := [], woken := woken c @ sleepers c\<rparr> else c))"

definition spurious_wakeup :: "thread \<Rightarrow> cond_var \<Rightarrow> cond_var" where
  "spurious_wakeup t c =
     (case map_of (sleepers c) t of
        None \<Rightarrow> c
      | Some n \<Rightarrow> c\<lparr>sleepers := remove1 (t, n) (sleepers c), woken := woken c @ [(t, n)]\<rparr>)"

section \<open>Monitors\<close>

text \<open>An object with a lock, a condition variable on it, and data.\<close>

record 'd monitor =
  m_lock :: lock
  m_cond :: cond_var
  m_data :: 'd

definition new_monitor :: "'d \<Rightarrow> 'd monitor" where
  "new_monitor d = \<lparr>m_lock = new_lock False, m_cond = new_cond, m_data = d\<rparr>"

definition enter :: "thread \<Rightarrow> 'd monitor \<Rightarrow> 'd monitor flow" where
  "enter t m = map_flow_value (\<lambda>l. m\<lparr>m_lock := l\<rparr>) (lock_lock t (m_lock m))"

definition leave :: "thread \<Rightarrow> 'd monitor \<Rightarrow> 'd monitor flow" where
  "leave t m = map_flow_value (\<lambda>l. m\<lparr>m_lock := l\<rparr>) (unlock_lock t (m_lock m))"

definition mwait :: "thread \<Rightarrow> 'd monitor \<Rightarrow> 'd monitor flow" where
  "mwait t m = map_flow_value (\<lambda>(l, c). m\<lparr>m_lock := l, m_cond := c\<rparr>)
                 (cond_wait t (m_lock m) (m_cond m))"

definition mreturn :: "thread \<Rightarrow> 'd monitor \<Rightarrow> 'd monitor flow" where
  "mreturn t m = map_flow_value (\<lambda>(l, c). m\<lparr>m_lock := l, m_cond := c\<rparr>)
                   (cond_wait_return t (m_lock m) (m_cond m))"

definition msignal :: "nat \<Rightarrow> thread \<Rightarrow> 'd monitor \<Rightarrow> 'd monitor flow" where
  "msignal pick t m = map_flow_value (\<lambda>c. m\<lparr>m_cond := c\<rparr>)
                        (cond_signal pick t (m_lock m) (m_cond m))"

definition mbroadcast :: "thread \<Rightarrow> 'd monitor \<Rightarrow> 'd monitor flow" where
  "mbroadcast t m = map_flow_value (\<lambda>c. m\<lparr>m_cond := c\<rparr>)
                      (cond_broadcast t (m_lock m) (m_cond m))"

definition mspurious :: "thread \<Rightarrow> 'd monitor \<Rightarrow> 'd monitor" where
  "mspurious t m = m\<lparr>m_cond := spurious_wakeup t (m_cond m)\<rparr>"

section \<open>The two shapes of a monitor\<close>

text \<open>
  Between operations a monitor is free, with threads \<open>S\<close> asleep and \<open>W\<close> awake but
  not yet running; inside an operation one thread holds it. Every operation is computed
  on these two shapes.
\<close>

definition waiters :: "thread list \<Rightarrow> thread list \<Rightarrow> cond_var" where
  "waiters S W = \<lparr>cv_waiting = int (length S + length W),
     sleepers = map (\<lambda>t. (t, 1)) S, woken = map (\<lambda>t. (t, 1)) W\<rparr>"

definition idle_monitor :: "thread list \<Rightarrow> thread list \<Rightarrow> 'd \<Rightarrow> 'd monitor" where
  "idle_monitor S W d = \<lparr>m_lock = new_lock False, m_cond = waiters S W, m_data = d\<rparr>"

definition held_monitor :: "thread \<Rightarrow> thread list \<Rightarrow> thread list \<Rightarrow> 'd \<Rightarrow> 'd monitor" where
  "held_monitor t S W d =
     \<lparr>m_lock = \<lparr>mutex = Some t, owner = Some t, locked = 1, recursive = False\<rparr>,
      m_cond = waiters S W, m_data = d\<rparr>"

text \<open>Waking one of \<open>S\<close>.\<close>

definition wake_one :: "nat \<Rightarrow> thread list \<Rightarrow> thread list \<Rightarrow> thread list \<times> thread list" where
  "wake_one pick S W =
     (if S = [] then (S, W)
      else let i = pick mod length S in (remove_nth i S, W @ [S ! i]))"

lemma map_remove_nth: "map f (remove_nth i xs) = remove_nth i (map f xs)"
  by (simp add: remove_nth_def take_map drop_map)

lemma length_remove_nth: "i < length xs \<Longrightarrow> length (remove_nth i xs) = length xs - 1"
  by (simp add: remove_nth_def)

lemma set_remove_nth: "i < length xs \<Longrightarrow> set (remove_nth i xs) \<union> {xs ! i} = set xs"
  by (metis Un_insert_right id_take_nth_drop list.simps(15) remove_nth_def set_append
      sup_bot.right_neutral)

lemma wake_one_length:
  "wake_one p S W = (S', W') \<Longrightarrow> length S' + length W' = length S + length W"
  by (auto simp: wake_one_def Let_def length_remove_nth split: if_splits)

lemma wake_one_awake:
  "wake_one p S W = (S', W') \<Longrightarrow>
   S = [] \<and> S' = [] \<and> W' = W \<or> S \<noteq> [] \<and> length W' = length W + 1"
  by (auto simp: wake_one_def Let_def split: if_splits)

lemma wake_one_set:
  assumes "wake_one p S W = (S', W')"
  shows "set S' \<union> set W' = set S \<union> set W"
proof (cases "S = []")
  case False
  let ?i = "p mod length S"
  have "set S' \<union> set W' = (set (remove_nth ?i S) \<union> {S ! ?i}) \<union> set W"
    using assms False by (auto simp only: wake_one_def Let_def if_False prod.inject set_append
        set_simps Un_iff insert_iff empty_iff)
  also have "set (remove_nth ?i S) \<union> {S ! ?i} = set S"
    using False by (intro set_remove_nth) simp
  finally show ?thesis .
qed (use assms in \<open>simp add: wake_one_def\<close>)

lemma int_length_pred:
  "t \<in> set W \<Longrightarrow> int (length W - Suc 0) = int (length W) - 1"
  "W \<noteq> [] \<Longrightarrow> int (length W - Suc 0) = int (length W) - 1"
  by (cases W; simp)+

lemma int_add_0_iff: "int a + int b = 0 \<longleftrightarrow> a = 0 \<and> b = 0"
  by linarith

lemma map_of_ones: "map_of (map (\<lambda>t. (t, 1::int)) W) t = (if t \<in> set W then Some 1 else None)"
  by (induction W) auto

lemma remove1_ones:
  "remove1 (t, 1::int) (map (\<lambda>t. (t, 1)) W) = map (\<lambda>t. (t, 1)) (remove1 t W)"
  by (induction W) auto

lemma map_ones_inject: "map (\<lambda>t. (t, 1::int)) xs = map (\<lambda>t. (t, 1)) ys \<longleftrightarrow> xs = ys"
  by (rule inj_map_eq_map) (simp add: inj_on_def)

lemma shapes_inject [lock_simps]:
  "idle_monitor S W d = idle_monitor S' W' d' \<longleftrightarrow> S = S' \<and> W = W' \<and> d = d'"
  "held_monitor t S W d = held_monitor t' S' W' d' \<longleftrightarrow> t = t' \<and> S = S' \<and> W = W' \<and> d = d'"
  "idle_monitor S W d \<noteq> held_monitor t S' W' d'"
  "held_monitor t S' W' d' \<noteq> idle_monitor S W d"
  by (auto simp: idle_monitor_def held_monitor_def waiters_def map_ones_inject new_lock_def)

lemma m_data_shapes [lock_simps]:
  "m_data (idle_monitor S W d) = d" "m_data (held_monitor t S W d) = d"
  "(held_monitor t S W d)\<lparr>m_data := d'\<rparr> = held_monitor t S W d'"
  by (simp_all add: idle_monitor_def held_monitor_def)

lemma new_monitor_shape [lock_simps]: "new_monitor d = idle_monitor [] [] d"
  by (simp add: new_monitor_def idle_monitor_def waiters_def new_cond_def)

lemma enter_idle [lock_simps]: "enter t (idle_monitor S W d) = Done (held_monitor t S W d)"
  by (simp add: enter_def idle_monitor_def held_monitor_def lock_lock_free)

lemma enter_held [lock_simps]: "u \<noteq> t \<Longrightarrow> enter t (held_monitor u S W d) = Block"
  by (simp add: enter_def held_monitor_def lock_lock_def)

lemma leave_held [lock_simps]: "leave t (held_monitor t S W d) = Done (idle_monitor S W d)"
  by (simp add: leave_def idle_monitor_def held_monitor_def unlock_lock_def new_lock_def)

lemma mwait_held [lock_simps]: "mwait t (held_monitor t S W d) = Done (idle_monitor (S @ [t]) W d)"
  by (simp add: mwait_def idle_monitor_def held_monitor_def cond_wait_def is_locked_def
      break_lock_def new_lock_def waiters_def)

lemma mreturn_idle [lock_simps]:
  "mreturn t (idle_monitor S W d) =
     (if t \<in> set W then Done (held_monitor t S (remove1 t W) d) else Block)"
  by (auto simp: mreturn_def idle_monitor_def held_monitor_def cond_wait_return_def waiters_def
      map_of_ones remove1_ones resume_lock_def new_lock_def length_remove1 int_length_pred)

lemma mreturn_held [lock_simps]: "mreturn t (held_monitor u S W d) = Block"
  by (simp add: mreturn_def held_monitor_def cond_wait_return_def waiters_def split: option.split)

lemma msignal_held [lock_simps]:
  "msignal p t (held_monitor t S W d) =
     Done (case wake_one p S W of (S', W') \<Rightarrow> held_monitor t S' W' d)"
  by (auto simp: msignal_def held_monitor_def cond_signal_def is_locked_def waiters_def
      pthread_cond_signal_def wake_one_def Let_def map_remove_nth length_remove_nth
      int_length_pred int_add_0_iff)

lemma mbroadcast_held [lock_simps]:
  "mbroadcast t (held_monitor t S W d) = Done (held_monitor t [] (W @ S) d)"
  by (auto simp: mbroadcast_def held_monitor_def cond_broadcast_def is_locked_def waiters_def
      int_add_0_iff)

lemma mspurious_idle [lock_simps]:
  "mspurious t (idle_monitor S W d) =
     (if t \<in> set S then idle_monitor (remove1 t S) (W @ [t]) d else idle_monitor S W d)"
  by (auto simp: mspurious_def idle_monitor_def spurious_wakeup_def waiters_def map_of_ones
      remove1_ones length_remove1 int_length_pred)

lemma mspurious_held [lock_simps]:
  "mspurious t (held_monitor u S W d) =
     (if t \<in> set S then held_monitor u (remove1 t S) (W @ [t]) d else held_monitor u S W d)"
  by (auto simp: mspurious_def held_monitor_def spurious_wakeup_def waiters_def map_of_ones
      remove1_ones length_remove1 int_length_pred)

lemma flow_simps [lock_simps]:
  "bind_flow (Done x) f = f x" "bind_flow Block f = Block" "bind_flow (Crash e) f = Crash e"
  by simp_all

section \<open>Reachable states and the wake-up contract\<close>

inductive reach :: "('s \<Rightarrow> bool) \<Rightarrow> ('s \<Rightarrow> 's \<Rightarrow> bool) \<Rightarrow> 's \<Rightarrow> bool" for I R where
  reach_init: "I s \<Longrightarrow> reach I R s"
| reach_step: "reach I R s \<Longrightarrow> R s s' \<Longrightarrow> reach I R s'"

text \<open>
  A blocking object makes something available (messages in a queue, a value that has
  been written). While threads sleep, at least as many threads are awake as there are
  things available: then no thread sleeps beside an available thing with nobody under
  way to take it or to wake the next.
\<close>

locale wakeup_contract =
  fixes initial :: "'s \<Rightarrow> bool"
    and step :: "'s \<Rightarrow> 's \<Rightarrow> bool"
    and inv :: "'s \<Rightarrow> bool"
    and available :: "'s \<Rightarrow> nat"
    and asleep :: "'s \<Rightarrow> nat"
    and awake :: "'s \<Rightarrow> nat"
  assumes initial_inv: "initial s \<Longrightarrow> inv s"
    and initial_asleep: "initial s \<Longrightarrow> asleep s = 0"
    and step_inv: "inv s \<Longrightarrow> step s s' \<Longrightarrow> inv s'"
    and step_awake: "inv s \<Longrightarrow> step s s' \<Longrightarrow> asleep s = 0 \<or> available s \<le> awake s \<Longrightarrow>
      asleep s' = 0 \<or> available s' \<le> awake s'"
begin

lemma reach_inv: "reach initial step s \<Longrightarrow> inv s"
  by (induction rule: reach.induct) (auto intro: initial_inv step_inv)

lemma reach_awake: "reach initial step s \<Longrightarrow> asleep s = 0 \<or> available s \<le> awake s"
  by (induction rule: reach.induct) (auto simp: initial_asleep dest: step_awake [OF reach_inv])

lemma no_lost_wakeup:
  "reach initial step s \<Longrightarrow> 0 < available s \<Longrightarrow> 0 < asleep s \<Longrightarrow> 0 < awake s"
  using reach_awake by fastforce

end

text \<open>How many threads sleep and how many are awake in a monitor.\<close>

definition n_asleep :: "'d monitor \<Rightarrow> nat" where
  "n_asleep m = length (sleepers (m_cond m))"

definition n_awake :: "'d monitor \<Rightarrow> nat" where
  "n_awake m = length (woken (m_cond m))"

lemma n_shapes [lock_simps]:
  "n_asleep (idle_monitor S W d) = length S" "n_awake (idle_monitor S W d) = length W"
  "n_asleep (held_monitor t S W d) = length S" "n_awake (held_monitor t S W d) = length W"
  by (simp_all add: n_asleep_def n_awake_def idle_monitor_def held_monitor_def waiters_def)

definition blocked_in :: "'d monitor \<Rightarrow> thread \<Rightarrow> bool" where
  "blocked_in m t \<longleftrightarrow> t \<in> fst ` set (sleepers (m_cond m)) \<union> fst ` set (woken (m_cond m))"

lemma blocked_shapes [lock_simps]:
  "blocked_in (idle_monitor S W d) t \<longleftrightarrow> t \<in> set S \<union> set W"
  "blocked_in (held_monitor u S W d) t \<longleftrightarrow> t \<in> set S \<union> set W"
  by (auto simp: blocked_in_def idle_monitor_def held_monitor_def waiters_def image_image)

end
