(* ===== verification/Kernel_Sync.thy ===== *)
theory Kernel_Sync
  imports Monitors
begin

text \<open>
  The synchronisation classes offered to C++ code: \<open>Semaphore\<close> (thread.h, thread.cc),
  \<open>SyncVar\<close> (syncvar.h) and the sending half of \<open>Channel\<close> (channel.h). An operation
  that may sleep is split where it sleeps: its start, and its resumption after the
  condition variable has let it go.
\<close>

section \<open>Semaphore\<close>

record semaphore =
  count :: "32 word"
  sem_waiting :: "32 word"

definition new_semaphore :: "32 word \<Rightarrow> semaphore monitor" where
  "new_semaphore count0 = new_monitor \<lparr>count = count0, sem_waiting = 0\<rparr>"

text \<open>
  The loop of \<open>wait()\<close> from its test on, with the lock held: the thread goes to sleep
  (\<open>False\<close>) or takes a permit and returns (\<open>True\<close>).
\<close>

definition sem_wait_loop :: "thread \<Rightarrow> semaphore monitor \<Rightarrow> (bool \<times> semaphore monitor) flow" where
  "sem_wait_loop t m =
     (let d = m_data m
      in if count d = 0 then map_flow_value (Pair False) (mwait t m)
         else map_flow_value (Pair True)
           (leave t (m\<lparr>m_data := d\<lparr>sem_waiting := sem_waiting d - 1, count := count d - 1\<rparr>\<rparr>)))"

definition sem_wait :: "thread \<Rightarrow> semaphore monitor \<Rightarrow> (bool \<times> semaphore monitor) flow" where
  "sem_wait t m = bind_flow (enter t m) (\<lambda>m.
     let d = m_data m in sem_wait_loop t (m\<lparr>m_data := d\<lparr>sem_waiting := sem_waiting d + 1\<rparr>\<rparr>))"

definition sem_wait_resume :: "thread \<Rightarrow> semaphore monitor \<Rightarrow> (bool \<times> semaphore monitor) flow" where
  "sem_wait_resume t m = bind_flow (mreturn t m) (sem_wait_loop t)"

definition sem_post :: "nat \<Rightarrow> thread \<Rightarrow> semaphore monitor \<Rightarrow> semaphore monitor flow" where
  "sem_post pick t m = bind_flow (enter t m) (\<lambda>m.
     let d = m_data m; m' = m\<lparr>m_data := d\<lparr>count := count d + 1\<rparr>\<rparr>
     in if count d = 0 \<and> sem_waiting d \<noteq> 0 then bind_flow (msignal pick t m') (leave t)
        else leave t m')"

datatype sem_event = Acquired | Posted

text \<open>Runs of a semaphore, with the permits given and taken.\<close>

inductive sem_run :: "32 word \<Rightarrow> sem_event list \<Rightarrow> semaphore monitor \<Rightarrow> bool" for c where
  created: "sem_run c [] (new_semaphore c)"
| waited: "sem_run c es m \<Longrightarrow> \<not> blocked_in m t \<Longrightarrow> sem_wait t m = Done (r, m') \<Longrightarrow>
    sem_run c (if r then es @ [Acquired] else es) m'"
| resumed: "sem_run c es m \<Longrightarrow> sem_wait_resume t m = Done (r, m') \<Longrightarrow>
    sem_run c (if r then es @ [Acquired] else es) m'"
| posted: "sem_run c es m \<Longrightarrow> \<not> blocked_in m t \<Longrightarrow> sem_post p t m = Done m' \<Longrightarrow>
    sem_run c (es @ [Posted]) m'"
| woken_up: "sem_run c es m \<Longrightarrow> sem_run c es (mspurious t m)"

definition sem_shape :: "semaphore monitor \<Rightarrow> bool" where
  "sem_shape m \<longleftrightarrow>
     (\<exists>S W. m = idle_monitor S W (m_data m) \<and> sem_waiting (m_data m) = word_of_nat (length S + length W))"

lemma sem_shapeE:
  assumes "sem_shape m"
  obtains S W n where "m = idle_monitor S W \<lparr>count = n, sem_waiting = word_of_nat (length S + length W)\<rparr>"
  using assms unfolding sem_shape_def by (metis (full_types) semaphore.surjective unit.exhaust)

lemma sem_shape_idle [lock_simps]:
  "sem_shape (idle_monitor S W d) \<longleftrightarrow> sem_waiting d = word_of_nat (length S + length W)"
  by (auto simp: sem_shape_def lock_simps)

text \<open>What each operation does to the two shapes.\<close>

lemma sem_wait_idle:
  "sem_wait t (idle_monitor S W \<lparr>count = n, sem_waiting = k\<rparr>) =
     Done (if n = 0 then (False, idle_monitor (S @ [t]) W \<lparr>count = n, sem_waiting = k + 1\<rparr>)
           else (True, idle_monitor S W \<lparr>count = n - 1, sem_waiting = k\<rparr>))"
  by (simp add: sem_wait_def sem_wait_loop_def lock_simps)

lemma sem_wait_resume_idle:
  "sem_wait_resume t (idle_monitor S W \<lparr>count = n, sem_waiting = k\<rparr>) =
     (if t \<in> set W then
        Done (if n = 0 then (False, idle_monitor (S @ [t]) (remove1 t W) \<lparr>count = n, sem_waiting = k\<rparr>)
              else (True, idle_monitor S (remove1 t W) \<lparr>count = n - 1, sem_waiting = k - 1\<rparr>))
      else Block)"
  by (simp add: sem_wait_resume_def sem_wait_loop_def lock_simps)

lemma sem_post_idle:
  "sem_post p t (idle_monitor S W \<lparr>count = n, sem_waiting = k\<rparr>) =
     Done (case if n = 0 \<and> k \<noteq> 0 then wake_one p S W else (S, W) of
             (S', W') \<Rightarrow> idle_monitor S' W' \<lparr>count = n + 1, sem_waiting = k\<rparr>)"
  by (simp add: sem_post_def lock_simps Let_def split: prod.split)

lemmas sem_idle = sem_wait_idle sem_wait_resume_idle sem_post_idle

lemma permit_taken: "n \<noteq> 0 \<Longrightarrow> Suc (unat (n - 1) + k) = unat n + k"
  for n :: "32 word"
  using unat_gt_0 [of n] by (simp add: unat_minus_one)

definition permits :: "semaphore monitor \<Rightarrow> nat" where
  "permits m = unat (count (m_data m))"

lemma sem_run_shape: "sem_run c es m \<Longrightarrow> sem_shape m"
proof (induction rule: sem_run.induct)
  case created
  show ?case by (simp add: new_semaphore_def lock_simps)
next
  case (waited es m t r m')
  then show ?case
    by (elim sem_shapeE) (auto simp: sem_idle lock_simps split: if_splits)
next
  case (resumed es m t r m')
  then show ?case
    by (elim sem_shapeE)
      (auto simp: sem_idle lock_simps simp del: length_remove1 split: if_splits
        dest: length_remove1_mem)
next
  case (posted es m t p m')
  then show ?case
    by (elim sem_shapeE)
      (auto simp: sem_idle lock_simps split: if_splits prod.splits
        dest: wake_one_length)
next
  case (woken_up es m t)
  then show ?case
    by (elim sem_shapeE)
      (auto simp: lock_simps split: if_splits dest: length_remove1_mem)
qed

text \<open>
  C8. A semaphore never hands out more permits than it has: as long as the initial count
  plus the posts stay below $2^{32}$, the permits left plus the completed waits are
  exactly the initial count plus the posts, in every interleaving.
\<close>

theorem semaphore_conserves_permits:
  assumes "sem_run c es m"
    and "unat c + count_list es Posted < 2 ^ 32"
  shows "permits m + count_list es Acquired = unat c + count_list es Posted"
  using assms
proof (induction rule: sem_run.induct)
  case created
  then show ?case by (simp add: permits_def new_semaphore_def lock_simps)
next
  case (waited es m t r m')
  from sem_run_shape [OF waited.hyps(1)] waited show ?case
    by (elim sem_shapeE)
      (auto simp: sem_idle permits_def lock_simps permit_taken unat_eq_zero split: if_splits)
next
  case (resumed es m t r m')
  from sem_run_shape [OF resumed.hyps(1)] resumed show ?case
    by (elim sem_shapeE)
      (auto simp: sem_idle permits_def lock_simps permit_taken unat_eq_zero split: if_splits)
next
  case (posted es m t p m')
  from sem_run_shape [OF posted.hyps(1)] posted show ?case
    by (elim sem_shapeE)
      (auto simp: sem_idle permits_def lock_simps unat_word_ariths split: if_splits prod.splits)
next
  case (woken_up es m t)
  from sem_run_shape [OF woken_up.hyps(1)] woken_up show ?case
    by (elim sem_shapeE) (auto simp: permits_def lock_simps split: if_splits)
qed


theorem semaphore_conserves_permits_witness:
  "permits (idle_monitor [] [] \<lparr>count = 2, sem_waiting = 0\<rparr>) + count_list [Posted] Acquired =
     unat (1 :: 32 word) + count_list [Posted] Posted"
proof -
  have run: "sem_run 1 [Posted] (idle_monitor [] [] \<lparr>count = 2, sem_waiting = 0\<rparr>)"
    using sem_run.posted [OF sem_run.created, of 1 0 0
        "idle_monitor [] [] \<lparr>count = 2, sem_waiting = 0\<rparr>"]
    by (simp add: new_semaphore_def lock_simps sem_idle)
  show ?thesis by (rule semaphore_conserves_permits [OF run]) simp
qed

text \<open>
  C9. The wake-up of \<open>Semaphore::post\<close> is lost when two posts come before a woken waiter
  runs: \<open>post\<close> signals only when the count was zero, and \<open>wait\<close> does not pass the
  signal on. From a semaphore with no permits, two waits, two posts and the return of one
  waiter lead to a state with a permit left and a thread asleep that nobody will wake.
\<close>

theorem semaphore_loses_wakeup:
  "\<exists>es m. sem_run 0 es m \<and> 0 < permits m \<and> 0 < n_asleep m \<and> n_awake m = 0"
proof -
  have s1: "sem_run 0 [] (idle_monitor [1] [] \<lparr>count = 0, sem_waiting = 1\<rparr>)"
    using sem_run.waited [OF sem_run.created, of 0 1 False
        "idle_monitor [1] [] \<lparr>count = 0, sem_waiting = 1\<rparr>"]
    by (simp add: new_semaphore_def lock_simps sem_idle)
  have s2: "sem_run 0 [] (idle_monitor [1, 2] [] \<lparr>count = 0, sem_waiting = 2\<rparr>)"
    using sem_run.waited [OF s1, of 2 False "idle_monitor [1, 2] [] \<lparr>count = 0, sem_waiting = 2\<rparr>"]
    by (simp add: lock_simps sem_idle numeral_2_eq_2)
  have s3: "sem_run 0 [Posted] (idle_monitor [2] [1] \<lparr>count = 1, sem_waiting = 2\<rparr>)"
    using sem_run.posted [OF s2, of 3 0 "idle_monitor [2] [1] \<lparr>count = 1, sem_waiting = 2\<rparr>"]
    by (simp add: lock_simps sem_idle wake_one_def remove_nth_def)
  have s4: "sem_run 0 [Posted, Posted] (idle_monitor [2] [1] \<lparr>count = 2, sem_waiting = 2\<rparr>)"
    using sem_run.posted [OF s3, of 3 0 "idle_monitor [2] [1] \<lparr>count = 2, sem_waiting = 2\<rparr>"]
    by (simp add: lock_simps sem_idle)
  have s5: "sem_run 0 [Posted, Posted, Acquired] (idle_monitor [2] [] \<lparr>count = 1, sem_waiting = 1\<rparr>)"
    using sem_run.resumed [OF s4, of 1 True "idle_monitor [2] [] \<lparr>count = 1, sem_waiting = 1\<rparr>"]
    by (simp add: lock_simps sem_idle)
  then show ?thesis
    by (intro exI conjI) (assumption, simp_all add: permits_def lock_simps)
qed

section \<open>SyncVar\<close>

text \<open>The field \<open>value\<close> is not initialised by the constructor: \<open>None\<close>.\<close>

record 'a sync_var =
  sv_waiting :: int
  sv_init :: bool
  sv_value :: "'a option"

definition new_sync_var :: "'a sync_var monitor" where
  "new_sync_var = new_monitor \<lparr>sv_waiting = 0, sv_init = False, sv_value = None\<rparr>"

definition sync_var_write :: "nat \<Rightarrow> thread \<Rightarrow> 'a \<Rightarrow> 'a sync_var monitor \<Rightarrow> 'a sync_var monitor flow" where
  "sync_var_write pick t value m = bind_flow (enter t m) (\<lambda>m.
     let d = m_data m;
         m = (if \<not> sv_init d then m\<lparr>m_data := d\<lparr>sv_value := Some value, sv_init := True\<rparr>\<rparr> else m)
     in bind_flow (if sv_waiting d \<noteq> 0 then msignal pick t m else Done m) (leave t))"

text \<open>
  \<open>read\<close> gets its \<open>result\<close> by reference: the value the caller's variable holds before
  is an argument, the one it holds after is the result (\<open>None\<close> while the thread
  sleeps). The code never assigns it.
\<close>

definition sync_var_read_loop ::
    "nat \<Rightarrow> thread \<Rightarrow> 'a \<Rightarrow> 'a sync_var monitor \<Rightarrow> ('a option \<times> 'a sync_var monitor) flow" where
  "sync_var_read_loop pick t result m =
     (let d = m_data m
      in if \<not> sv_init d then map_flow_value (Pair None) (mwait t m)
         else let d = d\<lparr>sv_waiting := sv_waiting d - 1\<rparr>; m = m\<lparr>m_data := d\<rparr>
              in map_flow_value (Pair (Some result))
                   (bind_flow (if sv_waiting d \<noteq> 0 then msignal pick t m else Done m) (leave t)))"

definition sync_var_read ::
    "nat \<Rightarrow> thread \<Rightarrow> 'a \<Rightarrow> 'a sync_var monitor \<Rightarrow> ('a option \<times> 'a sync_var monitor) flow" where
  "sync_var_read pick t result m = bind_flow (enter t m) (\<lambda>m.
     let d = m_data m
     in sync_var_read_loop pick t result (m\<lparr>m_data := d\<lparr>sv_waiting := sv_waiting d + 1\<rparr>\<rparr>))"

definition sync_var_read_resume ::
    "nat \<Rightarrow> thread \<Rightarrow> 'a \<Rightarrow> 'a sync_var monitor \<Rightarrow> ('a option \<times> 'a sync_var monitor) flow" where
  "sync_var_read_resume pick t result m =
     bind_flow (mreturn t m) (sync_var_read_loop pick t result)"

definition sync_var_try_read ::
    "thread \<Rightarrow> 'a \<Rightarrow> 'a sync_var monitor \<Rightarrow> (bool \<times> 'a option \<times> 'a sync_var monitor) flow" where
  "sync_var_try_read t result m = bind_flow (enter t m) (\<lambda>m.
     let d = m_data m; success = sv_init d
     in map_flow_value (\<lambda>m. (success, if success then sv_value d else Some result, m)) (leave t m))"

inductive sync_var_step :: "'a sync_var monitor \<Rightarrow> 'a sync_var monitor \<Rightarrow> bool" where
  sv_write: "\<not> blocked_in m t \<Longrightarrow> sync_var_write p t v m = Done m' \<Longrightarrow> sync_var_step m m'"
| sv_read: "\<not> blocked_in m t \<Longrightarrow> sync_var_read p t v m = Done (r, m') \<Longrightarrow> sync_var_step m m'"
| sv_resume: "sync_var_read_resume p t v m = Done (r, m') \<Longrightarrow> sync_var_step m m'"
| sv_try_read: "\<not> blocked_in m t \<Longrightarrow> sync_var_try_read t v m = Done (b, r, m') \<Longrightarrow> sync_var_step m m'"
| sv_spurious: "sync_var_step m (mspurious t m)"

definition sync_var_shape :: "'a sync_var monitor \<Rightarrow> bool" where
  "sync_var_shape m \<longleftrightarrow>
     (\<exists>S W. m = idle_monitor S W (m_data m) \<and> sv_waiting (m_data m) = int (length S + length W))"

lemma sync_var_shape_idle [lock_simps]:
  "sync_var_shape (idle_monitor S W d) \<longleftrightarrow> sv_waiting d = int (length S + length W)"
  by (auto simp: sync_var_shape_def lock_simps)

lemma sync_var_shapeE:
  assumes "sync_var_shape m"
  obtains S W i v where "m = idle_monitor S W \<lparr>sv_waiting = int (length S + length W), sv_init = i, sv_value = v\<rparr>"
  using assms unfolding sync_var_shape_def by (metis (full_types) sync_var.surjective unit.exhaust)

lemma sync_var_idle:
  "sync_var_write p t x (idle_monitor S W \<lparr>sv_waiting = k, sv_init = i, sv_value = v\<rparr>) =
     Done (case if k \<noteq> 0 then wake_one p S W else (S, W) of
             (S', W') \<Rightarrow> idle_monitor S' W'
                \<lparr>sv_waiting = k, sv_init = True, sv_value = if i then v else Some x\<rparr>)"
  "sync_var_read p t x (idle_monitor S W \<lparr>sv_waiting = k, sv_init = i, sv_value = v\<rparr>) =
     Done (if i then (case if k \<noteq> 0 then wake_one p S W else (S, W) of
             (S', W') \<Rightarrow> (Some x, idle_monitor S' W' \<lparr>sv_waiting = k, sv_init = i, sv_value = v\<rparr>))
           else (None, idle_monitor (S @ [t]) W \<lparr>sv_waiting = k + 1, sv_init = i, sv_value = v\<rparr>))"
  "sync_var_read_resume p t x (idle_monitor S W \<lparr>sv_waiting = k, sv_init = i, sv_value = v\<rparr>) =
     (if t \<in> set W then
        Done (if i then (case if k - 1 \<noteq> 0 then wake_one p S (remove1 t W) else (S, remove1 t W) of
                (S', W') \<Rightarrow> (Some x, idle_monitor S' W' \<lparr>sv_waiting = k - 1, sv_init = i, sv_value = v\<rparr>))
              else (None, idle_monitor (S @ [t]) (remove1 t W) \<lparr>sv_waiting = k, sv_init = i, sv_value = v\<rparr>))
      else Block)"
  "sync_var_try_read t x (idle_monitor S W \<lparr>sv_waiting = k, sv_init = i, sv_value = v\<rparr>) =
     Done (i, if i then v else Some x, idle_monitor S W \<lparr>sv_waiting = k, sv_init = i, sv_value = v\<rparr>)"
  by (simp_all add: sync_var_write_def sync_var_read_def sync_var_read_resume_def
      sync_var_read_loop_def sync_var_try_read_def lock_simps Let_def split: prod.split)


lemma sync_var_step_shape: "sync_var_step m m' \<Longrightarrow> sync_var_shape m \<Longrightarrow> sync_var_shape m'"
  by (erule sync_var_step.cases; erule sync_var_shapeE)
    (auto simp: sync_var_idle lock_simps split: if_splits prod.splits
      dest!: wake_one_length length_remove1_mem)

definition sync_var_available :: "'a sync_var monitor \<Rightarrow> nat" where
  "sync_var_available m = (if sv_init (m_data m) then 1 else 0)"

lemma wake_one_none: "wake_one p S W = ([], W') \<Longrightarrow> S = [] \<and> W' = W \<or> W' \<noteq> []"
  by (auto simp: wake_one_def Let_def split: if_splits)

lemma wake_one_some_awake: "wake_one p S W = (S', W') \<Longrightarrow> S' = [] \<or> W' \<noteq> []"
  by (auto simp: wake_one_def Let_def split: if_splits)

lemma sync_var_step_awake:
  assumes "sync_var_step m m'" and shape: "sync_var_shape m"
    and "n_asleep m = 0 \<or> sync_var_available m \<le> n_awake m"
  shows "n_asleep m' = 0 \<or> sync_var_available m' \<le> n_awake m'"
proof -
  from shape obtain S W i v where
    m: "m = idle_monitor S W \<lparr>sv_waiting = int (length S + length W), sv_init = i, sv_value = v\<rparr>"
    by (rule sync_var_shapeE)
  from assms(1) show ?thesis
  proof cases
    case (sv_write t p x)
    then show ?thesis unfolding m
      by (auto simp: sync_var_idle lock_simps sync_var_available_def Suc_le_eq
          split: if_splits prod.splits dest!: wake_one_some_awake)
  next
    case (sv_read t p x r)
    then show ?thesis unfolding m
      by (auto simp: sync_var_idle lock_simps sync_var_available_def Suc_le_eq
          split: if_splits prod.splits dest!: wake_one_some_awake)
  next
    case (sv_resume p t x r)
    then show ?thesis unfolding m
      by (auto simp: sync_var_idle lock_simps sync_var_available_def Suc_le_eq
          split: if_splits prod.splits dest!: wake_one_some_awake length_remove1_mem)
  next
    case (sv_try_read t x b r)
    with assms(3) show ?thesis unfolding m
      by (auto simp: sync_var_idle lock_simps sync_var_available_def)
  next
    case (sv_spurious t)
    with assms(3) show ?thesis unfolding m
      by (auto simp: sync_var_idle lock_simps sync_var_available_def split: if_splits)
  qed
qed

interpretation sv: wakeup_contract "\<lambda>m. m = new_sync_var" sync_var_step sync_var_shape
  sync_var_available n_asleep n_awake
  by unfold_locales
    (auto simp: new_sync_var_def lock_simps sync_var_step_shape dest: sync_var_step_awake)

text \<open>
  C10. No wake-up of a \<open>SyncVar\<close> is lost: whenever it has a value and a reader still
  sleeps, another reader is awake and will pass the signal on.
\<close>

theorem sync_var_no_lost_wakeup:
  assumes "reach (\<lambda>m. m = new_sync_var) sync_var_step m"
    and "sv_init (m_data m)" and "0 < n_asleep m"
  shows "0 < n_awake m"
  using assms by (intro sv.no_lost_wakeup) (simp_all add: sync_var_available_def)

theorem sync_var_no_lost_wakeup_witness:
  "0 < n_awake (idle_monitor [2] [1] \<lparr>sv_waiting = 2, sv_init = True, sv_value = Some True\<rparr>)"
proof (rule sync_var_no_lost_wakeup)
  let ?R = "reach (\<lambda>m. m = new_sync_var) sync_var_step"
  have "?R (idle_monitor [] [] \<lparr>sv_waiting = 0, sv_init = False, sv_value = None :: bool option\<rparr>)"
    by (rule reach_init) (simp add: new_sync_var_def lock_simps)
  then have "?R (idle_monitor [1] [] \<lparr>sv_waiting = 1, sv_init = False, sv_value = None :: bool option\<rparr>)"
    by (rule reach_step) (rule sv_read [where t = 1 and v = True], auto simp: sync_var_idle lock_simps)
  then have "?R (idle_monitor [1, 2] [] \<lparr>sv_waiting = 2, sv_init = False, sv_value = None :: bool option\<rparr>)"
    by (rule reach_step)
      (rule sv_read [where t = 2 and v = True], auto simp: sync_var_idle lock_simps numeral_2_eq_2)
  then show "?R (idle_monitor [2] [1] \<lparr>sv_waiting = 2, sv_init = True, sv_value = Some True\<rparr>)"
    by (rule reach_step)
      (rule sv_write [where t = 3 and v = True and p = 0],
       auto simp: sync_var_idle lock_simps wake_one_def remove_nth_def)
qed (simp_all add: lock_simps)

text \<open>
  A \<open>SyncVar\<close> is written once: whatever happens after it has a value, the value
  stays.
\<close>

theorem sync_var_write_once:
  assumes "reach (\<lambda>m. m = new_sync_var) sync_var_step m"
    and "sync_var_step m m'" and "sv_init (m_data m)"
  shows "sv_init (m_data m') \<and> sv_value (m_data m') = sv_value (m_data m)"
  using assms(2,3) sv.reach_inv [OF assms(1)]
  by (elim sync_var_step.cases; elim sync_var_shapeE)
    (auto simp: sync_var_idle lock_simps split: if_splits prod.splits)

theorem sync_var_write_once_witness:
  "sv_value (m_data (idle_monitor [] []
     \<lparr>sv_waiting = 0, sv_init = True, sv_value = Some (5 :: nat)\<rparr>)) = Some 5"
proof -
  let ?m = "idle_monitor [] [] \<lparr>sv_waiting = 0, sv_init = True, sv_value = Some (5 :: nat)\<rparr>"
  have reached: "reach (\<lambda>m. m = new_sync_var) sync_var_step ?m"
    by (rule reach_step [OF reach_init], rule refl, rule sv_write [where t = 1 and v = 5 and p = 0])
      (simp_all add: new_sync_var_def lock_simps sync_var_idle)
  have "sync_var_step ?m ?m"
    by (rule sv_write [where t = 2 and v = 9 and p = 0]) (simp_all add: lock_simps sync_var_idle)
  from sync_var_write_once [OF reached this] show ?thesis by (simp add: lock_simps)
qed

text \<open>
  \<open>SyncVar::read\<close> never delivers the value: when it returns, the caller's variable
  holds what it held before the call, whatever the variable was written with;
  \<open>try_read\<close>, by contrast, delivers it.
\<close>

theorem sync_var_read_delivers_nothing:
  assumes "reach (\<lambda>m. m = new_sync_var) sync_var_step m" and "sv_init (m_data m)"
  shows "\<exists>m'. sync_var_read p t x m = Done (Some x, m') \<and>
    (\<exists>m''. sync_var_try_read t x m = Done (True, sv_value (m_data m), m''))"
  using assms(2) sv.reach_inv [OF assms(1)]
  by (elim sync_var_shapeE) (auto simp: sync_var_idle lock_simps split: prod.split)

theorem sync_var_read_delivers_nothing_witness:
  "\<exists>m'. sync_var_read 0 2 (77 :: nat)
      (idle_monitor [] [] \<lparr>sv_waiting = 0, sv_init = True, sv_value = Some 5\<rparr>) = Done (Some 77, m')"
proof -
  let ?m = "idle_monitor [] [] \<lparr>sv_waiting = 0, sv_init = True, sv_value = Some (5 :: nat)\<rparr>"
  have reached: "reach (\<lambda>m. m = new_sync_var) sync_var_step ?m"
    by (rule reach_step [OF reach_init], rule refl, rule sv_write [where t = 1 and v = 5 and p = 0])
      (simp_all add: new_sync_var_def lock_simps sync_var_idle)
  then show ?thesis
    using sync_var_read_delivers_nothing [OF reached, of 0 2 77] by (auto simp: lock_simps)
qed

section \<open>Channel\<close>

text \<open>
  The template \<open>Channel\<close> of channel.h. Its \<open>receive\<close> assigns the result of
  \<open>std::queue::pop\<close>, which is \<open>void\<close>, so it cannot be instantiated; only the
  constructor and \<open>send\<close> are modelled.
\<close>

record 'a kernel_channel =
  ch_waiting :: nat
  ch_q :: "'a list"

definition new_kernel_channel :: "'a kernel_channel monitor" where
  "new_kernel_channel = new_monitor \<lparr>ch_waiting = 0, ch_q = []\<rparr>"

definition kernel_channel_send ::
    "nat \<Rightarrow> thread \<Rightarrow> 'a \<Rightarrow> 'a kernel_channel monitor \<Rightarrow> 'a kernel_channel monitor flow" where
  "kernel_channel_send pick t value m = bind_flow (enter t m) (\<lambda>m.
     let d = m_data m; m = m\<lparr>m_data := d\<lparr>ch_q := ch_q d @ [value]\<rparr>\<rparr>
     in bind_flow (if ch_waiting d \<noteq> 0 then msignal pick t m else Done m) (leave t))"

end
