(* ===== verification/Shared_Sync.thy ===== *)
theory Shared_Sync
  imports Monitors
begin

text \<open>
  The blocking shared objects of the interpreter, shared.cc: \<open>SingularChannel\<close>, a
  queue of encoded values, and \<open>SingularSyncVar\<close>, a variable that is written once and
  may then be updated.
\<close>

section \<open>SingularChannel\<close>

type_synonym channel = "bytes list monitor"

definition new_channel :: channel where
  "new_channel = new_monitor []"

definition channel_send :: "nat \<Rightarrow> thread \<Rightarrow> bytes \<Rightarrow> channel \<Rightarrow> channel flow" where
  "channel_send pick t item m = bind_flow (enter t m) (\<lambda>m.
     bind_flow (msignal pick t (m\<lparr>m_data := m_data m @ [item]\<rparr>)) (leave t))"

text \<open>
  The loop of \<open>receive\<close> with the lock held: \<open>None\<close> when the thread goes to sleep.
\<close>

definition channel_receive_loop :: "nat \<Rightarrow> thread \<Rightarrow> channel \<Rightarrow> (bytes option \<times> channel) flow" where
  "channel_receive_loop pick t m =
     (case m_data m of
        [] \<Rightarrow> map_flow_value (Pair None) (mwait t m)
      | result # q \<Rightarrow>
          let m = m\<lparr>m_data := q\<rparr>
          in map_flow_value (Pair (Some result))
               (bind_flow (if q \<noteq> [] then msignal pick t m else Done m) (leave t)))"

definition channel_receive :: "nat \<Rightarrow> thread \<Rightarrow> channel \<Rightarrow> (bytes option \<times> channel) flow" where
  "channel_receive pick t m = bind_flow (enter t m) (channel_receive_loop pick t)"

definition channel_receive_resume :: "nat \<Rightarrow> thread \<Rightarrow> channel \<Rightarrow> (bytes option \<times> channel) flow" where
  "channel_receive_resume pick t m = bind_flow (mreturn t m) (channel_receive_loop pick t)"

definition channel_count :: "thread \<Rightarrow> channel \<Rightarrow> (int \<times> channel) flow" where
  "channel_count t m = bind_flow (enter t m) (\<lambda>m.
     map_flow_value (Pair (int (length (m_data m)))) (leave t m))"

text \<open>What the operations do to a channel that nobody holds.\<close>

lemma channel_idle:
  "channel_send p t x (idle_monitor S W q) =
     Done (case wake_one p S W of (S', W') \<Rightarrow> idle_monitor S' W' (q @ [x]))"
  "channel_receive p t (idle_monitor S W q) =
     Done (case q of [] \<Rightarrow> (None, idle_monitor (S @ [t]) W [])
           | x # q \<Rightarrow> (case if q \<noteq> [] then wake_one p S W else (S, W) of
               (S', W') \<Rightarrow> (Some x, idle_monitor S' W' q)))"
  "channel_receive_resume p t (idle_monitor S W q) =
     (if t \<in> set W then
        Done (case q of [] \<Rightarrow> (None, idle_monitor (S @ [t]) (remove1 t W) [])
              | x # q \<Rightarrow> (case if q \<noteq> [] then wake_one p S (remove1 t W) else (S, remove1 t W) of
                  (S', W') \<Rightarrow> (Some x, idle_monitor S' W' q)))
      else Block)"
  "channel_count t (idle_monitor S W q) = Done (int (length q), idle_monitor S W q)"
  by (simp_all add: channel_send_def channel_receive_def channel_receive_resume_def
      channel_receive_loop_def channel_count_def lock_simps Let_def
      split: list.split prod.split)

subsection \<open>Runs\<close>

datatype channel_event = Sent bytes | Received bytes

fun sent :: "channel_event list \<Rightarrow> bytes list" where
  "sent [] = []"
| "sent (Sent x # es) = x # sent es"
| "sent (Received x # es) = sent es"

fun received :: "channel_event list \<Rightarrow> bytes list" where
  "received [] = []"
| "received (Sent x # es) = received es"
| "received (Received x # es) = x # received es"

definition event_of :: "bytes option \<Rightarrow> channel_event list" where
  "event_of r = (case r of None \<Rightarrow> [] | Some x \<Rightarrow> [Received x])"

lemma sent_append: "sent (es @ fs) = sent es @ sent fs"
  by (induction es rule: sent.induct) auto

lemma received_append: "received (es @ fs) = received es @ received fs"
  by (induction es rule: received.induct) auto

lemma event_of_simps:
  "event_of None = []" "event_of (Some x) = [Received x]"
  by (simp_all add: event_of_def)

inductive channel_step :: "channel \<Rightarrow> channel_event list \<Rightarrow> channel \<Rightarrow> bool" where
  ch_send: "\<not> blocked_in m t \<Longrightarrow> channel_send p t x m = Done m' \<Longrightarrow> channel_step m [Sent x] m'"
| ch_receive: "\<not> blocked_in m t \<Longrightarrow> channel_receive p t m = Done (r, m') \<Longrightarrow>
    channel_step m (event_of r) m'"
| ch_resume: "channel_receive_resume p t m = Done (r, m') \<Longrightarrow> channel_step m (event_of r) m'"
| ch_count: "\<not> blocked_in m t \<Longrightarrow> channel_count t m = Done (n, m') \<Longrightarrow> channel_step m [] m'"
| ch_spurious: "channel_step m [] (mspurious t m)"

text \<open>
  A run keeps the events in their order; the state of the run is the channel with them.
\<close>

definition channel_run_step ::
    "channel_event list \<times> channel \<Rightarrow> channel_event list \<times> channel \<Rightarrow> bool" where
  "channel_run_step s s' \<longleftrightarrow>
     (\<exists>es. channel_step (snd s) es (snd s') \<and> fst s' = fst s @ es)"

definition channel_run :: "channel_event list \<Rightarrow> channel \<Rightarrow> bool" where
  "channel_run es m \<longleftrightarrow> reach (\<lambda>s. s = ([], new_channel)) channel_run_step (es, m)"

definition channel_shape :: "channel \<Rightarrow> bool" where
  "channel_shape m \<longleftrightarrow> (\<exists>S W. m = idle_monitor S W (m_data m))"

lemma channel_shape_idle [lock_simps]: "channel_shape (idle_monitor S W q)"
  by (auto simp: channel_shape_def lock_simps)

definition channel_inv :: "channel_event list \<times> channel \<Rightarrow> bool" where
  "channel_inv s \<longleftrightarrow> channel_shape (snd s) \<and> sent (fst s) = received (fst s) @ m_data (snd s)"

lemma channel_step_effect:
  assumes "channel_step m es m'" and "channel_shape m"
  shows "channel_shape m' \<and> m_data m @ sent es = received es @ m_data m'"
proof -
  from assms(2) obtain S W q where m: "m = idle_monitor S W q"
    by (auto simp: channel_shape_def)
  from assms(1) show ?thesis
    by cases
      (auto simp: m channel_idle lock_simps event_of_simps split: list.splits if_splits prod.splits)
qed

lemma channel_step_awake:
  assumes "channel_step m es m'" and "channel_shape m"
    and "n_asleep m = 0 \<or> length (m_data m) \<le> n_awake m"
  shows "n_asleep m' = 0 \<or> length (m_data m') \<le> n_awake m'"
proof -
  from assms(2) obtain S W q where m: "m = idle_monitor S W q"
    by (auto simp: channel_shape_def)
  from assms(1) show ?thesis
  proof cases
    case (ch_send t p x)
    with assms(3) show ?thesis unfolding m
      by (auto simp: channel_idle lock_simps split: prod.splits dest!: wake_one_awake)
  next
    case (ch_receive t p r)
    with assms(3) show ?thesis unfolding m
      by (auto simp: channel_idle lock_simps split: prod.splits list.splits if_splits
          dest!: wake_one_awake)
  next
    case (ch_resume p t r)
    with assms(3) show ?thesis unfolding m
      by (auto simp: channel_idle lock_simps split: prod.splits list.splits if_splits
          dest!: wake_one_awake length_remove1_mem)
  next
    case (ch_count t n)
    with assms(3) show ?thesis unfolding m by (auto simp: channel_idle lock_simps)
  next
    case (ch_spurious t)
    with assms(3) show ?thesis unfolding m
      by (auto simp: lock_simps split: if_splits)
  qed
qed

interpretation ch: wakeup_contract "\<lambda>s. s = ([], new_channel)" channel_run_step channel_inv
  "\<lambda>s. length (m_data (snd s))" "\<lambda>s. n_asleep (snd s)" "\<lambda>s. n_awake (snd s)"
proof (unfold_locales, goal_cases)
  case (1 s)
  then show ?case by (simp add: channel_inv_def new_channel_def lock_simps)
next
  case (2 s)
  then show ?case by (simp add: new_channel_def lock_simps)
next
  case (3 s s')
  then show ?case
    by (auto simp: channel_inv_def channel_run_step_def sent_append received_append
        dest: channel_step_effect)
next
  case (4 s s')
  then show ?case
    by (auto simp: channel_inv_def channel_run_step_def simp del: length_0_conv
        dest: channel_step_awake)
qed

text \<open>
  C11. A channel is a queue: in every interleaving of senders and receivers, what was
  received, followed by what is still in the channel, is what was sent, in order and
  without loss or duplication.
\<close>

theorem channel_fifo:
  assumes "channel_run es m"
  shows "sent es = received es @ m_data m"
  using ch.reach_inv [of "(es, m)"] assms by (simp add: channel_run_def channel_inv_def)

text \<open>
  C12. No wake-up of a channel is lost: when a message is in the channel while receivers
  sleep, a woken receiver is on its way, and when it runs it gets the oldest message.
\<close>

theorem channel_no_lost_wakeup:
  assumes "channel_run es m" and "m_data m = x # q" and "0 < n_asleep m"
  shows "\<exists>t m'. blocked_in m t \<and> channel_receive_resume p t m = Done (Some x, m')"
proof -
  have run: "reach (\<lambda>s. s = ([], new_channel)) channel_run_step (es, m)"
    using assms(1) by (simp add: channel_run_def)
  from ch.reach_inv [OF this] obtain S W where m: "m = idle_monitor S W (x # q)"
    using assms(2) by (auto simp: channel_inv_def channel_shape_def)
  have "0 < n_awake m"
    using ch.no_lost_wakeup [OF run] assms(2,3) by simp
  then obtain t where "t \<in> set W" by (cases W) (auto simp: m lock_simps)
  then show ?thesis
    by (intro exI [of _ t]) (auto simp: m channel_idle lock_simps split: prod.splits)
qed


text \<open>
  An example run: a receiver sleeps, another one sleeps, a message arrives and wakes the
  first.
\<close>

lemma channel_example:
  "channel_run [Sent [1]] (idle_monitor [6] [5] [[1]])"
proof -
  have "channel_run_step ([], new_channel) ([], idle_monitor [5] [] [])"
    using ch_receive [of "idle_monitor [] [] []" 5 0 None "idle_monitor [5] [] []"]
    by (simp add: channel_run_step_def new_channel_def channel_idle lock_simps event_of_simps)
  moreover have "channel_run_step ([], idle_monitor [5] [] []) ([], idle_monitor [5, 6] [] [])"
    using ch_receive [of "idle_monitor [5] [] []" 6 0 None "idle_monitor [5, 6] [] []"]
    by (simp add: channel_run_step_def channel_idle lock_simps event_of_simps)
  moreover have "channel_run_step ([], idle_monitor [5, 6] [] [])
      ([Sent [1]], idle_monitor [6] [5] [[1]])"
    using ch_send [of "idle_monitor [5, 6] [] []" 7 0 "[1]" "idle_monitor [6] [5] [[1]]"]
    by (simp add: channel_run_step_def channel_idle lock_simps wake_one_def remove_nth_def)
  moreover have "reach (\<lambda>s. s = ([], new_channel)) channel_run_step ([], new_channel)"
    by (rule reach_init) simp
  ultimately show ?thesis
    unfolding channel_run_def by (meson reach_step)
qed

theorem channel_fifo_witness: "sent [Sent [1]] = received [Sent [1]] @ [[1]]"
  using channel_fifo [OF channel_example] by (simp add: lock_simps)

theorem channel_no_lost_wakeup_witness:
  "\<exists>t m'. blocked_in (idle_monitor [6] [5] [[1]]) t \<and>
     channel_receive_resume 0 t (idle_monitor [6] [5] [[1]]) = Done (Some [1], m')"
  using channel_no_lost_wakeup [OF channel_example] by (simp add: lock_simps)

section \<open>SingularSyncVar\<close>

text \<open>\<open>value\<close> is the encoded value, the empty string before the first write.\<close>

record syncvar =
  value_of :: bytes
  init :: bool

definition new_syncvar :: "syncvar monitor" where
  "new_syncvar = new_monitor \<lparr>value_of = [], init = False\<rparr>"

definition syncvar_write :: "thread \<Rightarrow> bytes \<Rightarrow> syncvar monitor \<Rightarrow> (bool \<times> syncvar monitor) flow" where
  "syncvar_write t item m = bind_flow (enter t m) (\<lambda>m.
     if \<not> init (m_data m) then
       bind_flow (mbroadcast t (m\<lparr>m_data := \<lparr>value_of = item, init = True\<rparr>\<rparr>)) (\<lambda>m.
         map_flow_value (Pair True) (leave t m))
     else map_flow_value (Pair False) (leave t m))"

definition syncvar_read_loop :: "thread \<Rightarrow> syncvar monitor \<Rightarrow> (bytes option \<times> syncvar monitor) flow" where
  "syncvar_read_loop t m =
     (if \<not> init (m_data m) then map_flow_value (Pair None) (mwait t m)
      else map_flow_value (Pair (Some (value_of (m_data m)))) (leave t m))"

definition syncvar_read :: "thread \<Rightarrow> syncvar monitor \<Rightarrow> (bytes option \<times> syncvar monitor) flow" where
  "syncvar_read t m = bind_flow (enter t m) (syncvar_read_loop t)"

definition syncvar_read_resume :: "thread \<Rightarrow> syncvar monitor \<Rightarrow> (bytes option \<times> syncvar monitor) flow" where
  "syncvar_read_resume t m = bind_flow (mreturn t m) (syncvar_read_loop t)"

definition syncvar_check :: "thread \<Rightarrow> syncvar monitor \<Rightarrow> (bool \<times> syncvar monitor) flow" where
  "syncvar_check t m = bind_flow (enter t m) (\<lambda>m.
     map_flow_value (Pair (init (m_data m))) (leave t m))"

definition syncvar_acquire :: "thread \<Rightarrow> syncvar monitor \<Rightarrow> syncvar monitor flow" where
  "syncvar_acquire t m = enter t m"

definition syncvar_release :: "thread \<Rightarrow> syncvar monitor \<Rightarrow> syncvar monitor flow" where
  "syncvar_release t m = leave t m"

text \<open>
  \<open>wait_init\<close>, called with the lock held: \<open>True\<close> when the variable has a value, the
  thread then still holds the lock; \<open>False\<close> when the thread goes to sleep.
\<close>

definition syncvar_wait_init :: "thread \<Rightarrow> syncvar monitor \<Rightarrow> (bool \<times> syncvar monitor) flow" where
  "syncvar_wait_init t m =
     (if \<not> init (m_data m) then map_flow_value (Pair False) (mwait t m) else Done (True, m))"

definition syncvar_wait_init_resume ::
    "thread \<Rightarrow> syncvar monitor \<Rightarrow> (bool \<times> syncvar monitor) flow" where
  "syncvar_wait_init_resume t m = bind_flow (mreturn t m) (syncvar_wait_init t)"

text \<open>\<open>update\<close>, called with the lock held, on the encoding of the new value.\<close>

definition syncvar_update :: "thread \<Rightarrow> bytes \<Rightarrow> syncvar monitor \<Rightarrow> syncvar monitor flow" where
  "syncvar_update t item m = mbroadcast t (m\<lparr>m_data := \<lparr>value_of = item, init = True\<rparr>\<rparr>)"

lemma syncvar_idle:
  "syncvar_write t x (idle_monitor S W d) =
     Done (if init d then (False, idle_monitor S W d)
           else (True, idle_monitor [] (W @ S) \<lparr>value_of = x, init = True\<rparr>))"
  "syncvar_read t (idle_monitor S W d) =
     Done (if init d then (Some (value_of d), idle_monitor S W d)
           else (None, idle_monitor (S @ [t]) W d))"
  "syncvar_read_resume t (idle_monitor S W d) =
     (if t \<in> set W then
        Done (if init d then (Some (value_of d), idle_monitor S (remove1 t W) d)
              else (None, idle_monitor (S @ [t]) (remove1 t W) d))
      else Block)"
  "syncvar_check t (idle_monitor S W d) = Done (init d, idle_monitor S W d)"
  "syncvar_acquire t (idle_monitor S W d) = Done (held_monitor t S W d)"
  "syncvar_release t (held_monitor t S W d) = Done (idle_monitor S W d)"
  "syncvar_wait_init t (held_monitor t S W d) =
     Done (if init d then (True, held_monitor t S W d) else (False, idle_monitor (S @ [t]) W d))"
  "syncvar_wait_init_resume t (idle_monitor S W d) =
     (if t \<in> set W then
        Done (if init d then (True, held_monitor t S (remove1 t W) d)
              else (False, idle_monitor (S @ [t]) (remove1 t W) d))
      else Block)"
  "syncvar_update t x (held_monitor t S W d) =
     Done (held_monitor t [] (W @ S) \<lparr>value_of = x, init = True\<rparr>)"
  by (simp_all add: syncvar_write_def syncvar_read_def syncvar_read_resume_def
      syncvar_read_loop_def syncvar_check_def syncvar_acquire_def syncvar_release_def
      syncvar_wait_init_def syncvar_wait_init_resume_def syncvar_update_def lock_simps)

lemma syncvar_held:
  "u \<noteq> t \<Longrightarrow> syncvar_write t x (held_monitor u S W d) = Block"
  "u \<noteq> t \<Longrightarrow> syncvar_read t (held_monitor u S W d) = Block"
  "syncvar_read_resume t (held_monitor u S W d) = Block"
  "u \<noteq> t \<Longrightarrow> syncvar_check t (held_monitor u S W d) = Block"
  "u \<noteq> t \<Longrightarrow> syncvar_acquire t (held_monitor u S W d) = Block"
  "syncvar_wait_init_resume t (held_monitor u S W d) = Block"
  by (simp_all add: syncvar_write_def syncvar_read_def syncvar_read_resume_def
      syncvar_check_def syncvar_acquire_def syncvar_wait_init_resume_def lock_simps)

subsection \<open>Steps\<close>

text \<open>
  \<open>updateSyncVar\<close> is an \<open>acquire\<close> and a \<open>wait_init\<close>, the call of the user's
  procedure with the lock held, and then \<open>update\<close> (unless the procedure failed) and
  \<open>release\<close>.
\<close>

definition holds_monitor :: "thread \<Rightarrow> 'd monitor \<Rightarrow> bool" where
  "holds_monitor t m = is_locked t (m_lock m)"

lemma holds_shapes [lock_simps]:
  "\<not> holds_monitor t (idle_monitor S W d)"
  "holds_monitor t (held_monitor u S W d) \<longleftrightarrow> t = u"
  by (auto simp: holds_monitor_def is_locked_def idle_monitor_def held_monitor_def new_lock_def)

inductive syncvar_step :: "syncvar monitor \<Rightarrow> syncvar monitor \<Rightarrow> bool" where
  v_write: "\<not> blocked_in m t \<Longrightarrow> \<not> holds_monitor t m \<Longrightarrow>
    syncvar_write t x m = Done (b, m') \<Longrightarrow> syncvar_step m m'"
| v_read: "\<not> blocked_in m t \<Longrightarrow> \<not> holds_monitor t m \<Longrightarrow>
    syncvar_read t m = Done (r, m') \<Longrightarrow> syncvar_step m m'"
| v_read_resume: "syncvar_read_resume t m = Done (r, m') \<Longrightarrow> syncvar_step m m'"
| v_check: "\<not> blocked_in m t \<Longrightarrow> \<not> holds_monitor t m \<Longrightarrow>
    syncvar_check t m = Done (b, m') \<Longrightarrow> syncvar_step m m'"
| v_update_begin: "\<not> blocked_in m t \<Longrightarrow> \<not> holds_monitor t m \<Longrightarrow>
    bind_flow (syncvar_acquire t m) (syncvar_wait_init t) = Done (b, m') \<Longrightarrow> syncvar_step m m'"
| v_update_resume: "syncvar_wait_init_resume t m = Done (b, m') \<Longrightarrow> syncvar_step m m'"
| v_update_end: "holds_monitor t m \<Longrightarrow>
    bind_flow (syncvar_update t x m) (syncvar_release t) = Done m' \<Longrightarrow> syncvar_step m m'"
| v_update_fail: "holds_monitor t m \<Longrightarrow> syncvar_release t m = Done m' \<Longrightarrow> syncvar_step m m'"
| v_spurious: "syncvar_step m (mspurious t m)"

definition syncvar_inv :: "syncvar monitor \<Rightarrow> bool" where
  "syncvar_inv m \<longleftrightarrow>
     (\<exists>S W. (m = idle_monitor S W (m_data m) \<or>
            (\<exists>t. m = held_monitor t S W (m_data m) \<and> init (m_data m))) \<and>
           (init (m_data m) \<longrightarrow> S = []))"

lemma syncvar_invE:
  assumes "syncvar_inv m"
  obtains (idle) S W d where "m = idle_monitor S W d" and "init d \<longrightarrow> S = []"
  | (held) t W d where "m = held_monitor t [] W d" and "init d"
  using assms unfolding syncvar_inv_def by metis

lemma syncvar_inv_shapes [lock_simps]:
  "syncvar_inv (idle_monitor S W d) \<longleftrightarrow> (init d \<longrightarrow> S = [])"
  "syncvar_inv (held_monitor t S W d) \<longleftrightarrow> init d \<and> S = []"
  by (auto simp: syncvar_inv_def lock_simps)

lemma syncvar_step_inv:
  assumes "syncvar_step m m'" and "syncvar_inv m"
  shows "syncvar_inv m'"
  using assms(2)
proof (cases rule: syncvar_invE)
  case (idle S W d)
  with assms(1) show ?thesis
    by (auto simp: lock_simps syncvar_idle elim!: syncvar_step.cases split: if_splits)
next
  case (held t W d)
  with assms(1) show ?thesis
    by (auto simp: lock_simps syncvar_idle syncvar_held elim!: syncvar_step.cases split: if_splits)
qed

definition syncvar_available :: "syncvar monitor \<Rightarrow> nat" where
  "syncvar_available m = (if init (m_data m) then 1 else 0)"

lemma syncvar_inv_awake:
  "syncvar_inv m \<Longrightarrow> n_asleep m = 0 \<or> syncvar_available m \<le> n_awake m"
  by (erule syncvar_invE) (auto simp: lock_simps syncvar_available_def)

interpretation var: wakeup_contract "\<lambda>m. m = new_syncvar" syncvar_step syncvar_inv
  syncvar_available n_asleep n_awake
proof (unfold_locales, goal_cases)
  case (4 s s')
  then show ?case using syncvar_inv_awake [OF syncvar_step_inv] by blast
qed (simp_all add: new_syncvar_def lock_simps syncvar_step_inv)


text \<open>
  C13. \<open>writeSyncVar\<close> cannot be lost on a sleeping reader: once the variable has a value
  nobody sleeps in it, through updates by procedures that run with the lock held and
  whatever wake-ups the system adds.
\<close>

theorem syncvar_nobody_sleeps:
  assumes "reach (\<lambda>m. m = new_syncvar) syncvar_step m" and "init (m_data m)"
  shows "n_asleep m = 0 \<and> (\<forall>t m'. syncvar_read t m = Done (r, m') \<longrightarrow> r = Some (value_of (m_data m)))"
  using var.reach_inv [OF assms(1)]
proof (cases rule: syncvar_invE)
  case (idle S W d)
  with assms(2) show ?thesis by (simp add: lock_simps syncvar_idle)
next
  case (held u W d)
  have "syncvar_read t m \<noteq> Done (r, m')" for t m'
    by (cases "t = u")
      (simp_all add: held syncvar_held, simp add: syncvar_read_def enter_def held_monitor_def lock_lock_def)
  with held show ?thesis by (simp add: lock_simps)
qed

lemma syncvar_example:
  "reach (\<lambda>m. m = new_syncvar) syncvar_step (idle_monitor [] [5] \<lparr>value_of = [9], init = True\<rparr>)"
proof -
  have "reach (\<lambda>m. m = new_syncvar) syncvar_step (idle_monitor [] [] \<lparr>value_of = [], init = False\<rparr>)"
    by (rule reach_init) (simp add: new_syncvar_def lock_simps)
  moreover have "syncvar_step (idle_monitor [] [] \<lparr>value_of = [], init = False\<rparr>)
      (idle_monitor [5] [] \<lparr>value_of = [], init = False\<rparr>)"
    by (rule v_read [where t = 5 and r = None]) (simp_all add: lock_simps syncvar_idle)
  moreover have "syncvar_step (idle_monitor [5] [] \<lparr>value_of = [], init = False\<rparr>)
      (idle_monitor [] [5] \<lparr>value_of = [9], init = True\<rparr>)"
    by (rule v_write [where t = 6 and x = "[9]" and b = True]) (simp_all add: lock_simps syncvar_idle)
  ultimately show ?thesis by (meson reach_step)
qed

theorem syncvar_nobody_sleeps_witness:
  "n_asleep (idle_monitor [] [5] \<lparr>value_of = [9], init = True\<rparr>) = 0 \<and>
   fst (case syncvar_read 7 (idle_monitor [] [5] \<lparr>value_of = [9], init = True\<rparr>) of Done x \<Rightarrow> x) =
     Some [9]"
  using syncvar_nobody_sleeps [OF syncvar_example, of "Some [9]"]
  by (simp add: lock_simps syncvar_idle)

text \<open>The lock is held by the thread \<open>t\<close> that updates: what it is after, and who can step.\<close>

lemma update_holds:
  assumes "syncvar_inv m"
    and "bind_flow (syncvar_acquire t m) (syncvar_wait_init t) = Done (True, m1) \<or>
      syncvar_wait_init_resume t m = Done (True, m1)"
  obtains W d where "m1 = held_monitor t [] W d" and "init d" and "d = m_data m"
  using assms(1)
proof (cases rule: syncvar_invE)
  case (idle S W d)
  with assms(2) show thesis
    by (auto simp: lock_simps syncvar_idle split: if_splits intro: that)
next
  case (held u W d)
  then have "syncvar_wait_init_resume t m \<noteq> Done (True, m1)" by (simp add: syncvar_held)
  moreover have "bind_flow (syncvar_acquire t m) (syncvar_wait_init t) \<noteq> Done (True, m1)"
    using held by (cases "t = u")
      (simp_all add: syncvar_held, simp add: syncvar_acquire_def enter_def held_monitor_def lock_lock_def)
  ultimately show thesis using assms(2) by blast
qed

lemma held_steps:
  assumes "syncvar_step (held_monitor t [] W d) m'"
  shows "m' = held_monitor t [] W d \<or> syncvar_release t (held_monitor t [] W d) = Done m' \<or>
    (\<exists>y. bind_flow (syncvar_update t y (held_monitor t [] W d)) (syncvar_release t) = Done m')"
  using assms by cases (auto simp: lock_simps syncvar_held)

text \<open>
  C14. \<open>updateSyncVar\<close> is atomic: from the moment it has found the variable initialised,
  at once or after a sleep, until it stores the new value or gives up, no other thread reads,
  writes, checks or updates the variable: each of them has to wait, and the only steps are
  those of the updating thread. What it stores replaces the value it has found.
\<close>

theorem syncvar_update_atomic:
  assumes "syncvar_inv m"
    and "bind_flow (syncvar_acquire t m) (syncvar_wait_init t) = Done (True, m1) \<or>
      syncvar_wait_init_resume t m = Done (True, m1)"
  shows "m_data m1 = m_data m \<and> init (m_data m1) \<and>
    (\<forall>u y. u \<noteq> t \<longrightarrow> syncvar_read u m1 = Block \<and> syncvar_write u y m1 = Block \<and>
        syncvar_check u m1 = Block \<and> syncvar_acquire u m1 = Block \<and> syncvar_read_resume u m1 = Block \<and>
        syncvar_wait_init_resume u m1 = Block) \<and>
    (\<forall>m'. syncvar_step m1 m' \<longrightarrow> m' = m1 \<or> syncvar_release t m1 = Done m' \<or>
        (\<exists>y. bind_flow (syncvar_update t y m1) (syncvar_release t) = Done m')) \<and>
    (\<exists>m2. bind_flow (syncvar_update t x m1) (syncvar_release t) = Done m2 \<and>
        m_data m2 = \<lparr>value_of = x, init = True\<rparr>)"
proof -
  obtain W d where m1: "m1 = held_monitor t [] W d" "init d" "d = m_data m"
    using assms by (rule update_holds)
  have "m' = m1 \<or> syncvar_release t m1 = Done m' \<or>
      (\<exists>y. bind_flow (syncvar_update t y m1) (syncvar_release t) = Done m')" if "syncvar_step m1 m'" for m'
    using that unfolding m1(1) by (rule held_steps)
  then show ?thesis using m1 by (auto simp: lock_simps syncvar_idle syncvar_held)
qed

text \<open>The updater finds the variable initialised at once, or it has slept and was woken.\<close>

theorem syncvar_update_atomic_witness:
  "syncvar_read 8 (held_monitor 7 [] [5] \<lparr>value_of = [9], init = True\<rparr>) = Block \<and>
   syncvar_write 8 [2] (held_monitor 5 [] [] \<lparr>value_of = [9], init = True\<rparr>) = Block"
proof -
  let ?m = "idle_monitor [] [5] \<lparr>value_of = [9], init = True\<rparr>"
  have "bind_flow (syncvar_acquire 7 ?m) (syncvar_wait_init 7) =
      Done (True, held_monitor 7 [] [5] \<lparr>value_of = [9], init = True\<rparr>)"
    and "syncvar_wait_init_resume 5 ?m = Done (True, held_monitor 5 [] [] \<lparr>value_of = [9], init = True\<rparr>)"
    by (simp_all add: lock_simps syncvar_idle)
  from syncvar_update_atomic [OF _ disjI1 [OF this(1)], of "[1]"]
    syncvar_update_atomic [OF _ disjI2 [OF this(2)], of "[1]"] show ?thesis by (simp add: lock_simps)
qed

end
