(* ===== verification/Byte_Buf.thy ===== *)
theory Byte_Buf
  imports Prelude
begin

text \<open>
  bytebuf.h and bytebuf.cc: a growing byte buffer over blocks of the C++ heap. Blocks are
  lists of bytes, \<open>None\<close> for a byte never written; the pointer \<open>buf\<close> is \<open>None\<close> until
  a constructor sets it. Using an unset pointer, a freed block or a byte outside a block
  is a fault. Sizes and positions are \<open>size_t\<close>, so their sums and products wrap.
\<close>

record byte_heap =
  blocks :: "nat \<Rightarrow> byte option list option"
  next_block :: nat

record byte_buf =
  bb_count :: "64 word"
  bb_cap :: "64 word"
  bb_pos :: "64 word"
  bb_buf :: "nat option"

definition allocate_space :: "64 word \<Rightarrow> byte_heap \<Rightarrow> nat \<times> byte_heap" where
  "allocate_space n h =
     (next_block h, h\<lparr>blocks := (blocks h)(next_block h \<mapsto> replicate (unat n) None),
                      next_block := next_block h + 1\<rparr>)"

definition free_space :: "64 word \<Rightarrow> nat option \<Rightarrow> byte_heap \<Rightarrow> byte_heap flow" where
  "free_space n p h =
     (case p of
        None \<Rightarrow> Crash Uninitialized
      | Some b \<Rightarrow> (case blocks h b of
          None \<Rightarrow> Crash Use_after_free
        | Some _ \<Rightarrow> Done (h\<lparr>blocks := (blocks h)(b := None)\<rparr>)))"

text \<open>
  \<open>memcpy\<close> out of a block, and into one, at an offset from its start; an offset that
  leaves the block is a fault, also where the sum of pointer and offset would wrap.
\<close>

definition copy_out :: "nat option \<Rightarrow> 64 word \<Rightarrow> 64 word \<Rightarrow> byte_heap \<Rightarrow> byte option list flow" where
  "copy_out p off n h =
     (case p of
        None \<Rightarrow> Crash Uninitialized
      | Some b \<Rightarrow> (case blocks h b of
          None \<Rightarrow> Crash Use_after_free
        | Some bs \<Rightarrow> if unat off + unat n \<le> length bs then Done (take (unat n) (drop (unat off) bs)) else Crash Out_of_bounds))"

definition copy_in :: "nat option \<Rightarrow> 64 word \<Rightarrow> byte option list \<Rightarrow> byte_heap \<Rightarrow> byte_heap flow" where
  "copy_in p off xs h =
     (case p of
        None \<Rightarrow> Crash Uninitialized
      | Some b \<Rightarrow> (case blocks h b of
          None \<Rightarrow> Crash Use_after_free
        | Some bs \<Rightarrow>
            if unat off + length xs \<le> length bs
            then Done (h\<lparr>blocks := (blocks h)(b \<mapsto> take (unat off) bs @ xs @ drop (unat off + length xs) bs)\<rparr>)
            else Crash Out_of_bounds))"

definition new_byte_buf :: byte_buf where
  "new_byte_buf = \<lparr>bb_count = 0, bb_cap = 0, bb_pos = 0, bb_buf = None\<rparr>"

definition copy_byte_buf :: "byte_buf \<Rightarrow> byte_heap \<Rightarrow> (byte_buf \<times> byte_heap) flow" where
  "copy_byte_buf other h =
     (let (b, h) = allocate_space (bb_cap other) h
      in bind_flow (copy_out (bb_buf other) 0 (bb_count other) h) (\<lambda>xs.
         bind_flow (copy_in (Some b) 0 xs h) (\<lambda>h.
         Done (\<lparr>bb_count = bb_count other, bb_cap = bb_cap other, bb_pos = 0, bb_buf = Some b\<rparr>, h))))"

text \<open>
  \<open>operator=\<close> does the same on an existing buffer, does not free the old block, and ends
  without the \<open>return *this\<close> its type requires.
\<close>

definition assign_byte_buf :: "byte_buf \<Rightarrow> byte_buf \<Rightarrow> byte_heap \<Rightarrow> (byte_buf \<times> byte_heap) flow" where
  "assign_byte_buf this other h =
     bind_flow (copy_byte_buf other h) (\<lambda>_. Crash Missing_return)"

definition destroy_byte_buf :: "byte_buf \<Rightarrow> byte_heap \<Rightarrow> byte_heap flow" where
  "destroy_byte_buf b h = free_space (bb_cap b) (bb_buf b) h"

definition byte_buf_size :: "byte_buf \<Rightarrow> 64 word" where
  "byte_buf_size b = bb_count b"

text \<open>
  \<open>write_bytes\<close>: when the buffer is full a new block is filled and the old one freed, but
  \<open>buf\<close> is not set to the new block.
\<close>

definition write_bytes :: "byte list \<Rightarrow> byte_buf \<Rightarrow> byte_heap \<Rightarrow> (byte_buf \<times> byte_heap) flow" where
  "write_bytes p b h = (let n = word_of_nat (length p) in
     bind_flow
       (if bb_cap b \<le> bb_pos b + n then
          let (newbuf, h) = allocate_space (2 * bb_cap b) h
          in bind_flow (copy_out (bb_buf b) 0 (bb_count b) h) (\<lambda>xs.
             bind_flow (copy_in (Some newbuf) 0 xs h) (\<lambda>h.
             bind_flow (free_space (bb_cap b) (bb_buf b) h) (\<lambda>h.
             Done (b\<lparr>bb_cap := bb_cap b * 2\<rparr>, h))))
        else Done (b, h))
       (\<lambda>(b, h). bind_flow (copy_in (bb_buf b) (bb_pos b) (map Some p) h) (\<lambda>h.
          let b = b\<lparr>bb_pos := bb_pos b + n\<rparr>
          in Done (if bb_count b \<le> bb_pos b then b\<lparr>bb_count := bb_pos b\<rparr> else b, h))))"

definition read_bytes :: "64 word \<Rightarrow> byte_buf \<Rightarrow> byte_heap \<Rightarrow> (byte option list \<times> byte_buf) flow" where
  "read_bytes n b h =
     bind_flow (copy_out (bb_buf b) (bb_pos b) n h) (\<lambda>xs.
       Done (xs, b\<lparr>bb_pos := bb_pos b + n\<rparr>))"

definition seek :: "64 word \<Rightarrow> byte_buf \<Rightarrow> byte_buf" where
  "seek p b = b\<lparr>bb_pos := p\<rparr>"

text \<open>A buffer that owns a block of its capacity.\<close>

definition byte_buf_wf :: "byte_heap \<Rightarrow> byte_buf \<Rightarrow> bool" where
  "byte_buf_wf h b \<longleftrightarrow>
     (\<exists>p bs. bb_buf b = Some p \<and> blocks h p = Some bs \<and> length bs = unat (bb_cap b) \<and>
             p < next_block h) \<and> bb_count b \<le> bb_cap b"

text \<open>Sums of \<open>size_t\<close> that do not wrap.\<close>

lemma unat_sum_length:
  fixes x c :: "64 word"
  assumes "unat x + n < unat c"
  shows "unat (x + word_of_nat n) = unat x + n" and "x + word_of_nat n < c" and "unat (word_of_nat n :: 64 word) = n"
proof -
  have "unat c < 2 ^ 64" using unsigned_less [of c] by simp
  with assms show n: "unat (word_of_nat n :: 64 word) = n" by (simp add: unat_of_nat)
  with assms \<open>unat c < 2 ^ 64\<close> show sum: "unat (x + word_of_nat n) = unat x + n"
    by (simp add: unat_word_ariths)
  with assms show "x + word_of_nat n < c" by (simp add: word_less_nat_alt)
qed

lemma unat_max: "unat (max x y) = max (unat x) (unat y)" for x y :: "64 word"
  by (simp add: max_def word_le_nat_alt)

text \<open>
  C15. Within the capacity of a buffer, what is written is read back: after seeking to the
  place of a write, \<open>read_bytes\<close> returns exactly the bytes written, and the buffer still
  owns its block.
\<close>

theorem byte_buf_roundtrip:
  assumes "byte_buf_wf h b" and "unat (bb_pos b) + length p < unat (bb_cap b)"
  shows "\<exists>b' h'. write_bytes p b h = Done (b', h') \<and> byte_buf_wf h' b' \<and>
    unat (byte_buf_size b') = max (unat (bb_count b)) (unat (bb_pos b) + length p) \<and>
    read_bytes (word_of_nat (length p)) (seek (bb_pos b) b') h' = Done (map Some p, b')"
proof -
  from assms obtain q bs where buf: "bb_buf b = Some q" "blocks h q = Some bs"
      "length bs = unat (bb_cap b)" "q < next_block h" "bb_count b \<le> bb_cap b"
    unfolding byte_buf_wf_def by blast
  let ?n = "word_of_nat (length p) :: 64 word"
  let ?bs = "take (unat (bb_pos b)) bs @ map Some p @ drop (unat (bb_pos b) + length p) bs"
  let ?h = "h\<lparr>blocks := (blocks h)(q \<mapsto> ?bs)\<rparr>"
  let ?b = "b\<lparr>bb_pos := bb_pos b + ?n, bb_count := max (bb_count b) (bb_pos b + ?n)\<rparr>"
  note sum = unat_sum_length [OF assms(2)]
  have "write_bytes p b h = Done (?b, ?h)"
    using assms(2) buf sum by (auto simp: write_bytes_def copy_in_def Let_def max_def not_le)
  moreover have "byte_buf_wf ?h ?b"
    using assms(2) buf sum(2) by (auto simp: byte_buf_wf_def)
  moreover have "read_bytes ?n (seek (bb_pos b) ?b) ?h = Done (map Some p, ?b)"
    using assms(2) buf sum(3) by (simp add: read_bytes_def copy_out_def seek_def)
  ultimately show ?thesis using sum(1) by (auto simp: byte_buf_size_def unat_max)
qed

theorem byte_buf_roundtrip_witness:
  "\<exists>b' h'. write_bytes [1, 2] \<lparr>bb_count = 0, bb_cap = 4, bb_pos = 1, bb_buf = Some 0\<rparr>
      \<lparr>blocks = [0 \<mapsto> replicate 4 None], next_block = 1\<rparr> = Done (b', h') \<and>
    read_bytes 2 (seek 1 b') h' = Done ([Some 1, Some 2], b')"
proof -
  have "byte_buf_wf \<lparr>blocks = [0 \<mapsto> replicate 4 None], next_block = 1\<rparr>
      \<lparr>bb_count = 0, bb_cap = 4, bb_pos = 1, bb_buf = Some 0\<rparr>" by (simp add: byte_buf_wf_def)
  from byte_buf_roundtrip [OF this, of "[1, 2]"] show ?thesis by simp blast
qed

text \<open>
  C16. A buffer never grows: a write that does not end before the end of the block never
  succeeds. Where \<open>write_bytes\<close> notices, it uses the block it has just freed; where the sum
  of position and length wraps, so that it does not notice, it writes outside of the block.
  The first write to a default-constructed buffer already reads a pointer that was never
  set. The capacity is below half of the address space here, as that of any block is.
\<close>

theorem byte_buf_growth_faults:
  "(byte_buf_wf h b \<and> unat (bb_cap b) < 2 ^ 63 \<and> length p < 2 ^ 64 \<and> unat (bb_cap b) \<le> unat (bb_pos b) + length p \<longrightarrow>
      write_bytes p b h = Crash (if bb_cap b \<le> bb_pos b + word_of_nat (length p) then Use_after_free else Out_of_bounds)) \<and>
   write_bytes p new_byte_buf h = Crash Uninitialized"
proof (intro conjI impI)
  assume asm: "byte_buf_wf h b \<and> unat (bb_cap b) < 2 ^ 63 \<and> length p < 2 ^ 64 \<and> unat (bb_cap b) \<le> unat (bb_pos b) + length p"
  then obtain q bs where buf: "bb_buf b = Some q" "blocks h q = Some bs"
      "length bs = unat (bb_cap b)" "q < next_block h" "bb_count b \<le> bb_cap b"
    unfolding byte_buf_wf_def by blast
  let ?n = "word_of_nat (length p) :: 64 word"
  have double: "unat (2 * bb_cap b) = 2 * unat (bb_cap b)"
    using asm by (simp add: unat_word_ariths)
  have count: "unat (bb_count b) \<le> unat (bb_cap b)" using buf(5) by (simp add: word_le_nat_alt)
  have n: "unat ?n = length p" using asm by (simp add: unat_of_nat)
  show "write_bytes p b h = Crash (if bb_cap b \<le> bb_pos b + ?n then Use_after_free else Out_of_bounds)"
  proof (cases "bb_cap b \<le> bb_pos b + ?n")
    case True
    then show ?thesis using buf double count
      by (simp add: write_bytes_def allocate_space_def copy_in_def copy_out_def free_space_def)
  next
    case False
    have "unat (bb_cap b) < unat (bb_pos b) + length p"
    proof (rule ccontr)
      assume "\<not> ?thesis"
      with asm have "unat (bb_pos b) + unat ?n = unat (bb_cap b)" using n by simp
      then have "word_of_nat (unat (bb_pos b)) + word_of_nat (unat ?n) = (word_of_nat (unat (bb_cap b)) :: 64 word)"
        by (simp only: flip: of_nat_add)
      then have "bb_pos b + ?n = bb_cap b" by simp
      with False show False by simp
    qed
    with False buf show ?thesis by (simp add: write_bytes_def copy_in_def)
  qed
qed (simp add: write_bytes_def allocate_space_def copy_out_def new_byte_buf_def)

theorem byte_buf_growth_faults_witness:
  "write_bytes [7] \<lparr>bb_count = 1, bb_cap = 1, bb_pos = 1, bb_buf = Some 0\<rparr>
     \<lparr>blocks = [0 \<mapsto> [Some 3]], next_block = 1\<rparr> = Crash Use_after_free \<and>
   write_bytes [7] \<lparr>bb_count = 1, bb_cap = 1, bb_pos = - 1, bb_buf = Some 0\<rparr>
     \<lparr>blocks = [0 \<mapsto> [Some 3]], next_block = 1\<rparr> = Crash Out_of_bounds"
proof -
  let ?h = "\<lparr>blocks = [0 \<mapsto> [Some 3]], next_block = 1\<rparr>"
  let ?b = "\<lambda>p. \<lparr>bb_count = 1, bb_cap = 1, bb_pos = p, bb_buf = Some 0\<rparr>"
  have wf: "byte_buf_wf ?h (?b p)" for p by (simp add: byte_buf_wf_def)
  show ?thesis
    using byte_buf_growth_faults [of ?h "?b 1" "[7]"] byte_buf_growth_faults [of ?h "?b (- 1)" "[7]"] wf
    by (simp add: unsigned_minus_1_eq_mask mask_eq_exp_minus_1)
qed

end
