(* ===== verification/Singular_Values.thy ===== *)
theory Singular_Values
  imports Prelude
begin

text \<open>
  The values of the Singular interpreter as far as the library looks into them: the
  fields lintree.cc and shared.cc read and write. The interpreter itself, GMP and the
  numbers it gives to its types are not part of the repository; they are the parameters
  collected in the record \<open>singular\<close>.
\<close>

section \<open>Numbers, polynomials and rings\<close>

text \<open>
  A number is stored as its coefficient domain wants it: an element of $Z/p$ as a long, a
  small rational as an immediate long, a big one as numerator, denominator and state
  \<open>s\<close>, an element of an extension as one or two polynomials. \<open>Num_null\<close> is the null
  pointer.
\<close>

datatype number =
    Num_Zp "64 word"
  | Num_imm "64 word"
  | Num_big "32 word" int int
  | Num_frac "pterm list" "pterm list"
  | Num_alg "pterm list"
  | Num_null
and pterm = Term number "32 word" "32 word list"

type_synonym poly = "pterm list"

text \<open>A block of a monomial order: \<open>order\<close>, \<open>block0\<close>, \<open>block1\<close>, \<open>wvhdl\<close>.\<close>

datatype order = Order (o_kind: "32 word") (o_block0: "32 word") (o_block1: "32 word")
  (o_weights: "32 word list")

text \<open>
  A ring has an address (rings are compared by pointer), a coefficient domain, the number
  of variables, their names, the order and possibly a quotient ideal.
\<close>

datatype coeffs =
    Cf_transExt ring
  | Cf_algExt ring
  | Cf_Zp "32 word"
  | Cf_Q
  | Cf_other bytes
and ring = Ring (r_addr: nat) (r_cf: coeffs) (r_N: "32 word") (r_names: "bytes list")
  (r_order: "order list") (r_qideal: "poly list option")

section \<open>Interpreter values\<close>

text \<open>
  The C++ type \<open>leftv\<close>. A string is the contents of its buffer before the final zero
  byte; a blackbox value is its type and the pointer to the shared object (0 is NULL); a
  command is its operator, its argument count and its three argument slots; \<open>L_undef\<close> is
  a zeroed \<open>sleftv\<close>; \<open>L_other\<close> is any value of another type.
\<close>

datatype leftv =
    L_none
  | L_undef
  | L_int "64 word"
  | L_string bytes
  | L_def bytes
  | L_number number
  | L_bigint number
  | L_intmat "32 word" "32 word" "32 word list"
  | L_ring "ring option"
  | L_poly poly
  | L_ideal "poly list"
  | L_list "leftv list"
  | L_command "32 word" "32 word" leftv leftv leftv
  | L_blackbox nat "64 word"
  | L_other nat

section \<open>The interpreter as parameters\<close>

text \<open>The numbers of the types, from Singular's generated token table.\<close>

record tokens =
  t_NONE :: nat
  t_INT_CMD :: nat
  t_LIST_CMD :: nat
  t_STRING_CMD :: nat
  t_COMMAND :: nat
  t_DEF_CMD :: nat
  t_NUMBER_CMD :: nat
  t_BIGINT_CMD :: nat
  t_INTMAT_CMD :: nat
  t_RING_CMD :: nat
  t_POLY_CMD :: nat
  t_IDEAL_CMD :: nat

text \<open>
  The functions of Singular and GMP the library calls: the last used index of a list
  (\<open>lSize\<close>), evaluation of a value in place, the bytes of a big integer's magnitude and
  back, the current ring, the coefficient domain of big integers, which order kinds carry weights or are not supported, the look-up of
  a coefficient domain by name, and the constructors of rings and extension domains.
\<close>

record singular =
  tok :: tokens
  lSize :: "leftv list \<Rightarrow> int"
  Eval :: "leftv \<Rightarrow> leftv \<times> bool"
  mpz_export :: "int \<Rightarrow> bytes"
  mpz_import :: "bytes \<Rightarrow> int"
  currRing :: "ring option"
  coeffs_BIGINT :: coeffs
  weighted_order :: "32 word \<Rightarrow> bool"
  unsupported_order :: "32 word \<Rightarrow> bool"
  nFindCoeffByName :: "bytes \<Rightarrow> coeffs option"
  rDefault_ch :: "32 word \<Rightarrow> 32 word \<Rightarrow> bytes list \<Rightarrow> order list \<Rightarrow> ring"
  rDefault_cf :: "coeffs \<Rightarrow> 32 word \<Rightarrow> bytes list \<Rightarrow> order list \<Rightarrow> ring"

text \<open>\<open>Typ()\<close> of a value.\<close>

fun Typ :: "tokens \<Rightarrow> leftv \<Rightarrow> nat" where
  "Typ T L_none = t_NONE T"
| "Typ T L_undef = 0"
| "Typ T (L_int _) = t_INT_CMD T"
| "Typ T (L_string _) = t_STRING_CMD T"
| "Typ T (L_def _) = t_DEF_CMD T"
| "Typ T (L_number _) = t_NUMBER_CMD T"
| "Typ T (L_bigint _) = t_BIGINT_CMD T"
| "Typ T (L_intmat _ _ _) = t_INTMAT_CMD T"
| "Typ T (L_ring _) = t_RING_CMD T"
| "Typ T (L_poly _) = t_POLY_CMD T"
| "Typ T (L_ideal _) = t_IDEAL_CMD T"
| "Typ T (L_list _) = t_LIST_CMD T"
| "Typ T (L_command _ _ _ _ _) = t_COMMAND T"
| "Typ T (L_blackbox n _) = n"
| "Typ T (L_other n) = n"

definition token_list :: "tokens \<Rightarrow> nat list" where
  "token_list T = [t_NONE T, t_INT_CMD T, t_LIST_CMD T, t_STRING_CMD T, t_COMMAND T, t_DEF_CMD T,
     t_NUMBER_CMD T, t_BIGINT_CMD T, t_INTMAT_CMD T, t_RING_CMD T, t_POLY_CMD T, t_IDEAL_CMD T]"

text \<open>Type numbers are distinct positive C ints.\<close>

definition tokens_ok :: "tokens \<Rightarrow> bool" where
  "tokens_ok T \<longleftrightarrow> distinct (token_list T) \<and> (\<forall>t\<in>set (token_list T). 0 < t \<and> t < 2 ^ 31)"

text \<open>A token table to run examples with.\<close>

definition sample_tokens :: tokens where
  "sample_tokens = \<lparr>t_NONE = 301, t_INT_CMD = 302, t_LIST_CMD = 303, t_STRING_CMD = 304,
     t_COMMAND = 305, t_DEF_CMD = 306, t_NUMBER_CMD = 307, t_BIGINT_CMD = 308,
     t_INTMAT_CMD = 309, t_RING_CMD = 310, t_POLY_CMD = 311, t_IDEAL_CMD = 312\<rparr>"

lemma sample_tokens_ok: "tokens_ok sample_tokens"
  by (simp add: tokens_ok_def token_list_def sample_tokens_def)

end
