(* ===== verification/Lin_Tree.thy ===== *)
theory Lin_Tree
  imports Singular_Values
begin

text \<open>
  lintree.h: the serialisation buffer \<open>LinTree\<close>. It is a \<open>std::string\<close> that values
  are appended to and a cursor that reads them back. Multi-byte values are copied with
  \<open>memcpy\<close>; the layout is that of the LP64 little-endian platforms Singular runs on:
  \<open>int\<close> has 4 bytes, \<open>long\<close>, \<open>size_t\<close> and pointers have 8.
\<close>

section \<open>Little-endian layout\<close>

fun le_bytes :: "nat \<Rightarrow> nat \<Rightarrow> bytes" where
  "le_bytes 0 v = []"
| "le_bytes (Suc k) v = word_of_nat (v mod 256) # le_bytes k (v div 256)"

fun le_value :: "bytes \<Rightarrow> nat" where
  "le_value [] = 0"
| "le_value (b # bs) = unat b + 256 * le_value bs"

lemma length_le_bytes [simp]: "length (le_bytes k v) = k"
  by (induction k arbitrary: v) auto

lemma le_value_le_bytes: "le_value (le_bytes k v) = v mod 256 ^ k"
proof (induction k arbitrary: v)
  case (Suc k)
  have "v mod 256 + 256 * (v div 256 mod 256 ^ k) = v mod (256 * 256 ^ k)"
    by (simp add: mod_mult2_eq)
  with Suc show ?case by (simp add: unat_of_nat)
qed simp

lemma le_word32 [simp]: "word_of_nat (le_value (le_bytes 4 (unat w))) = (w :: 32 word)"
proof -
  have "unat w < 256 ^ 4" using unsigned_less [of w] by simp
  then show ?thesis by (simp add: le_value_le_bytes)
qed

lemma le_word64 [simp]: "word_of_nat (le_value (le_bytes 8 (unat w))) = (w :: 64 word)"
proof -
  have "unat w < 256 ^ 8" using unsigned_less [of w] by simp
  then show ?thesis by (simp add: le_value_le_bytes)
qed

section \<open>The buffer\<close>

text \<open>
  \<open>refs\<close> is not a field of the class: it is the table of reference counts of shared
  objects, which encoding and decoding a shared object changes.
\<close>

record lintree =
  memory :: bytes
  cursor :: nat
  error :: "string option"
  last_ring :: "ring option"
  refs :: "64 word \<Rightarrow> int"

text \<open>The three constructors, the assignment and the simple members.\<close>

definition new_lintree :: "(64 word \<Rightarrow> int) \<Rightarrow> lintree" where
  "new_lintree rc = \<lparr>memory = [], cursor = 0, error = None, last_ring = None, refs = rc\<rparr>"

definition copy_lintree :: "lintree \<Rightarrow> lintree" where
  "copy_lintree other =
     \<lparr>memory = memory other, cursor = 0, error = None, last_ring = None, refs = refs other\<rparr>"

definition assign_lintree :: "lintree \<Rightarrow> lintree" where
  "assign_lintree other =
     \<lparr>memory = memory other, cursor = cursor other, error = None, last_ring = None,
      refs = refs other\<rparr>"

definition source_lintree :: "bytes \<Rightarrow> (64 word \<Rightarrow> int) \<Rightarrow> lintree" where
  "source_lintree source rc =
     \<lparr>memory = source, cursor = 0, error = None, last_ring = None, refs = rc\<rparr>"

definition rewind :: "lintree \<Rightarrow> lintree" where
  "rewind lt = lt\<lparr>cursor := 0\<rparr>"

definition clear :: "lintree \<Rightarrow> lintree" where
  "clear lt = lt\<lparr>memory := [], cursor := 0, error := None, last_ring := None\<rparr>"

definition mark_error :: "string \<Rightarrow> lintree \<Rightarrow> lintree" where
  "mark_error s lt = lt\<lparr>error := Some s\<rparr>"

definition has_error :: "lintree \<Rightarrow> bool" where
  "has_error lt \<longleftrightarrow> error lt \<noteq> None"

definition has_last_ring :: "lintree \<Rightarrow> bool" where
  "has_last_ring lt \<longleftrightarrow> last_ring lt \<noteq> None"

text \<open>
  The code also adjusts the reference counts of the old and the new ring; rings are values
  here and have none.
\<close>

definition set_last_ring :: "ring option \<Rightarrow> lintree \<Rightarrow> lintree" where
  "set_last_ring r lt = lt\<lparr>last_ring := r\<rparr>"

section \<open>Writing\<close>

definition put_bytes :: "bytes \<Rightarrow> lintree \<Rightarrow> lintree" where
  "put_bytes p lt = lt\<lparr>memory := memory lt @ p\<rparr>"

definition put_int :: "32 word \<Rightarrow> lintree \<Rightarrow> lintree" where
  "put_int w lt = put_bytes (le_bytes 4 (unat w)) lt"

definition put_long :: "64 word \<Rightarrow> lintree \<Rightarrow> lintree" where
  "put_long w lt = put_bytes (le_bytes 8 (unat w)) lt"

definition put_size :: "nat \<Rightarrow> lintree \<Rightarrow> lintree" where
  "put_size n lt = put_long (word_of_nat n) lt"

text \<open>\<open>strlen\<close> stops at the first zero byte.\<close>

definition c_string :: "bytes \<Rightarrow> bytes" where
  "c_string p = takeWhile (\<lambda>b. b \<noteq> 0) p"

definition put_cstring :: "bytes \<Rightarrow> lintree \<Rightarrow> lintree" where
  "put_cstring p lt = put_bytes (c_string p @ [0]) (put_size (length (c_string p)) lt)"

definition reserve_bytes :: "nat \<Rightarrow> lintree \<Rightarrow> lintree" where
  "reserve_bytes n lt = put_bytes (replicate n 0) lt"

section \<open>Reading\<close>

text \<open>
  What may be read through \<open>memory.c_str()\<close>: the bytes and the zero byte behind them.
  Anything further is a fault.
\<close>

definition get_bytes :: "nat \<Rightarrow> lintree \<Rightarrow> (bytes \<times> lintree) flow" where
  "get_bytes n lt =
     (if cursor lt + n \<le> length (memory lt) + 1
      then Done (take n (drop (cursor lt) (memory lt @ [0])), lt\<lparr>cursor := cursor lt + n\<rparr>)
      else Crash Out_of_bounds)"

definition get_int :: "lintree \<Rightarrow> (32 word \<times> lintree) flow" where
  "get_int lt = map_flow_value (\<lambda>(bs, lt). (word_of_nat (le_value bs), lt)) (get_bytes 4 lt)"

definition get_long :: "lintree \<Rightarrow> (64 word \<times> lintree) flow" where
  "get_long lt = map_flow_value (\<lambda>(bs, lt). (word_of_nat (le_value bs), lt)) (get_bytes 8 lt)"

definition get_size :: "lintree \<Rightarrow> (nat \<times> lintree) flow" where
  "get_size lt = map_flow_value (\<lambda>(w, lt). (unat w, lt)) (get_long lt)"

definition get_prev_int :: "lintree \<Rightarrow> (32 word) flow" where
  "get_prev_int lt =
     (if 4 \<le> cursor lt then map_flow_value fst (get_int (lt\<lparr>cursor := cursor lt - 4\<rparr>))
      else Crash Out_of_bounds)"

definition get_cstring :: "lintree \<Rightarrow> (bytes \<times> lintree) flow" where
  "get_cstring lt = bind_flow (get_size lt) (\<lambda>(n, lt).
     map_flow_value (\<lambda>(bs, lt). (c_string bs, lt)) (get_bytes (n + 1) lt))"

text \<open>Skipping moves the cursor without reading.\<close>

definition skip_bytes :: "nat \<Rightarrow> lintree \<Rightarrow> lintree" where
  "skip_bytes n lt = lt\<lparr>cursor := cursor lt + n\<rparr>"

definition skip_int :: "lintree \<Rightarrow> lintree" where
  "skip_int lt = skip_bytes 4 lt"

definition skip_long :: "lintree \<Rightarrow> lintree" where
  "skip_long lt = skip_bytes 8 lt"

definition skip_cstring :: "lintree \<Rightarrow> lintree flow" where
  "skip_cstring lt = map_flow_value (\<lambda>(n, lt). skip_bytes (n + 1) lt) (get_size lt)"

section \<open>Reading what was written\<close>

text \<open>
  The buffer holds \<open>bs\<close> at its cursor, with anything before and behind. \<open>advance\<close>
  moves over it.
\<close>

definition at_cursor :: "bytes \<Rightarrow> lintree \<Rightarrow> bool" where
  "at_cursor bs lt \<longleftrightarrow> (\<exists>pre post. memory lt = pre @ bs @ post \<and> cursor lt = length pre)"

definition advance :: "nat \<Rightarrow> lintree \<Rightarrow> lintree" where
  "advance n lt = lt\<lparr>cursor := cursor lt + n\<rparr>"

lemma at_cursor_append:
  "at_cursor (xs @ ys) lt \<longleftrightarrow> at_cursor xs lt \<and> at_cursor ys (advance (length xs) lt)"
proof
  assume "at_cursor (xs @ ys) lt"
  then obtain pre post where "memory lt = pre @ xs @ ys @ post" "cursor lt = length pre"
    by (auto simp: at_cursor_def)
  then have "memory lt = pre @ xs @ (ys @ post)" "cursor lt = length pre"
    "memory (advance (length xs) lt) = (pre @ xs) @ ys @ post"
    "cursor (advance (length xs) lt) = length (pre @ xs)"
    by (simp_all add: advance_def)
  then show "at_cursor xs lt \<and> at_cursor ys (advance (length xs) lt)"
    unfolding at_cursor_def by blast
next
  assume "at_cursor xs lt \<and> at_cursor ys (advance (length xs) lt)"
  then obtain pre post pre' post' where
    *: "memory lt = pre @ xs @ post" "cursor lt = length pre"
       "memory lt = pre' @ ys @ post'" "length pre' = length pre + length xs"
    by (auto simp: at_cursor_def advance_def)
  then have "(pre @ xs) @ post = pre' @ (ys @ post')" by simp
  then have "take (length pre') ((pre @ xs) @ post) = take (length pre') (pre' @ (ys @ post'))"
    by (rule arg_cong)
  with *(4) have "pre' = pre @ xs" by simp
  with * show "at_cursor (xs @ ys) lt" by (auto simp: at_cursor_def)
qed

lemma at_cursor_Nil: "at_cursor (xs @ ys) lt \<Longrightarrow> at_cursor xs lt"
  by (simp add: at_cursor_append)

lemma advance_advance [simp]: "advance m (advance n lt) = advance (n + m) lt"
  by (simp add: advance_def ac_simps)

lemma advance_0 [simp]: "advance 0 lt = lt"
  by (simp add: advance_def)

lemma advance_fields [simp]:
  "memory (advance n lt) = memory lt" "error (advance n lt) = error lt"
  "last_ring (advance n lt) = last_ring lt" "refs (advance n lt) = refs lt"
  "cursor (advance n lt) = cursor lt + n"
  by (simp_all add: advance_def)

lemma get_bytes_at [read_simps]:
  "at_cursor bs lt \<Longrightarrow> n = length bs \<Longrightarrow> get_bytes n lt = Done (bs, advance n lt)"
  by (auto simp: at_cursor_def get_bytes_def advance_def)

lemma get_int_at [read_simps]:
  "at_cursor (le_bytes 4 (unat w)) lt \<Longrightarrow> get_int lt = Done (w, advance 4 lt)"
  by (simp add: get_int_def get_bytes_at)

lemma get_long_at [read_simps]:
  "at_cursor (le_bytes 8 (unat w)) lt \<Longrightarrow> get_long lt = Done (w, advance 8 lt)"
  by (simp add: get_long_def get_bytes_at)

definition size_bytes :: "nat \<Rightarrow> bytes" where
  "size_bytes n = le_bytes 8 (unat (word_of_nat n :: 64 word))"

lemma length_size_bytes [simp]: "length (size_bytes n) = 8"
  by (simp add: size_bytes_def)

lemma get_size_at [read_simps]:
  "at_cursor (size_bytes n) lt \<Longrightarrow> n < 2 ^ 64 \<Longrightarrow> get_size lt = Done (n, advance 8 lt)"
  unfolding size_bytes_def get_size_def
  by (drule get_long_at) (simp add: unat_of_nat)

lemma c_string_idem [simp]: "c_string (c_string p) = c_string p"
  by (simp add: c_string_def takeWhile_idem)

lemma c_string_append_0: "c_string (c_string p @ [0]) = c_string p"
  by (simp add: c_string_def) (metis (mono_tags, lifting) set_takeWhileD takeWhile.simps(2)
      takeWhile_append2 self_append_conv)

definition cstring_bytes :: "bytes \<Rightarrow> bytes" where
  "cstring_bytes p = size_bytes (length (c_string p)) @ c_string p @ [0]"

lemma get_cstring_at [read_simps]:
  assumes "at_cursor (cstring_bytes p) lt" and "length (c_string p) < 2 ^ 64"
  shows "get_cstring lt = Done (c_string p, advance (length (cstring_bytes p)) lt)"
proof -
  from assms(1) have "at_cursor (size_bytes (length (c_string p))) lt"
    and str: "at_cursor (c_string p @ [0]) (advance 8 lt)"
    by (simp_all add: cstring_bytes_def at_cursor_append [of "size_bytes n" for n])
  then have "get_size lt = Done (length (c_string p), advance 8 lt)"
    using assms(2) by (intro get_size_at)
  moreover have "get_bytes (length (c_string p) + 1) (advance 8 lt) =
      Done (c_string p @ [0], advance (length (c_string p) + 1) (advance 8 lt))"
    using str by (intro get_bytes_at) simp_all
  ultimately show ?thesis
    by (simp add: get_cstring_def cstring_bytes_def c_string_append_0 add.commute)
qed

lemma put_simps [read_simps]:
  "put_int w lt = put_bytes (le_bytes 4 (unat w)) lt"
  "put_long v lt = put_bytes (le_bytes 8 (unat v)) lt"
  "put_size n lt = put_bytes (size_bytes n) lt"
  "put_cstring p lt = put_bytes (cstring_bytes p) lt"
  "put_bytes xs (put_bytes ys lt) = put_bytes (ys @ xs) lt"
  by (simp_all add: put_int_def put_long_def put_size_def put_cstring_def put_bytes_def
      cstring_bytes_def size_bytes_def)

lemma put_bytes_fields [simp]:
  "memory (put_bytes xs lt) = memory lt @ xs" "error (put_bytes xs lt) = error lt"
  "last_ring (put_bytes xs lt) = last_ring lt" "refs (put_bytes xs lt) = refs lt"
  "cursor (put_bytes xs lt) = cursor lt"
  by (simp_all add: put_bytes_def)

lemma put_bytes_Nil [simp]: "put_bytes [] lt = lt"
  by (simp add: put_bytes_def)

end
