(* ===== verification/Codec_Numbers.thy ===== *)
theory Codec_Numbers
  imports Lin_Tree
begin

text \<open>
  lintree.cc, the encodings of numbers, big integers, matrices of integers, polynomials
  and ideals. The codes call each other: a number over an extension field is made of
  polynomials over the field below. Reading a value back is proved once for the contract
  of a codec and its repetition, and then for each codec.
\<close>

section \<open>Repetition\<close>

fun encode_each :: "('v \<Rightarrow> lintree \<Rightarrow> lintree flow) \<Rightarrow> 'v list \<Rightarrow> lintree \<Rightarrow> lintree flow" where
  "encode_each enc [] lt = Done lt"
| "encode_each enc (v # vs) lt = bind_flow (enc v lt) (encode_each enc vs)"

fun decode_each :: "nat \<Rightarrow> (lintree \<Rightarrow> ('v \<times> lintree) flow) \<Rightarrow> lintree \<Rightarrow> ('v list \<times> lintree) flow" where
  "decode_each 0 dec lt = Done ([], lt)"
| "decode_each (Suc n) dec lt =
     bind_flow (dec lt) (\<lambda>(v, lt). bind_flow (decode_each n dec lt) (\<lambda>(vs, lt). Done (v # vs, lt)))"

fun skip_each :: "nat \<Rightarrow> (lintree \<Rightarrow> lintree flow) \<Rightarrow> lintree \<Rightarrow> lintree flow" where
  "skip_each 0 f lt = Done lt"
| "skip_each (Suc n) f lt = bind_flow (f lt) (skip_each n f)"

lemma encode_each_cong [fundef_cong]:
  "vs = vs' \<Longrightarrow> lt = lt' \<Longrightarrow> (\<And>v l. v \<in> set vs' \<Longrightarrow> enc v l = enc' v l) \<Longrightarrow>
   encode_each enc vs lt = encode_each enc' vs' lt'"
  by (induction vs arbitrary: vs' lt lt') (auto intro!: bind_flow_cong)

lemma decode_each_cong [fundef_cong]:
  "n = n' \<Longrightarrow> lt = lt' \<Longrightarrow> (\<And>l. dec l = dec' l) \<Longrightarrow> decode_each n dec lt = decode_each n' dec' lt'"
  by (metis ext)

lemma skip_each_cong [fundef_cong]:
  "n = n' \<Longrightarrow> lt = lt' \<Longrightarrow> (\<And>l. f l = f' l) \<Longrightarrow> skip_each n f lt = skip_each n' f' lt'"
  by (metis ext)

section \<open>The contract of a codec\<close>

text \<open>
  \<open>represents enc dec v w bs\<close>: encoding \<open>v\<close> appends \<open>bs\<close> and does nothing else, and
  decoding \<open>bs\<close> yields \<open>w\<close> and moves the cursor behind it.
\<close>

definition represents ::
    "('v \<Rightarrow> lintree \<Rightarrow> lintree flow) \<Rightarrow> (lintree \<Rightarrow> ('w \<times> lintree) flow) \<Rightarrow> 'v \<Rightarrow> 'w \<Rightarrow> bytes \<Rightarrow> bool" where
  "represents enc dec v w bs \<longleftrightarrow>
     (\<forall>lt. enc v lt = Done (put_bytes bs lt)) \<and>
     (\<forall>lt. at_cursor bs lt \<longrightarrow> dec lt = Done (w, advance (length bs) lt))"

lemma representsI:
  "(\<And>lt. enc v lt = Done (put_bytes bs lt)) \<Longrightarrow>
   (\<And>lt. at_cursor bs lt \<Longrightarrow> dec lt = Done (w, advance (length bs) lt)) \<Longrightarrow> represents enc dec v w bs"
  by (simp add: represents_def)

lemma represents_enc: "represents enc dec v w bs \<Longrightarrow> enc v lt = Done (put_bytes bs lt)"
  by (simp add: represents_def)

lemma represents_dec:
  "represents enc dec v w bs \<Longrightarrow> at_cursor bs lt \<Longrightarrow> dec lt = Done (w, advance (length bs) lt)"
  by (simp add: represents_def)

lemma at_cursor_put: "cursor lt = length (memory lt) \<Longrightarrow> at_cursor bs (put_bytes bs lt)"
  unfolding at_cursor_def by (metis append_Nil2 put_bytes_fields(1,5))

lemma represents_each:
  assumes "\<And>v. v \<in> set vs \<Longrightarrow> \<exists>bs. represents enc dec v (f v) bs"
  shows "\<exists>bs. represents (encode_each enc) (decode_each (length vs) dec) vs (map f vs) bs"
  using assms
proof (induction vs)
  case Nil
  have "represents (encode_each enc) (decode_each 0 dec) [] [] []"
    by (rule representsI) simp_all
  then show ?case unfolding list.size list.map by (rule exI)
next
  case (Cons v vs)
  from Cons.prems obtain bs where bs: "represents enc dec v (f v) bs" by fastforce
  from Cons obtain cs where
    cs: "represents (encode_each enc) (decode_each (length vs) dec) vs (map f vs) cs" by fastforce
  have "represents (encode_each enc) (decode_each (length (v # vs)) dec) (v # vs) (map f (v # vs)) (bs @ cs)"
    by (rule representsI)
      (simp_all add: represents_enc [OF bs] represents_enc [OF cs] read_simps at_cursor_append
        represents_dec [OF bs] represents_dec [OF cs])
  then show ?case by blast
qed

text \<open>
  A codec: its encoder, its decoder, the values it handles, and what a value has become
  when it is read back.
\<close>

locale codec =
  fixes enc :: "'v \<Rightarrow> lintree \<Rightarrow> lintree flow"
    and dec :: "lintree \<Rightarrow> ('v \<times> lintree) flow"
    and ok :: "'v \<Rightarrow> bool"
    and image :: "'v \<Rightarrow> 'v"
  assumes code_exists: "ok v \<Longrightarrow> \<exists>bs. represents enc dec v (image v) bs"
begin

text \<open>Written at the end of a buffer and read from there, a value comes back.\<close>

lemma roundtrip:
  assumes "ok v" and "cursor lt = length (memory lt)"
  shows "\<exists>lt'. enc v lt = Done lt' \<and> error lt' = error lt \<and>
    dec lt' = Done (image v, advance (length (memory lt') - length (memory lt)) lt')"
proof -
  from code_exists [OF assms(1)] obtain bs where bs: "represents enc dec v (image v) bs" ..
  have "dec (put_bytes bs lt) = Done (image v, advance (length bs) (put_bytes bs lt))"
    using bs assms(2) by (intro represents_dec at_cursor_put)
  with represents_enc [OF bs] show ?thesis by simp
qed

text \<open>The same for any number of values in a row.\<close>

lemma roundtrip_each:
  assumes "\<And>v. v \<in> set vs \<Longrightarrow> ok v" and "cursor lt = length (memory lt)"
  shows "\<exists>lt'. encode_each enc vs lt = Done lt' \<and> error lt' = error lt \<and>
    decode_each (length vs) dec lt' =
      Done (map image vs, advance (length (memory lt') - length (memory lt)) lt')"
proof -
  from represents_each [of vs enc dec image] code_exists assms(1) obtain bs where
    bs: "represents (encode_each enc) (decode_each (length vs) dec) vs (map image vs) bs" by blast
  have "decode_each (length vs) dec (put_bytes bs lt) =
      Done (map image vs, advance (length bs) (put_bytes bs lt))"
    using bs assms(2) by (intro represents_dec at_cursor_put)
  with represents_enc [OF bs] show ?thesis by simp
qed

end

definition encode_c_int :: "32 word \<Rightarrow> lintree \<Rightarrow> lintree flow" where
  "encode_c_int w lt = Done (put_int w lt)"

lemma represents_int: "represents encode_c_int get_int w w (le_bytes 4 (unat w))"
  by (rule representsI) (simp_all add: encode_c_int_def read_simps)

interpretation ints: codec encode_c_int get_int "\<lambda>_. True" "\<lambda>w. w"
  by unfold_locales (use represents_int in blast)

lemma represents_ints:
  "\<exists>bs. represents (encode_each encode_c_int) (decode_each (length ws) get_int) ws ws bs"
  using represents_each [of ws encode_c_int get_int "\<lambda>w. w"] represents_int by auto

section \<open>Big integers\<close>

text \<open>
  \<open>mpz_export\<close> and \<open>mpz_import\<close> are GMP's: the bytes of the magnitude, most
  significant first. \<open>mpz_sizeinbase\<close> only sizes the temporary buffer; the count that is
  written is the one \<open>mpz_export\<close> reports.
\<close>

definition encode_mpz :: "singular \<Rightarrow> int \<Rightarrow> lintree \<Rightarrow> lintree" where
  "encode_mpz S num lt =
     (let p = mpz_export S num in put_bytes p (put_size (length p) lt))"

definition decode_mpz :: "singular \<Rightarrow> lintree \<Rightarrow> (int \<times> lintree) flow" where
  "decode_mpz S lt = bind_flow (get_size lt) (\<lambda>(nbytes, lt).
     map_flow_value (\<lambda>(p, lt). (mpz_import S p, lt)) (get_bytes nbytes lt))"

text \<open>
  GMP's documentation of the pair: the sign is ignored, so what comes back is the
  magnitude. A big integer that exists fits into memory.
\<close>

definition gmp_ok :: "singular \<Rightarrow> bool" where
  "gmp_ok S \<longleftrightarrow> (\<forall>z. mpz_import S (mpz_export S z) = \<bar>z\<bar>)"

definition mpz_fits :: "singular \<Rightarrow> int \<Rightarrow> bool" where
  "mpz_fits S z \<longleftrightarrow> length (mpz_export S z) < 2 ^ 64"

lemma represents_mpz:
  assumes "gmp_ok S" and "mpz_fits S z"
  shows "\<exists>bs. represents (\<lambda>z lt. Done (encode_mpz S z lt)) (decode_mpz S) z \<bar>z\<bar> bs"
proof
  let ?bs = "size_bytes (length (mpz_export S z)) @ mpz_export S z"
  show "represents (\<lambda>z lt. Done (encode_mpz S z lt)) (decode_mpz S) z \<bar>z\<bar> ?bs"
  proof (rule representsI)
    fix lt assume "at_cursor ?bs lt"
    then have "get_size lt = Done (length (mpz_export S z), advance 8 lt)"
      and "at_cursor (mpz_export S z) (advance 8 lt)"
      using assms by (auto simp: at_cursor_append mpz_fits_def intro: get_size_at)
    then show "decode_mpz S lt = Done (\<bar>z\<bar>, advance (length ?bs) lt)"
      using assms by (simp add: decode_mpz_def get_bytes_at gmp_ok_def)
  qed (simp add: encode_mpz_def read_simps Let_def)
qed

section \<open>Numbers and polynomials\<close>

text \<open>\<open>encode_longrat_cf\<close>: the number is rational.\<close>

fun encode_longrat_cf :: "singular \<Rightarrow> number \<Rightarrow> lintree \<Rightarrow> lintree flow" where
  "encode_longrat_cf S (Num_imm nn) lt = Done (put_long nn (put_int (-1) lt))"
| "encode_longrat_cf S (Num_big s z n) lt =
     (if sint s < 2 then Done (encode_mpz S n (encode_mpz S z (put_int s lt)))
      else Done (encode_mpz S z (put_int s lt)))"
| "encode_longrat_cf S _ lt = Crash Type_confusion"

definition decode_longrat_cf :: "singular \<Rightarrow> lintree \<Rightarrow> (number \<times> lintree) flow" where
  "decode_longrat_cf S lt = bind_flow (get_int lt) (\<lambda>(subtype, lt).
     if sint subtype < 0 then map_flow_value (\<lambda>(nn, lt). (Num_imm nn, lt)) (get_long lt)
     else if sint subtype < 2 then
       bind_flow (decode_mpz S lt) (\<lambda>(z, lt). bind_flow (decode_mpz S lt) (\<lambda>(n, lt).
         Done (Num_big subtype z n, lt)))
     else bind_flow (decode_mpz S lt) (\<lambda>(z, lt). Done (Num_big subtype z 0, lt)))"

text \<open>
  \<open>encode_number_cf\<close> and \<open>encode_poly\<close> with an explicit ring. A number is read as its
  coefficient domain says; one of another shape is a type confusion.
\<close>

fun encode_number_cf :: "singular \<Rightarrow> coeffs \<Rightarrow> number \<Rightarrow> lintree \<Rightarrow> lintree flow"
  and encode_poly_in :: "singular \<Rightarrow> ring \<Rightarrow> poly \<Rightarrow> lintree \<Rightarrow> lintree flow"
  and encode_term :: "singular \<Rightarrow> ring \<Rightarrow> pterm \<Rightarrow> lintree \<Rightarrow> lintree flow" where
  "encode_number_cf S (Cf_transExt r) n lt =
     (case n of Num_frac a b \<Rightarrow> bind_flow (encode_poly_in S r a lt) (encode_poly_in S r b)
      | _ \<Rightarrow> Crash Type_confusion)"
| "encode_number_cf S (Cf_algExt r) n lt =
     (case n of Num_alg p \<Rightarrow> encode_poly_in S r p lt | _ \<Rightarrow> Crash Type_confusion)"
| "encode_number_cf S (Cf_Zp p) n lt =
     (case n of Num_Zp k \<Rightarrow> Done (put_long k lt) | _ \<Rightarrow> Crash Type_confusion)"
| "encode_number_cf S Cf_Q n lt = encode_longrat_cf S n lt"
| "encode_number_cf S (Cf_other nm) n lt =
     Done (mark_error ''coefficient type not supported'' lt)"
| "encode_poly_in S r p lt = encode_each (encode_term S r) p (put_int (word_of_nat (length p)) lt)"
| "encode_term S r (Term c k es) lt =
     (let N = nat (sint (r_N r))
      in if length es < N then Crash Out_of_bounds
         else bind_flow (encode_number_cf S (r_cf r) c lt) (\<lambda>lt.
                encode_each encode_c_int (take N es) (put_int k lt)))"

fun decode_number_cf :: "singular \<Rightarrow> coeffs \<Rightarrow> lintree \<Rightarrow> (number \<times> lintree) flow"
  and decode_poly_in :: "singular \<Rightarrow> ring \<Rightarrow> lintree \<Rightarrow> (poly \<times> lintree) flow" where
  "decode_number_cf S (Cf_transExt r) lt =
     bind_flow (decode_poly_in S r lt) (\<lambda>(a, lt). bind_flow (decode_poly_in S r lt) (\<lambda>(b, lt).
       Done (Num_frac a b, lt)))"
| "decode_number_cf S (Cf_algExt r) lt =
     map_flow_value (\<lambda>(p, lt). (Num_alg p, lt)) (decode_poly_in S r lt)"
| "decode_number_cf S (Cf_Zp p) lt = map_flow_value (\<lambda>(k, lt). (Num_Zp k, lt)) (get_long lt)"
| "decode_number_cf S Cf_Q lt = decode_longrat_cf S lt"
| "decode_number_cf S (Cf_other nm) lt =
     Done (Num_null, mark_error ''coefficient type not supported'' lt)"
| "decode_poly_in S (Ring ad cf N nms ord q) lt =
     bind_flow (get_int lt) (\<lambda>(len, lt).
       decode_each (nat (sint len)) (\<lambda>lt.
         bind_flow (decode_number_cf S cf lt) (\<lambda>(c, lt).
         bind_flow (get_int lt) (\<lambda>(d, lt).
         bind_flow (decode_each (nat (sint N)) get_int lt) (\<lambda>(es, lt).
         Done (Term c d es, lt))))) lt)"

text \<open>The values a domain can encode.\<close>

fun number_ok :: "singular \<Rightarrow> coeffs \<Rightarrow> number \<Rightarrow> bool"
  and poly_ok :: "singular \<Rightarrow> ring \<Rightarrow> poly \<Rightarrow> bool"
  and term_ok :: "singular \<Rightarrow> ring \<Rightarrow> pterm \<Rightarrow> bool" where
  "number_ok S (Cf_transExt r) n = (case n of Num_frac a b \<Rightarrow> poly_ok S r a \<and> poly_ok S r b | _ \<Rightarrow> False)"
| "number_ok S (Cf_algExt r) n = (case n of Num_alg p \<Rightarrow> poly_ok S r p | _ \<Rightarrow> False)"
| "number_ok S (Cf_Zp p) n = (case n of Num_Zp _ \<Rightarrow> True | _ \<Rightarrow> False)"
| "number_ok S Cf_Q n = (case n of Num_imm _ \<Rightarrow> True | Num_big s z n \<Rightarrow> 0 \<le> sint s \<and> mpz_fits S z \<and> (sint s < 2 \<longrightarrow> mpz_fits S n) | _ \<Rightarrow> False)"
| "number_ok S (Cf_other nm) n = False"
| "poly_ok S r p = (length p < 2 ^ 31 \<and> (\<forall>t\<in>set p. term_ok S r t))"
| "term_ok S r (Term c k es) = (int (length es) = sint (r_N r) \<and> number_ok S (r_cf r) c)"

text \<open>What a number is after a round trip: big integers have lost their sign.\<close>

fun number_image :: "number \<Rightarrow> number" and term_image :: "pterm \<Rightarrow> pterm" where
  "number_image (Num_Zp k) = Num_Zp k"
| "number_image (Num_imm k) = Num_imm k"
| "number_image (Num_big s z n) =
     (if sint s < 2 then Num_big s \<bar>z\<bar> \<bar>n\<bar> else Num_big s \<bar>z\<bar> 0)"
| "number_image (Num_frac a b) = Num_frac (map term_image a) (map term_image b)"
| "number_image (Num_alg p) = Num_alg (map term_image p)"
| "number_image Num_null = Num_null"
| "term_image (Term c k es) = Term (number_image c) k es"


text \<open>Their round trip, by induction along the nesting of numbers in polynomials.\<close>

definition decode_term :: "singular \<Rightarrow> ring \<Rightarrow> lintree \<Rightarrow> (pterm \<times> lintree) flow" where
  "decode_term S r lt =
     bind_flow (decode_number_cf S (r_cf r) lt) (\<lambda>(c, lt).
     bind_flow (get_int lt) (\<lambda>(d, lt).
     bind_flow (decode_each (nat (sint (r_N r))) get_int lt) (\<lambda>(es, lt).
     Done (Term c d es, lt))))"

lemma decode_poly_in_eq:
  "decode_poly_in S r lt =
     bind_flow (get_int lt) (\<lambda>(len, lt). decode_each (nat (sint len)) (decode_term S r) lt)"
  by (cases r) (simp add: decode_term_def [abs_def])

lemma sint_word_of_nat32: "n < 2 ^ 31 \<Longrightarrow> sint (word_of_nat n :: 32 word) = int n"
  by (simp add: signed_of_nat signed_take_bit_int_eq_self)

lemma represents_poly:
  assumes len: "length p < 2 ^ 31"
    and terms: "\<And>t. t \<in> set p \<Longrightarrow> \<exists>bs. represents (encode_term S r) (decode_term S r) t (term_image t) bs"
  shows "\<exists>bs. represents (encode_poly_in S r) (decode_poly_in S r) p (map term_image p) bs"
proof -
  let ?w = "word_of_nat (length p) :: 32 word"
  from represents_each [OF terms] obtain bs where
    bs: "represents (encode_each (encode_term S r)) (decode_each (length p) (decode_term S r)) p (map term_image p) bs"
    by blast
  have "represents (encode_poly_in S r) (decode_poly_in S r) p (map term_image p) (le_bytes 4 (unat ?w) @ bs)"
    using sint_word_of_nat32 [OF len]
    by (intro representsI)
      (auto simp: represents_enc [OF bs] read_simps decode_poly_in_eq at_cursor_append
        represents_dec [OF bs])
  then show ?thesis ..
qed

lemma represents_term:
  assumes len: "int (length es) = sint (r_N r)"
    and num: "\<exists>bs. represents (encode_number_cf S (r_cf r)) (decode_number_cf S (r_cf r)) c (number_image c) bs"
  shows "\<exists>bs. represents (encode_term S r) (decode_term S r) (Term c k es) (term_image (Term c k es)) bs"
proof -
  from num obtain bs where
    bs: "represents (encode_number_cf S (r_cf r)) (decode_number_cf S (r_cf r)) c (number_image c) bs" ..
  from represents_ints obtain cs where
    cs: "represents (encode_each encode_c_int) (decode_each (length es) get_int) es es cs" by blast
  have N: "nat (sint (r_N r)) = length es" using len by simp
  have "represents (encode_term S r) (decode_term S r) (Term c k es) (term_image (Term c k es))
      (bs @ le_bytes 4 (unat k) @ cs)"
    by (rule representsI)
      (auto simp: N represents_enc [OF bs] represents_enc [OF cs] read_simps decode_term_def
        at_cursor_append represents_dec [OF bs] represents_dec [OF cs])
  then show ?thesis ..
qed

lemma represents_longrat:
  assumes "gmp_ok S" and "number_ok S Cf_Q n"
  shows "\<exists>bs. represents (encode_longrat_cf S) (decode_longrat_cf S) n (number_image n) bs"
proof (cases n)
  case (Num_imm k)
  have "represents (encode_longrat_cf S) (decode_longrat_cf S) n (number_image n)
      (le_bytes 4 (unat (-1 :: 32 word)) @ le_bytes 8 (unat k))"
    by (rule representsI)
      (auto simp: Num_imm read_simps at_cursor_append decode_longrat_cf_def)
  then show ?thesis ..
next
  case (Num_big s z m)
  have "mpz_fits S z" using assms(2) Num_big by simp
  from represents_mpz [OF assms(1) this] obtain bs where
    bs: "represents (\<lambda>z lt. Done (encode_mpz S z lt)) (decode_mpz S) z \<bar>z\<bar> bs" by blast
  have s: "\<not> sint s < 0" using assms(2) Num_big by simp
  show ?thesis
  proof (cases "sint s < 2")
    case True
    then obtain cs where
      cs: "represents (\<lambda>z lt. Done (encode_mpz S z lt)) (decode_mpz S) m \<bar>m\<bar> cs"
      using represents_mpz [OF assms(1), of m] assms(2) Num_big by auto
    have "represents (encode_longrat_cf S) (decode_longrat_cf S) n (number_image n)
        (le_bytes 4 (unat s) @ bs @ cs)"
      using represents_enc [OF bs] represents_enc [OF cs] s True
      by (intro representsI)
        (auto simp: Num_big read_simps at_cursor_append decode_longrat_cf_def
          represents_dec [OF bs] represents_dec [OF cs])
    then show ?thesis ..
  next
    case False
    then have "represents (encode_longrat_cf S) (decode_longrat_cf S) n (number_image n)
        (le_bytes 4 (unat s) @ bs)"
      using represents_enc [OF bs] s
      by (intro representsI)
        (auto simp: Num_big read_simps at_cursor_append decode_longrat_cf_def represents_dec [OF bs])
    then show ?thesis ..
  qed
qed (use assms in simp_all)

lemma represents_number:
  assumes "gmp_ok S"
  shows "number_ok S cf n \<Longrightarrow>
      \<exists>bs. represents (encode_number_cf S cf) (decode_number_cf S cf) n (number_image n) bs"
    and "poly_ok S r p \<Longrightarrow>
      \<exists>bs. represents (encode_poly_in S r) (decode_poly_in S r) p (map term_image p) bs"
    and "term_ok S r t \<Longrightarrow>
      \<exists>bs. represents (encode_term S r) (decode_term S r) t (term_image t) bs"
  using assms
proof (induction S cf n and S r p and S r t rule: number_ok_poly_ok_term_ok.induct)
  case (1 S r n)
  then obtain a b where n: "n = Num_frac a b" by (auto split: number.splits)
  from 1 n obtain as bs where
    as: "represents (encode_poly_in S r) (decode_poly_in S r) a (map term_image a) as" and
    bs: "represents (encode_poly_in S r) (decode_poly_in S r) b (map term_image b) bs"
    by (auto simp del: encode_poly_in.simps)
  have "represents (encode_number_cf S (Cf_transExt r)) (decode_number_cf S (Cf_transExt r)) n
      (number_image n) (as @ bs)"
    by (rule representsI)
      (auto simp: n represents_enc [OF as] represents_enc [OF bs] read_simps at_cursor_append
        represents_dec [OF as] represents_dec [OF bs] simp del: encode_poly_in.simps)
  then show ?case ..
next
  case (2 S r n)
  then obtain p where n: "n = Num_alg p" by (auto split: number.splits)
  from 2 n obtain ps where
    ps: "represents (encode_poly_in S r) (decode_poly_in S r) p (map term_image p) ps"
    by (auto simp del: encode_poly_in.simps)
  have "represents (encode_number_cf S (Cf_algExt r)) (decode_number_cf S (Cf_algExt r)) n
      (number_image n) ps"
    by (rule representsI)
      (auto simp: n represents_enc [OF ps] represents_dec [OF ps] simp del: encode_poly_in.simps)
  then show ?case ..
next
  case (3 S p n)
  then obtain k where n: "n = Num_Zp k" by (auto split: number.splits)
  have "represents (encode_number_cf S (Cf_Zp p)) (decode_number_cf S (Cf_Zp p)) n
      (number_image n) (le_bytes 8 (unat k))"
    by (rule representsI) (auto simp: n read_simps)
  then show ?case ..
next
  case (4 S n)
  then show ?case
    using represents_longrat [OF 4(2)] by (simp add: represents_def del: number_ok.simps)
next
  case (5 S nm n)
  then show ?case by simp
next
  case (6 S r p)
  then show ?case by (intro represents_poly) auto
next
  case (7 S r c k es)
  then show ?case by (intro represents_term) auto
qed

section \<open>A big-integer library to run examples with\<close>

fun magnitude :: "nat \<Rightarrow> bytes" where
  "magnitude v = (if v = 0 then [] else word_of_nat (v mod 256) # magnitude (v div 256))"

declare magnitude.simps [simp del]

lemma le_value_magnitude: "le_value (magnitude v) = v"
proof (induction v rule: magnitude.induct)
  case (1 v)
  then show ?case by (subst magnitude.simps) (auto simp: unat_of_nat)
qed

end
