(* ===== verification/Codec_Rings.thy ===== *)
theory Codec_Rings
  imports Codec_Numbers
begin

text \<open>
  lintree.cc, the encodings of ideals and of rings, and the functions that step over
  encoded polynomials, ideals and rings. A ring nests the rings of its coefficient
  domains; decoding follows the nesting of the input, so it takes fuel.
\<close>

section \<open>Ideals\<close>

text \<open>
  Only \<open>IDEAL_CMD\<close> is installed as a type, so the branches of \<open>encode_ideal\<close> for
  matrices and modules are never taken and are not modelled.
\<close>

definition encode_ideal_in :: "singular \<Rightarrow> poly list \<Rightarrow> ring \<Rightarrow> lintree \<Rightarrow> lintree flow" where
  "encode_ideal_in S I R lt =
     encode_each (encode_poly_in S R) I (put_int (word_of_nat (length I)) lt)"

definition decode_ideal_in :: "singular \<Rightarrow> ring \<Rightarrow> lintree \<Rightarrow> (poly list \<times> lintree) flow" where
  "decode_ideal_in S r lt = bind_flow (get_int lt) (\<lambda>(n, lt).
     decode_each (nat (sint n)) (decode_poly_in S r) lt)"

section \<open>Encoding a ring\<close>

text \<open>One block of the order. The weights of a block run from \<open>block0\<close> to \<open>block1\<close>.\<close>

definition n_weights :: "32 word \<Rightarrow> 32 word \<Rightarrow> nat" where
  "n_weights b0 b1 = nat (sint b1 - sint b0 + 1)"

fun encode_order :: "singular \<Rightarrow> order \<Rightarrow> lintree \<Rightarrow> lintree flow" where
  "encode_order S (Order k b0 b1 ws) lt =
     (let lt = put_int b1 (put_int b0 (put_int k lt))
      in if weighted_order S k then
           (if length ws < n_weights b0 b1 then Crash Out_of_bounds
            else encode_each encode_c_int (take (n_weights b0 b1) ws) lt)
         else if unsupported_order S k then Done (mark_error ''ring order not implemented'' lt)
         else Done lt)"

definition encode_name :: "bytes \<Rightarrow> lintree \<Rightarrow> lintree flow" where
  "encode_name nm lt = Done (put_cstring nm lt)"

definition put_ring_kind :: "coeffs \<Rightarrow> 32 word \<Rightarrow> lintree \<Rightarrow> lintree" where
  "put_ring_kind cf N lt =
     (case cf of
        Cf_Q \<Rightarrow> put_int N (put_int 0 lt)
      | Cf_Zp p \<Rightarrow> put_int N (put_int p lt)
      | Cf_transExt _ \<Rightarrow> put_int N (put_int (-1) lt)
      | Cf_algExt _ \<Rightarrow> put_int N (put_int (-2) lt)
      | Cf_other nm \<Rightarrow> put_cstring nm (put_int N (put_int (-3) lt)))"

text \<open>A ring that is the buffer's last ring, compared by address, is only referred to.\<close>

fun encode_ring_at :: "singular \<Rightarrow> ring \<Rightarrow> lintree \<Rightarrow> lintree flow" where
  "encode_ring_at S (Ring ad cf N nms ord q) lt =
     (if map_option r_addr (last_ring lt) = Some ad then Done (put_int (-5) lt)
      else if length nms < nat (sint N) then Crash Out_of_bounds
      else
        bind_flow (encode_each encode_name (take (nat (sint N)) nms) (put_ring_kind cf N lt)) (\<lambda>lt.
        bind_flow (encode_each (encode_order S) ord (put_int (word_of_nat (length ord)) lt)) (\<lambda>lt.
        bind_flow (case cf of
                     Cf_transExt e \<Rightarrow> encode_ring_at S e lt
                   | Cf_algExt e \<Rightarrow> encode_ring_at S e lt
                   | _ \<Rightarrow> Done lt) (\<lambda>lt.
        (case q of
           Some I \<Rightarrow> encode_ideal_in S I (Ring ad cf N nms ord q)
                       (put_int (word_of_nat (t_IDEAL_CMD (tok S))) lt)
         | None \<Rightarrow> Done (put_int 0 lt))))))"

definition encode_ring :: "singular \<Rightarrow> ring option \<Rightarrow> lintree \<Rightarrow> lintree flow" where
  "encode_ring S r lt =
     (case r of None \<Rightarrow> Done (put_int (-4) lt) | Some r \<Rightarrow> encode_ring_at S r lt)"

section \<open>Decoding a ring\<close>

definition decode_order :: "singular \<Rightarrow> lintree \<Rightarrow> (order \<times> lintree) flow" where
  "decode_order S lt =
     bind_flow (get_int lt) (\<lambda>(k, lt). bind_flow (get_int lt) (\<lambda>(b0, lt).
     bind_flow (get_int lt) (\<lambda>(b1, lt).
       if weighted_order S k then
         map_flow_value (\<lambda>(ws, lt). (Order k b0 b1 ws, lt)) (decode_each (n_weights b0 b1) get_int lt)
       else if unsupported_order S k then
         Done (Order k b0 b1 [], mark_error ''ring oder not implemented for lintrees'' lt)
       else Done (Order k b0 b1 [], lt))))"

definition with_qideal :: "poly list \<Rightarrow> ring \<Rightarrow> ring" where
  "with_qideal I r = Ring (r_addr r) (r_cf r) (r_N r) (r_names r) (r_order r) (Some I)"

text \<open>The end of \<open>decode_ring_raw\<close>: the new ring becomes the last ring, then its ideal.\<close>

definition finish_ring :: "singular \<Rightarrow> ring option \<Rightarrow> lintree \<Rightarrow> (ring option \<times> lintree) flow" where
  "finish_ring S r lt =
     bind_flow (get_int (set_last_ring r lt)) (\<lambda>(has_q, lt).
       if has_q \<noteq> 0 then
         (case r of
            None \<Rightarrow> Crash Null_deref
          | Some r \<Rightarrow> bind_flow (decode_ideal_in S r lt) (\<lambda>(I, lt).
              Done (Some (with_qideal I r), set_last_ring (Some (with_qideal I r)) lt)))
       else Done (r, lt))"

text \<open>
  \<open>decode_ring_raw\<close>. The constructors \<open>rDefault\<close> are Singular's; \<open>nInitChar\<close> makes the
  extension domain over the nested ring.
\<close>

fun decode_ring_raw :: "nat \<Rightarrow> singular \<Rightarrow> lintree \<Rightarrow> (ring option \<times> lintree) flow" where
  "decode_ring_raw 0 S lt = Out_of_fuel"
| "decode_ring_raw (Suc fuel) S lt =
     bind_flow (get_int lt) (\<lambda>(ch, lt). bind_flow (get_int lt) (\<lambda>(N, lt).
       if ch = -4 then Done (None, lt)
       else if ch = -5 then Done (last_ring lt, lt)
       else
         bind_flow
           (if ch = -1 \<or> ch = -2 \<or> ch = -3
            then map_flow_value (\<lambda>(nm, lt). (nFindCoeffByName S nm, lt)) (get_cstring lt)
            else Done (None, lt)) (\<lambda>(cf, lt).
         if (ch = -1 \<or> ch = -2 \<or> ch = -3) \<and> cf = None
         then Done (None, mark_error ''cannot find coeffient name'' lt)
         else
           bind_flow (decode_each (nat (sint N)) get_cstring lt) (\<lambda>(names, lt).
           bind_flow (get_int lt) (\<lambda>(num_ord, lt).
           bind_flow (decode_each (nat (sint num_ord)) (decode_order S) lt) (\<lambda>(ord, lt).
             if N = 0 then Done (None, lt)
             else if 0 \<le> sint ch then finish_ring S (Some (rDefault_ch S ch N names ord)) lt
             else if ch = -1 \<or> ch = -2 then
               bind_flow (decode_ring_raw fuel S lt) (\<lambda>(T, lt).
                 case T of
                   None \<Rightarrow> Done (None, lt)
                 | Some e \<Rightarrow> finish_ring S
                     (Some (rDefault_cf S (if ch = -1 then Cf_transExt e else Cf_algExt e) N names ord)) lt)
             else if ch = -3 then
               (case cf of
                  None \<Rightarrow> Done (None, lt)
                | Some cf \<Rightarrow> finish_ring S (Some (rDefault_cf S cf N names ord)) lt)
             else finish_ring S None lt))))))"

section \<open>Stepping over encoded values\<close>

text \<open>
  The functions \<open>ref_*\<close> walk over an encoding to change the reference counts of the
  shared objects in it. Numbers, polynomials and rings hold none, so these only move the
  cursor. \<open>ref_number_cf\<close> aborts the program for rationals.
\<close>

fun ref_number_cf :: "nat \<Rightarrow> coeffs \<Rightarrow> lintree \<Rightarrow> lintree flow"
  and ref_poly :: "nat \<Rightarrow> lintree \<Rightarrow> lintree flow" where
  "ref_number_cf 0 cf lt = Out_of_fuel"
| "ref_number_cf (Suc fuel) cf lt =
     (case cf of
        Cf_transExt _ \<Rightarrow> bind_flow (ref_poly fuel lt) (ref_poly fuel)
      | Cf_algExt _ \<Rightarrow> ref_poly fuel lt
      | Cf_Zp _ \<Rightarrow> Done (skip_long lt)
      | _ \<Rightarrow> Crash Aborted)"
| "ref_poly 0 lt = Out_of_fuel"
| "ref_poly (Suc fuel) lt =
     (case last_ring lt of
        None \<Rightarrow> Crash Null_deref
      | Some r \<Rightarrow> bind_flow (get_int lt) (\<lambda>(len, lt).
          skip_each (nat (sint len)) (\<lambda>lt.
            bind_flow (ref_number_cf fuel (r_cf r) lt) (\<lambda>lt.
              skip_each (nat (sint (r_N r))) (\<lambda>lt. Done (skip_int lt)) (skip_int lt))) lt))"

definition ref_ideal :: "nat \<Rightarrow> lintree \<Rightarrow> lintree flow" where
  "ref_ideal fuel lt = bind_flow (get_int lt) (\<lambda>(n, lt). skip_each (nat (sint n)) (ref_poly fuel) lt)"

text \<open>
  \<open>ref_ring\<close> reads \<open>num_ord\<close> but steps over \<open>N\<close> blocks, and forgets the ideal.
\<close>

fun ref_ring :: "nat \<Rightarrow> singular \<Rightarrow> lintree \<Rightarrow> lintree flow" where
  "ref_ring 0 S lt = Out_of_fuel"
| "ref_ring (Suc fuel) S lt =
     bind_flow (get_int lt) (\<lambda>(ch, lt). bind_flow (get_int lt) (\<lambda>(N, lt).
       if ch = -3 then skip_cstring lt
       else if ch = -4 \<or> ch = -5 then Done lt
       else
         bind_flow (skip_each (nat (sint N)) skip_cstring lt) (\<lambda>lt.
         bind_flow (get_int lt) (\<lambda>(num_ord, lt).
         bind_flow (skip_each (nat (sint N)) (\<lambda>lt.
             bind_flow (get_int lt) (\<lambda>(ord, lt). bind_flow (get_int lt) (\<lambda>(b0, lt).
             bind_flow (get_int lt) (\<lambda>(b1, lt).
               if weighted_order S ord
               then skip_each (n_weights b0 b1) (\<lambda>lt. Done (skip_int lt)) lt
               else Done lt)))) lt) (\<lambda>lt.
           if N \<noteq> 0 \<and> (ch = -1 \<or> ch = -2) then ref_ring fuel S lt else Done lt)))))"

section \<open>Round trips\<close>

text \<open>An order block that is supported and carries its weights.\<close>

fun order_ok :: "singular \<Rightarrow> order \<Rightarrow> bool" where
  "order_ok S (Order k b0 b1 ws) =
     (if weighted_order S k then length ws = n_weights b0 b1
      else \<not> unsupported_order S k \<and> ws = [])"

lemma represents_order:
  assumes "order_ok S x"
  shows "\<exists>bs. represents (encode_order S) (decode_order S) x x bs"
proof (cases x)
  case (Order k b0 b1 ws)
  from represents_ints obtain cs where
    cs: "represents (encode_each encode_c_int) (decode_each (length ws) get_int) ws ws cs" by blast
  show ?thesis
  proof (cases "weighted_order S k")
    case True
    then have n: "n_weights b0 b1 = length ws" using assms Order by simp
    have "represents (encode_order S) (decode_order S) x x
        (le_bytes 4 (unat k) @ le_bytes 4 (unat b0) @ le_bytes 4 (unat b1) @ cs)"
      by (intro representsI)
        (auto simp: True Order n represents_enc [OF cs] read_simps decode_order_def at_cursor_append
          represents_dec [OF cs])
    then show ?thesis ..
  next
    case False
    then have "represents (encode_order S) (decode_order S) x x
        (le_bytes 4 (unat k) @ le_bytes 4 (unat b0) @ le_bytes 4 (unat b1))"
      using assms Order
      by (intro representsI) (auto simp: read_simps decode_order_def at_cursor_append)
    then show ?thesis ..
  qed
qed

lemma represents_name:
  assumes "length (c_string nm) < 2 ^ 64" and "c_string nm = nm"
  shows "represents encode_name get_cstring nm nm (cstring_bytes nm)"
  using assms by (intro representsI) (auto simp: encode_name_def read_simps)

lemma represents_ideal:
  assumes "gmp_ok S" and "length I < 2 ^ 31" and "\<And>p. p \<in> set I \<Longrightarrow> poly_ok S r p"
  shows "\<exists>bs. represents (\<lambda>I. encode_ideal_in S I r) (decode_ideal_in S r) I (map (map term_image) I) bs"
proof -
  from represents_each [of I "encode_poly_in S r" "decode_poly_in S r" "map term_image"]
  obtain bs where bs: "represents (encode_each (encode_poly_in S r))
      (decode_each (length I) (decode_poly_in S r)) I (map (map term_image) I) bs"
    using represents_number(2) [OF assms(1)] assms(3) by blast
  let ?w = "word_of_nat (length I) :: 32 word"
  have "represents (\<lambda>I. encode_ideal_in S I r) (decode_ideal_in S r) I (map (map term_image) I)
      (le_bytes 4 (unat ?w) @ bs)"
    using sint_word_of_nat32 [OF assms(2)]
    by (intro representsI)
      (auto simp: encode_ideal_in_def decode_ideal_in_def represents_enc [OF bs] read_simps
        at_cursor_append represents_dec [OF bs])
  then show ?thesis ..
qed

end
