(* ===== verification/Lin_Codec.thy ===== *)
theory Lin_Codec
  imports Codec_Rings
begin

text \<open>
  lintree.cc, the registry of codecs and the encoding of whole interpreter values, with
  the codec of shared objects that shared.cc adds. Encoding follows the structure of the
  value; decoding and the update of reference counts follow the input and take fuel.
\<close>

section \<open>The registry\<close>

text \<open>
  The function pointers that can be installed, named by the type they are written for.
  The vectors \<open>encoders\<close>, \<open>decoders\<close> and \<open>refupdaters\<close> hold them, \<open>None\<close> is NULL.
\<close>

datatype codec_fn =
    C_none | C_int | C_list | C_string | C_command | C_def | C_number | C_bigint
  | C_intmat | C_ring | C_poly | C_ideal | C_shared

record registry =
  encoders :: "codec_fn option list"
  decoders :: "codec_fn option list"
  refupdaters :: "codec_fn option list"
  needs_ring :: "bool list"

definition empty_registry :: registry where
  "empty_registry = \<lparr>encoders = [], decoders = [], refupdaters = [], needs_ring = []\<rparr>"

definition resize_to :: "nat \<Rightarrow> 'a \<Rightarrow> 'a list \<Rightarrow> 'a list" where
  "resize_to n z xs = take n xs @ replicate (n - length xs) z"

definition resize_registry :: "nat \<Rightarrow> registry \<Rightarrow> registry" where
  "resize_registry n R =
     \<lparr>encoders = resize_to n None (encoders R), decoders = resize_to n None (decoders R),
      refupdaters = resize_to n None (refupdaters R), needs_ring = resize_to n False (needs_ring R)\<rparr>"

text \<open>The loop of \<open>install\<close>: double until the index fits.\<close>

function grow_registry :: "nat \<Rightarrow> registry \<Rightarrow> registry" where
  "grow_registry typ R =
     (let n = length (encoders R)
      in if typ < n then R
         else grow_registry typ (resize_registry (if n = 0 then 256 else n * 2) R))"
  by pat_completeness auto

termination
  by (relation "measure (\<lambda>(typ, R). Suc typ - length (encoders R))")
    (auto simp: resize_registry_def resize_to_def intro: diff_less_mono2)

declare grow_registry.simps [simp del]

definition install :: "nat \<Rightarrow> codec_fn \<Rightarrow> codec_fn \<Rightarrow> codec_fn \<Rightarrow> registry \<Rightarrow> registry" where
  "install typ enc dec ref R =
     (let R = grow_registry typ R
      in R\<lparr>encoders := (encoders R)[typ := Some enc], decoders := (decoders R)[typ := Some dec],
           refupdaters := (refupdaters R)[typ := Some ref]\<rparr>)"

definition set_needs_ring :: "nat \<Rightarrow> registry \<Rightarrow> registry" where
  "set_needs_ring typ R = R\<lparr>needs_ring := (needs_ring R)[typ := True]\<rparr>"

text \<open>\<open>LinTree::init\<close>, and \<open>installShared\<close> for a type of shared objects.\<close>

definition init_lintree :: "tokens \<Rightarrow> registry \<Rightarrow> registry" where
  "init_lintree T R =
     (let R = install (t_NONE T) C_none C_none C_none R;
          R = install (t_INT_CMD T) C_int C_int C_int R;
          R = install (t_LIST_CMD T) C_list C_list C_list R;
          R = install (t_STRING_CMD T) C_string C_string C_string R;
          R = install (t_COMMAND T) C_command C_command C_command R;
          R = install (t_DEF_CMD T) C_def C_def C_def R;
          R = install (t_NUMBER_CMD T) C_number C_number C_number R;
          R = install (t_BIGINT_CMD T) C_bigint C_bigint C_bigint R;
          R = install (t_INTMAT_CMD T) C_intmat C_intmat C_intmat R;
          R = set_needs_ring (t_NUMBER_CMD T) R;
          R = install (t_RING_CMD T) C_ring C_ring C_ring R;
          R = install (t_POLY_CMD T) C_poly C_poly C_poly R;
          R = set_needs_ring (t_POLY_CMD T) R;
          R = install (t_IDEAL_CMD T) C_ideal C_ideal C_ideal R
      in set_needs_ring (t_IDEAL_CMD T) R)"

definition install_shared :: "nat \<Rightarrow> registry \<Rightarrow> registry" where
  "install_shared typ R = install typ C_shared C_shared C_shared R"

section \<open>Encoding\<close>

definition put_text :: "bytes \<Rightarrow> lintree \<Rightarrow> lintree" where
  "put_text p lt = put_bytes (c_string p) (put_size (length (c_string p)) lt)"

text \<open>One function per \<open>encode_*\<close>; a value of another shape is a type confusion.\<close>

fun encode_none :: "leftv \<Rightarrow> lintree \<Rightarrow> lintree flow" where
  "encode_none v lt = Done lt"

fun encode_int :: "leftv \<Rightarrow> lintree \<Rightarrow> lintree flow" where
  "encode_int (L_int k) lt = Done (put_long k lt)"
| "encode_int _ lt = Crash Type_confusion"

fun encode_string :: "leftv \<Rightarrow> lintree \<Rightarrow> lintree flow" where
  "encode_string (L_string p) lt = Done (put_text p lt)"
| "encode_string _ lt = Crash Type_confusion"

fun encode_def :: "leftv \<Rightarrow> lintree \<Rightarrow> lintree flow" where
  "encode_def (L_def p) lt = Done (put_text p lt)"
| "encode_def _ lt = Crash Type_confusion"

fun encode_number :: "singular \<Rightarrow> leftv \<Rightarrow> lintree \<Rightarrow> lintree flow" where
  "encode_number S (L_number n) lt =
     (case last_ring lt of
        None \<Rightarrow> Crash Null_deref
      | Some r \<Rightarrow> encode_number_cf S (r_cf r) n lt)"
| "encode_number S _ lt = Crash Type_confusion"

fun encode_bigint :: "singular \<Rightarrow> leftv \<Rightarrow> lintree \<Rightarrow> lintree flow" where
  "encode_bigint S (L_bigint n) lt = encode_number_cf S (coeffs_BIGINT S) n lt"
| "encode_bigint S _ lt = Crash Type_confusion"

fun encode_intmat :: "leftv \<Rightarrow> lintree \<Rightarrow> lintree flow" where
  "encode_intmat (L_intmat rows cols v) lt =
     encode_each encode_c_int v (put_int cols (put_int rows lt))"
| "encode_intmat _ lt = Crash Type_confusion"

text \<open>Without a last ring only the empty polynomial does not touch the null pointer.\<close>

definition encode_poly_last :: "singular \<Rightarrow> poly \<Rightarrow> lintree \<Rightarrow> lintree flow" where
  "encode_poly_last S p lt =
     (case last_ring lt of
        Some r \<Rightarrow> encode_poly_in S r p lt
      | None \<Rightarrow> if p = [] then Done (put_int 0 lt) else Crash Null_deref)"

fun encode_poly :: "singular \<Rightarrow> leftv \<Rightarrow> lintree \<Rightarrow> lintree flow" where
  "encode_poly S (L_poly p) lt = encode_poly_last S p lt"
| "encode_poly S _ lt = Crash Type_confusion"

fun encode_ideal :: "singular \<Rightarrow> leftv \<Rightarrow> lintree \<Rightarrow> lintree flow" where
  "encode_ideal S (L_ideal I) lt =
     (case last_ring lt of
        Some r \<Rightarrow> encode_ideal_in S I r lt
      | None \<Rightarrow> encode_each (encode_poly_last S) I (put_int (word_of_nat (length I)) lt))"
| "encode_ideal S _ lt = Crash Type_confusion"

fun encode_ring_value :: "singular \<Rightarrow> leftv \<Rightarrow> lintree \<Rightarrow> lintree flow" where
  "encode_ring_value S (L_ring r) lt = encode_ring S r lt"
| "encode_ring_value S _ lt = Crash Type_confusion"

text \<open>A shared object is written as its address and acquired.\<close>

definition change_ref :: "64 word \<Rightarrow> int \<Rightarrow> lintree \<Rightarrow> lintree" where
  "change_ref obj by lt = lt\<lparr>refs := (refs lt)(obj := refs lt obj + by)\<rparr>"

fun encode_shared :: "leftv \<Rightarrow> lintree \<Rightarrow> lintree flow" where
  "encode_shared (L_blackbox typ obj) lt =
     (if obj = 0 then Crash Null_deref else Done (put_long obj (change_ref obj 1 lt)))"
| "encode_shared _ lt = Crash Type_confusion"

text \<open>\<open>encode_list\<close> and \<open>encode_command\<close> over the function that encodes their parts.\<close>

fun encode_list :: "singular \<Rightarrow> (leftv \<Rightarrow> lintree \<Rightarrow> lintree flow) \<Rightarrow> leftv \<Rightarrow> lintree \<Rightarrow> lintree flow" where
  "encode_list S enc (L_list l) lt =
     (let n = lSize S l
      in bind_flow (encode_each enc (take (nat (n + 1)) l) (put_int (word_of_int n) lt)) (\<lambda>lt.
           if length l < nat (n + 1) then Crash Out_of_bounds else Done lt))"
| "encode_list S enc _ lt = Crash Type_confusion"

fun encode_command :: "(leftv \<Rightarrow> lintree \<Rightarrow> lintree flow) \<Rightarrow> leftv \<Rightarrow> lintree \<Rightarrow> lintree flow" where
  "encode_command enc (L_command cop argc a1 a2 a3) lt =
     bind_flow (if 1 \<le> sint argc then enc a1 (put_int argc (put_int cop lt))
                else Done (put_int argc (put_int cop lt))) (\<lambda>lt.
     if sint argc < 4 then
       bind_flow (if 2 \<le> sint argc then enc a2 lt else Done lt) (\<lambda>lt.
       if 3 \<le> sint argc then enc a3 lt else Done lt)
     else Done lt)"
| "encode_command enc _ lt = Crash Type_confusion"

lemma encode_list_cong [fundef_cong]:
  assumes "v = v'" and "lt = lt'"
    and "\<And>l x lt. v' = L_list l \<Longrightarrow> x \<in> set l \<Longrightarrow> enc x lt = enc' x lt"
  shows "encode_list S enc v lt = encode_list S enc' v' lt'"
proof (cases v')
  case (L_list l)
  then have "encode_each enc (take n l) m = encode_each enc' (take n l) m" for n m
    using assms(3) by (intro encode_each_cong refl) (auto dest: in_set_takeD)
  then show ?thesis using L_list assms by simp
qed (use assms in simp_all)

lemma encode_command_cong [fundef_cong]:
  assumes "v = v'" and "lt = lt'"
    and "\<And>cop argc a b c x lt. v' = L_command cop argc a b c \<Longrightarrow> x \<in> {a, b, c} \<Longrightarrow> enc x lt = enc' x lt"
  shows "encode_command enc v lt = encode_command enc' v' lt'"
proof (cases v')
  case (L_command cop argc a b c)
  have "enc a = enc' a" "enc b = enc' b" "enc c = enc' c"
    using assms(3) [OF L_command] by auto
  then show ?thesis unfolding assms(1,2) L_command by (simp only: encode_command.simps)
qed (use assms in simp_all)

text \<open>
  \<open>encode\<close>: before the first value that needs a ring, the current ring is written behind
  the marker \<open>-1\<close> and becomes the last ring.
\<close>

definition lookup_codec :: "codec_fn option list \<Rightarrow> nat \<Rightarrow> codec_fn option" where
  "lookup_codec xs typ = (if typ < length xs then xs ! typ else None)"

definition encode_prefix :: "singular \<Rightarrow> registry \<Rightarrow> nat \<Rightarrow> lintree \<Rightarrow> lintree flow" where
  "encode_prefix S R typ lt =
     (if needs_ring R ! typ \<and> \<not> has_last_ring lt
      then map_flow_value (set_last_ring (currRing S)) (encode_ring S (currRing S) (put_int (-1) lt))
      else Done lt)"

fun encode :: "singular \<Rightarrow> registry \<Rightarrow> leftv \<Rightarrow> lintree \<Rightarrow> lintree flow" where
  "encode S R v lt =
     (let typ = Typ (tok S) v
      in case lookup_codec (encoders R) typ of
           None \<Rightarrow> Done (mark_error ''trying to share unsupported data type'' lt)
         | Some fn \<Rightarrow>
             bind_flow (encode_prefix S R typ lt) (\<lambda>lt.
             let lt = put_int (word_of_nat typ) lt
             in case fn of
                  C_none \<Rightarrow> encode_none v lt
                | C_int \<Rightarrow> encode_int v lt
                | C_string \<Rightarrow> encode_string v lt
                | C_def \<Rightarrow> encode_def v lt
                | C_number \<Rightarrow> encode_number S v lt
                | C_bigint \<Rightarrow> encode_bigint S v lt
                | C_intmat \<Rightarrow> encode_intmat v lt
                | C_ring \<Rightarrow> encode_ring_value S v lt
                | C_poly \<Rightarrow> encode_poly S v lt
                | C_ideal \<Rightarrow> encode_ideal S v lt
                | C_shared \<Rightarrow> encode_shared v lt
                | C_list \<Rightarrow> encode_list S (encode S R) v lt
                | C_command \<Rightarrow> encode_command (encode S R) v lt))"

declare encode.simps [simp del]

end
