(* ===== verification/Lin_Decode.thy ===== *)
theory Lin_Decode
  imports Lin_Codec
begin

text \<open>
  lintree.cc, decoding of interpreter values, the update of the reference counts inside
  an encoding, and the conversion of a value to a string and back. Decoding follows the
  input, so the recursive functions take fuel; one unit per level of nesting.
\<close>

section \<open>Decoding\<close>

definition get_text :: "lintree \<Rightarrow> (bytes \<times> lintree) flow" where
  "get_text lt = bind_flow (get_size lt) (\<lambda>(len, lt). get_bytes len lt)"

definition decode_none :: "lintree \<Rightarrow> (leftv \<times> lintree) flow" where
  "decode_none lt = Done (L_none, lt)"

definition decode_int :: "lintree \<Rightarrow> (leftv \<times> lintree) flow" where
  "decode_int lt = map_flow_value (\<lambda>(k, lt). (L_int k, lt)) (get_long lt)"

definition decode_string :: "lintree \<Rightarrow> (leftv \<times> lintree) flow" where
  "decode_string lt = map_flow_value (\<lambda>(p, lt). (L_string p, lt)) (get_text lt)"

text \<open>A name is looked up, a command is executed: both by \<open>Eval\<close>.\<close>

definition eval_result :: "singular \<Rightarrow> string \<Rightarrow> leftv \<Rightarrow> lintree \<Rightarrow> leftv \<times> lintree" where
  "eval_result S msg v lt =
     (case Eval S v of (w, err) \<Rightarrow> (w, if err then mark_error msg lt else lt))"

definition decode_def :: "singular \<Rightarrow> lintree \<Rightarrow> (leftv \<times> lintree) flow" where
  "decode_def S lt =
     map_flow_value (\<lambda>(p, lt). eval_result S ''error in name lookup'' (L_def p) lt) (get_text lt)"

definition decode_number :: "singular \<Rightarrow> lintree \<Rightarrow> (leftv \<times> lintree) flow" where
  "decode_number S lt =
     (case last_ring lt of
        None \<Rightarrow> Crash Null_deref
      | Some r \<Rightarrow> map_flow_value (\<lambda>(n, lt). (L_number n, lt)) (decode_number_cf S (r_cf r) lt))"

definition decode_bigint :: "singular \<Rightarrow> lintree \<Rightarrow> (leftv \<times> lintree) flow" where
  "decode_bigint S lt =
     map_flow_value (\<lambda>(n, lt). (L_bigint n, lt)) (decode_number_cf S (coeffs_BIGINT S) lt)"

definition decode_intmat :: "lintree \<Rightarrow> (leftv \<times> lintree) flow" where
  "decode_intmat lt =
     bind_flow (get_int lt) (\<lambda>(rows, lt). bind_flow (get_int lt) (\<lambda>(cols, lt).
     map_flow_value (\<lambda>(v, lt). (L_intmat rows cols v, lt))
       (decode_each (nat (sint (rows * cols))) get_int lt)))"

definition decode_poly_last :: "singular \<Rightarrow> lintree \<Rightarrow> (poly \<times> lintree) flow" where
  "decode_poly_last S lt =
     (case last_ring lt of
        Some r \<Rightarrow> decode_poly_in S r lt
      | None \<Rightarrow> bind_flow (get_int lt) (\<lambda>(len, lt).
          if sint len \<le> 0 then Done ([], lt) else Crash Null_deref))"

definition decode_poly :: "singular \<Rightarrow> lintree \<Rightarrow> (leftv \<times> lintree) flow" where
  "decode_poly S lt = map_flow_value (\<lambda>(p, lt). (L_poly p, lt)) (decode_poly_last S lt)"

definition decode_ideal :: "singular \<Rightarrow> lintree \<Rightarrow> (leftv \<times> lintree) flow" where
  "decode_ideal S lt =
     map_flow_value (\<lambda>(I, lt). (L_ideal I, lt))
       (case last_ring lt of
          Some r \<Rightarrow> decode_ideal_in S r lt
        | None \<Rightarrow> bind_flow (get_int lt) (\<lambda>(n, lt). decode_each (nat (sint n)) (decode_poly_last S) lt))"

definition decode_ring :: "nat \<Rightarrow> singular \<Rightarrow> lintree \<Rightarrow> (leftv \<times> lintree) flow" where
  "decode_ring fuel S lt = map_flow_value (\<lambda>(r, lt). (L_ring r, lt)) (decode_ring_raw fuel S lt)"

text \<open>The type of a shared object is the int before the cursor; the object is acquired.\<close>

definition decode_shared :: "lintree \<Rightarrow> (leftv \<times> lintree) flow" where
  "decode_shared lt =
     bind_flow (get_prev_int lt) (\<lambda>typ. bind_flow (get_long lt) (\<lambda>(obj, lt).
       if obj = 0 then Crash Null_deref
       else Done (L_blackbox (unat typ) obj, change_ref obj 1 lt)))"

definition decode_list :: "(lintree \<Rightarrow> (leftv \<times> lintree) flow) \<Rightarrow> lintree \<Rightarrow> (leftv \<times> lintree) flow" where
  "decode_list dec lt = bind_flow (get_int lt) (\<lambda>(n, lt).
     map_flow_value (\<lambda>(l, lt). (L_list l, lt)) (decode_each (nat (sint n + 1)) dec lt))"

text \<open>Slots of a command that are not decoded stay zeroed.\<close>

definition decode_arg :: "bool \<Rightarrow> (lintree \<Rightarrow> (leftv \<times> lintree) flow) \<Rightarrow> lintree \<Rightarrow> (leftv \<times> lintree) flow" where
  "decode_arg present dec lt = (if present then dec lt else Done (L_undef, lt))"

definition decode_command :: "singular \<Rightarrow> (lintree \<Rightarrow> (leftv \<times> lintree) flow) \<Rightarrow> lintree \<Rightarrow> (leftv \<times> lintree) flow" where
  "decode_command S dec lt =
     bind_flow (get_int lt) (\<lambda>(cop, lt). bind_flow (get_int lt) (\<lambda>(argc, lt).
     bind_flow (decode_arg (1 \<le> sint argc) dec lt) (\<lambda>(a, lt).
     bind_flow (decode_arg (2 \<le> sint argc \<and> sint argc < 4) dec lt) (\<lambda>(b, lt).
     bind_flow (decode_arg (3 \<le> sint argc \<and> sint argc < 4) dec lt) (\<lambda>(c, lt).
     Done (eval_result S ''error in eval'' (L_command cop argc a b c) lt))))))"

text \<open>
  \<open>decode\<close>. The index into the vector of decoders is not checked: outside of it is a
  fault, and so is a type without a decoder.
\<close>

definition find_codec :: "codec_fn option list \<Rightarrow> 32 word \<Rightarrow> codec_fn flow" where
  "find_codec fns typ =
     (if sint typ < 0 \<or> length fns \<le> nat (sint typ) then Crash Out_of_bounds
      else case fns ! nat (sint typ) of None \<Rightarrow> Crash Null_deref | Some fn \<Rightarrow> Done fn)"

definition decode_prefix :: "nat \<Rightarrow> singular \<Rightarrow> lintree \<Rightarrow> (32 word \<times> lintree) flow" where
  "decode_prefix fuel S lt =
     bind_flow (get_int lt) (\<lambda>(typ, lt).
       if sint typ < 0 then
         bind_flow (decode_ring_raw fuel S lt) (\<lambda>(r, lt). get_int (set_last_ring r lt))
       else Done (typ, lt))"

fun decode :: "nat \<Rightarrow> singular \<Rightarrow> registry \<Rightarrow> lintree \<Rightarrow> (leftv \<times> lintree) flow" where
  "decode 0 S R lt = Out_of_fuel"
| "decode (Suc k) S R lt =
     bind_flow (decode_prefix k S lt) (\<lambda>(typ, lt).
     bind_flow (find_codec (decoders R) typ) (\<lambda>fn.
       case fn of
         C_none \<Rightarrow> decode_none lt
       | C_int \<Rightarrow> decode_int lt
       | C_list \<Rightarrow> decode_list (decode k S R) lt
       | C_string \<Rightarrow> decode_string lt
       | C_command \<Rightarrow> decode_command S (decode k S R) lt
       | C_def \<Rightarrow> decode_def S lt
       | C_number \<Rightarrow> decode_number S lt
       | C_bigint \<Rightarrow> decode_bigint S lt
       | C_intmat \<Rightarrow> decode_intmat lt
       | C_ring \<Rightarrow> decode_ring k S lt
       | C_poly \<Rightarrow> decode_poly S lt
       | C_ideal \<Rightarrow> decode_ideal S lt
       | C_shared \<Rightarrow> decode_shared lt))"

section \<open>Updating reference counts\<close>

definition skip_text :: "lintree \<Rightarrow> lintree flow" where
  "skip_text lt = map_flow_value (\<lambda>(len, lt). skip_bytes len lt) (get_size lt)"

definition ref_number :: "nat \<Rightarrow> lintree \<Rightarrow> lintree flow" where
  "ref_number fuel lt =
     (case last_ring lt of None \<Rightarrow> Crash Null_deref | Some r \<Rightarrow> ref_number_cf fuel (r_cf r) lt)"

definition ref_intmat :: "lintree \<Rightarrow> lintree flow" where
  "ref_intmat lt =
     bind_flow (get_int lt) (\<lambda>(rows, lt). bind_flow (get_int lt) (\<lambda>(cols, lt).
     skip_each (nat (sint (rows * cols))) (\<lambda>lt. map_flow_value snd (get_int lt)) lt))"

text \<open>
  \<open>ref_shared\<close> calls \<open>incref\<close> or \<open>decref\<close> as often as \<open>by\<close> says, each a step of one.
\<close>

definition ref_shared :: "int \<Rightarrow> lintree \<Rightarrow> lintree flow" where
  "ref_shared by lt = bind_flow (get_long lt) (\<lambda>(obj, lt).
     if by \<noteq> 0 \<and> obj = 0 then Crash Null_deref else Done (change_ref obj by lt))"

text \<open>\<open>ref_list\<close> steps over \<open>n\<close> elements, although \<open>n\<close> is the index of the last one.\<close>

definition ref_list :: "(lintree \<Rightarrow> lintree flow) \<Rightarrow> lintree \<Rightarrow> lintree flow" where
  "ref_list upd lt = bind_flow (get_int lt) (\<lambda>(n, lt). skip_each (nat (sint n)) upd lt)"

definition ref_command :: "(lintree \<Rightarrow> lintree flow) \<Rightarrow> lintree \<Rightarrow> lintree flow" where
  "ref_command upd lt =
     bind_flow (get_int lt) (\<lambda>(cop, lt). bind_flow (get_int lt) (\<lambda>(argc, lt).
     bind_flow (if 1 \<le> sint argc then upd lt else Done lt) (\<lambda>lt.
     if sint argc < 4 then
       bind_flow (if 2 \<le> sint argc then upd lt else Done lt) (\<lambda>lt.
       if 3 \<le> sint argc then upd lt else Done lt)
     else Done lt)))"

fun updateref :: "nat \<Rightarrow> singular \<Rightarrow> registry \<Rightarrow> int \<Rightarrow> lintree \<Rightarrow> lintree flow" where
  "updateref 0 S R by lt = Out_of_fuel"
| "updateref (Suc k) S R by lt =
     bind_flow (get_int lt) (\<lambda>(typ, lt).
     bind_flow (find_codec (refupdaters R) typ) (\<lambda>fn.
       case fn of
         C_none \<Rightarrow> Done lt
       | C_int \<Rightarrow> Done (skip_long lt)
       | C_list \<Rightarrow> ref_list (updateref k S R by) lt
       | C_string \<Rightarrow> skip_text lt
       | C_command \<Rightarrow> ref_command (updateref k S R by) lt
       | C_def \<Rightarrow> skip_text lt
       | C_number \<Rightarrow> ref_number k lt
       | C_bigint \<Rightarrow> ref_number_cf k (coeffs_BIGINT S) lt
       | C_intmat \<Rightarrow> ref_intmat lt
       | C_ring \<Rightarrow> ref_ring k S lt
       | C_poly \<Rightarrow> ref_poly k lt
       | C_ideal \<Rightarrow> ref_ideal k lt
       | C_shared \<Rightarrow> ref_shared by lt))"

section \<open>Strings\<close>

text \<open>
  \<open>to_string\<close> and \<open>from_string\<close>. On an error the encoding is replaced by that of
  \<open>NONE\<close>, the decoded value by \<open>NONE\<close>; the reference counts keep their changes. The
  message goes to \<open>Werror\<close>.
\<close>

definition to_string :: "singular \<Rightarrow> registry \<Rightarrow> leftv \<Rightarrow> (64 word \<Rightarrow> int) \<Rightarrow> (bytes \<times> (64 word \<Rightarrow> int)) flow" where
  "to_string S R v rc = map_flow_value (\<lambda>lt.
     let lt = (if has_error lt then put_int (word_of_nat (t_NONE (tok S))) (clear lt) else lt)
     in (memory lt, refs lt)) (encode S R v (new_lintree rc))"

definition from_string :: "nat \<Rightarrow> singular \<Rightarrow> registry \<Rightarrow> bytes \<Rightarrow> (64 word \<Rightarrow> int) \<Rightarrow> (leftv \<times> (64 word \<Rightarrow> int)) flow" where
  "from_string fuel S R str rc = map_flow_value (\<lambda>(v, lt).
     (if has_error lt then L_none else v, refs lt)) (decode fuel S R (source_lintree str rc))"

end
