(* ===== verification/Lin_Registry.thy ===== *)
theory Lin_Registry
  imports Lin_Decode
begin

text \<open>
  What the registry promises: installing a codec grows the vectors until the type fits,
  registers the three functions for that type and leaves all others alone. The registry
  after \<open>LinTree::init\<close> serves every type of the interpreter the library encodes.
\<close>

section \<open>The vectors stay of one length\<close>

definition registry_wf :: "registry \<Rightarrow> bool" where
  "registry_wf R \<longleftrightarrow> length (decoders R) = length (encoders R) \<and>
     length (refupdaters R) = length (encoders R) \<and> length (needs_ring R) = length (encoders R)"

definition wants_ring :: "registry \<Rightarrow> nat \<Rightarrow> bool" where
  "wants_ring R typ \<longleftrightarrow> typ < length (needs_ring R) \<and> needs_ring R ! typ"

text \<open>The abstract registry: three partial functions and a set.\<close>

definition registry_abs :: "registry \<Rightarrow>
    (nat \<Rightarrow> codec_fn option) \<times> (nat \<Rightarrow> codec_fn option) \<times> (nat \<Rightarrow> codec_fn option) \<times> nat set" where
  "registry_abs R = (lookup_codec (encoders R), lookup_codec (decoders R),
     lookup_codec (refupdaters R), {typ. wants_ring R typ})"

lemma lookup_resize: "length xs \<le> n \<Longrightarrow> lookup_codec (resize_to n None xs) = lookup_codec xs"
  by (auto simp: lookup_codec_def resize_to_def nth_append)

lemma lookup_update:
  "typ < length xs \<Longrightarrow> lookup_codec (xs[typ := Some c]) = (lookup_codec xs)(typ := Some c)"
  by (auto simp: lookup_codec_def nth_list_update)

lemma length_resize_to [simp]: "length (resize_to n z xs) = n"
  by (simp add: resize_to_def)

lemma abs_resize:
  assumes "registry_wf R" and "length (encoders R) \<le> n"
  shows "registry_wf (resize_registry n R)" and "registry_abs (resize_registry n R) = registry_abs R"
  using assms
  by (auto simp: registry_wf_def registry_abs_def resize_registry_def lookup_resize wants_ring_def)
    (auto simp: resize_to_def nth_append split: if_splits)

lemma grow_registry:
  assumes "registry_wf R"
  shows "registry_wf (grow_registry typ R) \<and> registry_abs (grow_registry typ R) = registry_abs R \<and>
    typ < length (encoders (grow_registry typ R))"
  using assms
proof (induction "typ" R rule: grow_registry.induct)
  case (1 "typ" R)
  let ?n = "if length (encoders R) = 0 then 256 else length (encoders R) * 2"
  show ?case
  proof (cases "typ < length (encoders R)")
    case True
    then show ?thesis using 1 by (subst (1 2 3) grow_registry.simps) simp
  next
    case False
    have "registry_wf (resize_registry ?n R)" "registry_abs (resize_registry ?n R) = registry_abs R"
      using 1(2) by (auto intro!: abs_resize)
    then show ?thesis
      using 1(1) [OF refl False] False by (subst (1 2 3) grow_registry.simps) (simp add: Let_def)
  qed
qed

lemma wf_install [simp]: "registry_wf R \<Longrightarrow> registry_wf (install typ enc dec ref R)"
  using grow_registry [of R "typ"] by (simp add: install_def Let_def registry_wf_def)

lemma abs_install:
  assumes "registry_wf R"
  shows "registry_abs (install typ enc dec ref R) =
    (case registry_abs R of (e, d, f, N) \<Rightarrow> (e(typ := Some enc), d(typ := Some dec), f(typ := Some ref), N))"
proof -
  let ?G = "grow_registry typ R"
  have wf: "registry_wf ?G" and same: "registry_abs ?G = registry_abs R"
    and fits: "typ < length (encoders ?G)" using grow_registry [OF assms] by auto
  have "registry_abs (install typ enc dec ref R) =
      (case registry_abs ?G of (e, d, f, N) \<Rightarrow> (e(typ := Some enc), d(typ := Some dec), f(typ := Some ref), N))"
    using wf fits
    by (simp add: install_def Let_def registry_wf_def registry_abs_def lookup_update wants_ring_def)
  then show ?thesis by (simp only: same)
qed

lemma wf_set_needs_ring [simp]: "registry_wf R \<Longrightarrow> registry_wf (set_needs_ring typ R)"
  by (simp add: set_needs_ring_def registry_wf_def)

lemma abs_set_needs_ring:
  assumes "registry_wf R" and "fst (registry_abs R) typ \<noteq> None"
  shows "registry_abs (set_needs_ring typ R) =
    (case registry_abs R of (e, d, f, N) \<Rightarrow> (e, d, f, insert typ N))"
  using assms
  by (auto simp: set_needs_ring_def registry_wf_def registry_abs_def wants_ring_def lookup_codec_def
      nth_list_update split: if_splits)

lemma wf_empty [simp]: "registry_wf empty_registry"
  by (simp add: registry_wf_def empty_registry_def)

lemma abs_empty: "registry_abs empty_registry = (\<lambda>_. None, \<lambda>_. None, \<lambda>_. None, {})"
  by (auto simp: registry_abs_def empty_registry_def lookup_codec_def wants_ring_def)

text \<open>
  C17. Installing a codec keeps the four vectors of one length and updates the abstract
  registry at exactly one type, growing the vectors as needed; whether a type needs a
  ring does not change.
\<close>

theorem install_refines:
  assumes "registry_wf R" and "registry_abs R = (e, d, f, N)"
  shows "registry_wf (install typ enc dec ref R) \<and>
    registry_abs (install typ enc dec ref R) = (e(typ \<mapsto> enc), d(typ \<mapsto> dec), f(typ \<mapsto> ref), N)"
  using assms by (simp add: abs_install)

theorem install_refines_witness:
  "registry_abs (install 700 C_shared C_shared C_shared empty_registry) =
     ([700 \<mapsto> C_shared], [700 \<mapsto> C_shared], [700 \<mapsto> C_shared], {})"
  using install_refines [OF wf_empty abs_empty] by simp

section \<open>The registry after initialisation\<close>

text \<open>The codec a type is meant to have.\<close>

definition builtin_codec :: "tokens \<Rightarrow> nat \<Rightarrow> codec_fn option" where
  "builtin_codec T =
     [t_NONE T \<mapsto> C_none, t_INT_CMD T \<mapsto> C_int, t_LIST_CMD T \<mapsto> C_list, t_STRING_CMD T \<mapsto> C_string,
      t_COMMAND T \<mapsto> C_command, t_DEF_CMD T \<mapsto> C_def, t_NUMBER_CMD T \<mapsto> C_number,
      t_BIGINT_CMD T \<mapsto> C_bigint, t_INTMAT_CMD T \<mapsto> C_intmat, t_RING_CMD T \<mapsto> C_ring,
      t_POLY_CMD T \<mapsto> C_poly, t_IDEAL_CMD T \<mapsto> C_ideal]"

definition ring_types :: "tokens \<Rightarrow> nat set" where
  "ring_types T = {t_NUMBER_CMD T, t_POLY_CMD T, t_IDEAL_CMD T}"

lemma abs_init:
  assumes "registry_wf R" and "registry_abs R = (e, d, f, N)"
  shows "registry_wf (init_lintree T R) \<and>
   registry_abs (init_lintree T R) =
     (e ++ builtin_codec T, d ++ builtin_codec T, f ++ builtin_codec T, ring_types T \<union> N)"
  using assms
  by (simp add: init_lintree_def Let_def abs_install abs_set_needs_ring
      builtin_codec_def ring_types_def insert_commute)

lemma abs_install_shared:
  "registry_wf (fold install_shared ts empty_registry) \<and>
   registry_abs (fold install_shared ts empty_registry) =
     (\<lambda>t. if t \<in> set ts then Some C_shared else None, \<lambda>t. if t \<in> set ts then Some C_shared else None,
      \<lambda>t. if t \<in> set ts then Some C_shared else None, {})"
proof (induction ts rule: rev_induct)
  case Nil
  show ?case by (simp add: abs_empty)
next
  case (snoc t ts)
  then show ?case by (auto simp: install_shared_def abs_install)
qed

text \<open>
  A registry that serves the interpreter's types and, as shared objects, the types in a
  list.
\<close>

definition ready :: "singular \<Rightarrow> nat list \<Rightarrow> registry \<Rightarrow> bool" where
  "ready S shared R \<longleftrightarrow>
     (let codec = (\<lambda>t. if t \<in> set shared then Some C_shared else None) ++ builtin_codec (tok S)
      in registry_wf R \<and> registry_abs R = (codec, codec, codec, ring_types (tok S)))"

text \<open>Type numbers the interpreter hands out for blackbox types.\<close>

definition fresh_types :: "tokens \<Rightarrow> nat list \<Rightarrow> bool" where
  "fresh_types T shared \<longleftrightarrow> (\<forall>t\<in>set shared. 0 < t \<and> t < 2 ^ 31 \<and> t \<notin> set (token_list T))"

text \<open>\<open>mod_init\<close> makes the shared types first, then initialises the registry.\<close>

definition library_registry :: "tokens \<Rightarrow> nat list \<Rightarrow> registry" where
  "library_registry T shared = init_lintree T (fold install_shared shared empty_registry)"

lemma library_registry_ready: "ready S shared (library_registry (tok S) shared)"
  using abs_init [of "fold install_shared shared empty_registry"] abs_install_shared [of shared]
  by (simp add: ready_def library_registry_def Let_def)

text \<open>The codec written for the shape of a value.\<close>

fun codec_of :: "leftv \<Rightarrow> codec_fn option" where
  "codec_of L_none = Some C_none"
| "codec_of (L_int _) = Some C_int"
| "codec_of (L_string _) = Some C_string"
| "codec_of (L_def _) = Some C_def"
| "codec_of (L_number _) = Some C_number"
| "codec_of (L_bigint _) = Some C_bigint"
| "codec_of (L_intmat _ _ _) = Some C_intmat"
| "codec_of (L_ring _) = Some C_ring"
| "codec_of (L_poly _) = Some C_poly"
| "codec_of (L_ideal _) = Some C_ideal"
| "codec_of (L_list _) = Some C_list"
| "codec_of (L_command _ _ _ _ _) = Some C_command"
| "codec_of (L_blackbox _ _) = Some C_shared"
| "codec_of L_undef = None"
| "codec_of (L_other _) = None"

definition shared_type_in :: "nat list \<Rightarrow> leftv \<Rightarrow> bool" where
  "shared_type_in shared v = (case v of L_blackbox t _ \<Rightarrow> t \<in> set shared | _ \<Rightarrow> True)"

definition ring_codec :: "codec_fn \<Rightarrow> bool" where
  "ring_codec c \<longleftrightarrow> c = C_number \<or> c = C_poly \<or> c = C_ideal"

lemma ready_codec:
  assumes "ready S shared R" and "tokens_ok (tok S)" and "fresh_types (tok S) shared"
    and "codec_of v = Some c" and "shared_type_in shared v"
  shows "lookup_codec (encoders R) (Typ (tok S) v) = Some c"
    and "lookup_codec (decoders R) (Typ (tok S) v) = Some c"
    and "lookup_codec (refupdaters R) (Typ (tok S) v) = Some c"
    and "wants_ring R (Typ (tok S) v) = ring_codec c"
    and "Typ (tok S) v < 2 ^ 31"
proof -
  let ?codec = "(\<lambda>t. if t \<in> set shared then Some C_shared else None) ++ builtin_codec (tok S)"
  have out: "t \<in> set shared \<Longrightarrow> builtin_codec (tok S) t = None" for t
    using assms(3) by (auto simp: fresh_types_def builtin_codec_def token_list_def)
  have out': "t \<in> set shared \<Longrightarrow> t \<notin> ring_types (tok S)" for t
    using assms(3) by (auto simp: fresh_types_def ring_types_def token_list_def)
  have inv: "registry_abs R = (?codec, ?codec, ?codec, ring_types (tok S))"
    using assms(1) by (simp add: ready_def Let_def)
  have built: "?codec (Typ (tok S) v) = Some c"
  proof (cases "codec_of v = Some C_shared")
    case True
    then obtain t obj where v: "v = L_blackbox t obj" by (cases v) auto
    then show ?thesis using assms(4,5) out [of t] by (simp add: shared_type_in_def map_add_def)
  next
    case False
    then have "builtin_codec (tok S) (Typ (tok S) v) = Some c"
      using assms(2,4) by (cases v) (auto simp: builtin_codec_def tokens_ok_def token_list_def)
    then show ?thesis by (simp add: map_add_def)
  qed
  have ring: "(Typ (tok S) v \<in> ring_types (tok S)) = ring_codec c"
    using assms(2,4,5) out' [of "Typ (tok S) v"]
    by (cases v)
      (auto simp: shared_type_in_def ring_types_def ring_codec_def tokens_ok_def token_list_def)
  show "lookup_codec (encoders R) (Typ (tok S) v) = Some c"
    "lookup_codec (decoders R) (Typ (tok S) v) = Some c"
    "lookup_codec (refupdaters R) (Typ (tok S) v) = Some c"
    using inv built by (simp_all add: registry_abs_def)
  show "wants_ring R (Typ (tok S) v) = ring_codec c"
    using inv ring by (auto simp: registry_abs_def)
  show "Typ (tok S) v < 2 ^ 31"
    using assms(2,3,4,5)
    by (cases v) (auto simp: shared_type_in_def tokens_ok_def token_list_def fresh_types_def)
qed

text \<open>
  After the library's initialisation, every value of an interpreter type has the
  encoder, the decoder and the reference updater that are written for it, numbers,
  polynomials and ideals want a ring, and blackbox types installed as shared have the
  codec of shared objects.
\<close>

theorem library_serves_values:
  fixes S :: singular
  assumes "tokens_ok (tok S)" and "fresh_types (tok S) shared"
    and "codec_of v = Some c" and "shared_type_in shared v"
  shows "(let R = library_registry (tok S) shared; t = Typ (tok S) v
    in lookup_codec (encoders R) t = Some c \<and> lookup_codec (decoders R) t = Some c \<and>
       lookup_codec (refupdaters R) t = Some c \<and> wants_ring R t = ring_codec c)"
  using ready_codec [OF library_registry_ready assms] by (simp add: Let_def)

text \<open>An interpreter to run examples with.\<close>

definition sample_singular :: singular where
  "sample_singular = \<lparr>tok = sample_tokens, lSize = (\<lambda>l. int (length l) - 1),
     Eval = (\<lambda>v. (v, False)),
     mpz_export = (\<lambda>z. rev (magnitude (nat \<bar>z\<bar>))),
     mpz_import = (\<lambda>p. int (le_value (rev p))), currRing = None, coeffs_BIGINT = Cf_Q,
     weighted_order = (\<lambda>k. k = 4), unsupported_order = (\<lambda>k. k = 5), nFindCoeffByName = (\<lambda>_. None),
     rDefault_ch = (\<lambda>ch N nms ord. Ring 1 (if ch = 0 then Cf_Q else Cf_Zp ch) N nms ord None),
     rDefault_cf = (\<lambda>cf N nms ord. Ring 1 cf N nms ord None)\<rparr>"

lemma sample_gmp_ok: "gmp_ok sample_singular"
  by (simp add: gmp_ok_def sample_singular_def le_value_magnitude)

theorem library_serves_values_witness:
  "lookup_codec (decoders (library_registry sample_tokens [400])) 400 = Some C_shared"
proof -
  have "tokens_ok (tok sample_singular)" "fresh_types (tok sample_singular) [400]"
    by (simp_all add: sample_singular_def sample_tokens_ok fresh_types_def)
      (simp add: sample_tokens_def token_list_def)
  from library_serves_values [OF this, of "L_blackbox 400 7" C_shared]
  show ?thesis by (simp add: sample_singular_def Let_def shared_type_in_def)
qed

end
