(* ===== verification/Lin_Roundtrip.thy ===== *)
theory Lin_Roundtrip
  imports Lin_Registry
begin

text \<open>
  What encoding a value and decoding the result gives: the value itself, up to what the
  encoding does not keep, with every shared object in it counted once for the encoding and
  once for the decoded value. Values that need a ring carry the ring with them.
\<close>

section \<open>Numbers and polynomials\<close>

interpretation nm: codec "encode_number_cf S cf" "decode_number_cf S cf"
    "\<lambda>n. gmp_ok S \<and> number_ok S cf n" number_image for S cf
  by unfold_locales (use represents_number(1) in blast)

interpretation pl: codec "encode_poly_in S r" "decode_poly_in S r"
    "\<lambda>p. gmp_ok S \<and> poly_ok S r p" "map term_image" for S r
  by unfold_locales (use represents_number(2) in blast)

text \<open>
  C18. A sequence of polynomials over any ring, however deep its coefficients are nested,
  is read back from the end of the buffer as it was written, up to the signs of big
  integers, and the cursor ends at the end of the buffer.
\<close>

theorem polys_roundtrip:
  assumes "gmp_ok S" and "\<And>p. p \<in> set ps \<Longrightarrow> poly_ok S r p" and "cursor lt = length (memory lt)"
  shows "\<exists>lt'. encode_each (encode_poly_in S r) ps lt = Done lt' \<and> error lt' = error lt \<and>
    decode_each (length ps) (decode_poly_in S r) lt' =
      Done (map (map term_image) ps, lt'\<lparr>cursor := length (memory lt')\<rparr>)"
proof -
  from pl.roundtrip_each [of ps S r lt] assms obtain lt' where
    *: "encode_each (encode_poly_in S r) ps lt = Done lt'" "error lt' = error lt"
      "decode_each (length ps) (decode_poly_in S r) lt' =
        Done (map (map term_image) ps, advance (length (memory lt') - length (memory lt)) lt')"
    by blast
  have "\<exists>bs. represents (encode_poly_in S r) (decode_poly_in S r) p (map term_image p) bs"
    if "p \<in> set ps" for p using represents_number(2) [OF assms(1)] assms(2) that by blast
  from represents_each [OF this] obtain bs where
    "represents (encode_each (encode_poly_in S r)) (decode_each (length ps) (decode_poly_in S r)) ps
      (map (map term_image) ps) bs" by blast
  from represents_enc [OF this] * have "lt' = put_bytes bs lt" by simp
  with * assms(3) show ?thesis by (auto simp: advance_def)
qed

definition sample_ring :: ring where
  "sample_ring = Ring 7 (Cf_algExt (Ring 8 Cf_Q 1 [[97]] [] None)) 2 [[120], [121]] [] None"

definition sample_poly :: poly where
  "sample_poly = [Term (Num_alg [Term (Num_big 0 (- 300) 7) 0 [2]]) 0 [3, 1],
                  Term (Num_alg [Term (Num_imm 5) 0 [0]]) 0 [0, 4]]"

lemma sample_poly_ok: "poly_ok sample_singular sample_ring sample_poly"
  by (simp add: sample_ring_def sample_poly_def mpz_fits_def sample_singular_def magnitude.simps)

theorem polys_roundtrip_witness:
  "\<exists>lt'. encode_each (encode_poly_in sample_singular sample_ring) [sample_poly] (new_lintree (\<lambda>_. 0)) = Done lt' \<and>
    decode_each 1 (decode_poly_in sample_singular sample_ring) lt' =
      Done ([map term_image sample_poly], lt'\<lparr>cursor := length (memory lt')\<rparr>)"
  using polys_roundtrip [OF sample_gmp_ok, of "[sample_poly]" sample_ring "new_lintree (\<lambda>_. 0)"]
    sample_poly_ok by (auto simp: new_lintree_def)

section \<open>Values with shared objects\<close>

text \<open>\<open>bump rs\<close> counts each occurrence of an object in \<open>rs\<close> once.\<close>

definition bump :: "64 word list \<Rightarrow> lintree \<Rightarrow> lintree" where
  "bump rs lt = lt\<lparr>refs := (\<lambda>p. refs lt p + int (count_list rs p))\<rparr>"

lemma bump_Nil [simp]: "bump [] lt = lt"
  by (simp add: bump_def)

lemma bump_bump: "bump rs (bump ss lt) = bump (ss @ rs) lt"
  by (simp add: bump_def add.assoc)

lemma bump_put [simp]: "put_bytes bs (bump rs lt) = bump rs (put_bytes bs lt)"
  by (simp add: bump_def put_bytes_def)

lemma bump_advance [simp]: "advance n (bump rs lt) = bump rs (advance n lt)"
  by (simp add: bump_def advance_def)

lemma bump_fields [simp]:
  "memory (bump rs lt) = memory lt" "cursor (bump rs lt) = cursor lt" "error (bump rs lt) = error lt"
  "last_ring (bump rs lt) = last_ring lt" "at_cursor bs (bump rs lt) = at_cursor bs lt"
  by (simp_all add: bump_def at_cursor_def)

lemma change_ref_bump: "change_ref obj 1 lt = bump [obj] lt"
  by (simp add: change_ref_def bump_def fun_upd_def) (rule lintree.unfold_congs, auto)

definition conveys ::
    "('v \<Rightarrow> lintree \<Rightarrow> lintree flow) \<Rightarrow> (lintree \<Rightarrow> ('w \<times> lintree) flow) \<Rightarrow> 'v \<Rightarrow> 'w \<Rightarrow> bytes \<Rightarrow>
      64 word list \<Rightarrow> bool" where
  "conveys enc dec v w bs rs \<longleftrightarrow>
     (\<forall>lt. enc v lt = Done (bump rs (put_bytes bs lt))) \<and>
     (\<forall>lt. at_cursor bs lt \<longrightarrow> dec lt = Done (w, bump rs (advance (length bs) lt)))"

lemma conveysI:
  "(\<And>lt. enc v lt = Done (bump rs (put_bytes bs lt))) \<Longrightarrow>
   (\<And>lt. at_cursor bs lt \<Longrightarrow> dec lt = Done (w, bump rs (advance (length bs) lt))) \<Longrightarrow>
   conveys enc dec v w bs rs"
  by (simp add: conveys_def)

lemma conveys_enc: "conveys enc dec v w bs rs \<Longrightarrow> enc v lt = Done (bump rs (put_bytes bs lt))"
  by (simp add: conveys_def)

lemma conveys_dec:
  "conveys enc dec v w bs rs \<Longrightarrow> at_cursor bs lt \<Longrightarrow> dec lt = Done (w, bump rs (advance (length bs) lt))"
  by (simp add: conveys_def)

lemma represents_conveys: "represents enc dec v w bs \<Longrightarrow> conveys enc dec v w bs []"
  by (simp add: represents_def conveys_def)

lemma conveys_each:
  assumes "\<And>v. v \<in> set vs \<Longrightarrow> \<exists>bs. conveys enc dec v (f v) bs (g v)"
  shows "\<exists>bs. conveys (encode_each enc) (decode_each (length vs) dec) vs (map f vs) bs (concat (map g vs))"
  using assms
proof (induction vs)
  case Nil
  have "conveys (encode_each enc) (decode_each 0 dec) [] [] [] []"
    by (rule conveysI) simp_all
  then show ?case unfolding list.size list.map concat.simps by (rule exI)
next
  case (Cons v vs)
  from Cons.prems obtain bs where bs: "conveys enc dec v (f v) bs (g v)" by fastforce
  from Cons obtain cs where
    cs: "conveys (encode_each enc) (decode_each (length vs) dec) vs (map f vs) cs (concat (map g vs))"
    by fastforce
  have "conveys (encode_each enc) (decode_each (length (v # vs)) dec) (v # vs) (map f (v # vs)) (bs @ cs)
      (concat (map g (v # vs)))"
    by (rule conveysI)
      (simp_all add: conveys_enc [OF bs] conveys_enc [OF cs] read_simps at_cursor_append bump_bump
        conveys_dec [OF bs] conveys_dec [OF cs])
  then show ?case by blast
qed

text \<open>What a value has become after the round trip.\<close>

fun value_image :: "singular \<Rightarrow> leftv \<Rightarrow> leftv" where
  "value_image S (L_string p) = L_string (c_string p)"
| "value_image S (L_def p) = fst (Eval S (L_def (c_string p)))"
| "value_image S (L_number n) = L_number (number_image n)"
| "value_image S (L_bigint n) = L_bigint (number_image n)"
| "value_image S (L_poly p) = L_poly (map term_image p)"
| "value_image S (L_ideal I) = L_ideal (map (map term_image) I)"
| "value_image S (L_list l) = L_list (take (nat (lSize S l + 1)) (map (value_image S) l))"
| "value_image S (L_command cop argc a b c) =
     fst (Eval S (L_command cop argc
       (if 1 \<le> sint argc then value_image S a else L_undef)
       (if 2 \<le> sint argc \<and> sint argc < 4 then value_image S b else L_undef)
       (if 3 \<le> sint argc \<and> sint argc < 4 then value_image S c else L_undef)))"
| "value_image S v = v"

text \<open>The values covered: no rings, and nothing whose evaluation fails.\<close>

fun value_ok :: "singular \<Rightarrow> nat list \<Rightarrow> leftv \<Rightarrow> bool" where
  "value_ok S sh L_none = True"
| "value_ok S sh (L_int _) = True"
| "value_ok S sh (L_string p) = (length (c_string p) < 2 ^ 64)"
| "value_ok S sh (L_def p) = (length (c_string p) < 2 ^ 64 \<and> \<not> snd (Eval S (L_def (c_string p))))"
| "value_ok S sh (L_bigint n) = number_ok S (coeffs_BIGINT S) n"
| "value_ok S sh (L_intmat rows cols v) = (int (length v) = sint (rows * cols))"
| "value_ok S sh (L_list l) =
     (- 1 \<le> lSize S l \<and> lSize S l < 2 ^ 31 \<and> lSize S l < int (length l) \<and>
      list_all id (take (nat (lSize S l + 1)) (map (value_ok S sh) l)))"
| "value_ok S sh (L_command cop argc a b c) =
     ((1 \<le> sint argc \<longrightarrow> value_ok S sh a) \<and> (2 \<le> sint argc \<and> sint argc < 4 \<longrightarrow> value_ok S sh b) \<and>
      (3 \<le> sint argc \<and> sint argc < 4 \<longrightarrow> value_ok S sh c) \<and>
      \<not> snd (Eval S (L_command cop argc
       (if 1 \<le> sint argc then value_image S a else L_undef)
       (if 2 \<le> sint argc \<and> sint argc < 4 then value_image S b else L_undef)
       (if 3 \<le> sint argc \<and> sint argc < 4 then value_image S c else L_undef))))"
| "value_ok S sh (L_blackbox t obj) = (t \<in> set sh \<and> obj \<noteq> 0)"
| "value_ok S sh _ = False"

text \<open>The shared objects in a value, and its nesting depth.\<close>

fun value_objects :: "singular \<Rightarrow> leftv \<Rightarrow> 64 word list" where
  "value_objects S (L_blackbox t obj) = [obj]"
| "value_objects S (L_list l) = concat (take (nat (lSize S l + 1)) (map (value_objects S) l))"
| "value_objects S (L_command cop argc a b c) =
     (if 1 \<le> sint argc then value_objects S a else []) @
     (if 2 \<le> sint argc \<and> sint argc < 4 then value_objects S b else []) @
     (if 3 \<le> sint argc \<and> sint argc < 4 then value_objects S c else [])"
| "value_objects S _ = []"

fun value_depth :: "leftv \<Rightarrow> nat" where
  "value_depth (L_list l) = Suc (foldr max (map value_depth l) 0)"
| "value_depth (L_command cop argc a b c) = Suc (max (value_depth a) (max (value_depth b) (value_depth c)))"
| "value_depth _ = 1"

lemma depth_element: "x \<in> set l \<Longrightarrow> value_depth x \<le> foldr max (map value_depth l) 0"
  by (induction l) auto

lemma depth_pos: "0 < value_depth v"
  by (cases v) simp_all

section \<open>The round trip\<close>

text \<open>A value with a codec that wants no ring: its type, then what its codec writes.\<close>

lemma get_prev_at [read_simps]:
  assumes "at_cursor (le_bytes 4 (unat w)) lt"
  shows "get_prev_int (advance 4 lt) = Done w"
proof -
  have "get_int lt = Done (w, advance 4 lt)" using assms by (rule get_int_at)
  then show ?thesis by (simp add: get_prev_int_def) (simp add: advance_def)
qed

lemma find_codec_lookup:
  assumes "lookup_codec fns n = Some fn" and "n < 2 ^ 31"
  shows "find_codec fns (word_of_nat n) = Done fn"
proof -
  have "sint (word_of_nat n :: 32 word) = int n"
    by (rule sint_word_of_nat32) (fact assms(2))
  then show ?thesis using assms(1) by (simp add: find_codec_def lookup_codec_def split: if_splits)
qed

lemma decode_prefix_at:
  assumes "at_cursor (le_bytes 4 (unat (word_of_nat n :: 32 word))) lt" and "n < 2 ^ 31"
  shows "decode_prefix k S lt = Done (word_of_nat n, advance 4 lt)"
proof -
  have "sint (word_of_nat n :: 32 word) = int n"
    by (rule sint_word_of_nat32) (fact assms(2))
  then show ?thesis using get_int_at [OF assms(1)] by (simp add: decode_prefix_def)
qed

lemma encode_prefix_none:
  "registry_wf R \<Longrightarrow> lookup_codec (encoders R) n = Some fn \<Longrightarrow> \<not> wants_ring R n \<Longrightarrow>
   encode_prefix S R n lt = Done lt"
  by (auto simp: encode_prefix_def wants_ring_def lookup_codec_def registry_wf_def split: if_splits)

text \<open>The type of a value in front of its data.\<close>

definition tag :: "singular \<Rightarrow> leftv \<Rightarrow> bytes" where
  "tag S v = le_bytes 4 (unat (word_of_nat (Typ (tok S) v) :: 32 word))"

lemma length_tag [simp]: "length (tag S v) = 4"
  by (simp add: tag_def)

lemma encode_tag:
  assumes "ready S sh R" "tokens_ok (tok S)" "fresh_types (tok S) sh"
    and "codec_of v = Some fn" "shared_type_in sh v" "\<not> ring_codec fn"
  shows "encode S R v lt =
    (let lt = put_bytes (tag S v) lt in case fn of
       C_none \<Rightarrow> encode_none v lt | C_int \<Rightarrow> encode_int v lt | C_string \<Rightarrow> encode_string v lt
     | C_def \<Rightarrow> encode_def v lt | C_number \<Rightarrow> encode_number S v lt | C_bigint \<Rightarrow> encode_bigint S v lt
     | C_intmat \<Rightarrow> encode_intmat v lt | C_ring \<Rightarrow> encode_ring_value S v lt | C_poly \<Rightarrow> encode_poly S v lt
     | C_ideal \<Rightarrow> encode_ideal S v lt | C_shared \<Rightarrow> encode_shared v lt
     | C_list \<Rightarrow> encode_list S (encode S R) v lt | C_command \<Rightarrow> encode_command (encode S R) v lt)"
proof -
  note c = ready_codec [OF assms(1-5)]
  have "registry_wf R" using assms(1) by (simp add: ready_def Let_def)
  from encode_prefix_none [OF this c(1)] c(4) assms(6)
  have "encode_prefix S R (Typ (tok S) v) lt = Done lt" by simp
  then show ?thesis
    by (subst encode.simps) (simp add: c(1) Let_def tag_def put_simps(1))
qed

lemma decode_tag:
  assumes "ready S sh R" "tokens_ok (tok S)" "fresh_types (tok S) sh"
    and "codec_of v = Some fn" "shared_type_in sh v" and "at_cursor (tag S v) lt"
  shows "decode (Suc k) S R lt =
    (let lt = advance 4 lt in case fn of
       C_none \<Rightarrow> decode_none lt | C_int \<Rightarrow> decode_int lt | C_list \<Rightarrow> decode_list (decode k S R) lt
     | C_string \<Rightarrow> decode_string lt | C_command \<Rightarrow> decode_command S (decode k S R) lt
     | C_def \<Rightarrow> decode_def S lt | C_number \<Rightarrow> decode_number S lt | C_bigint \<Rightarrow> decode_bigint S lt
     | C_intmat \<Rightarrow> decode_intmat lt | C_ring \<Rightarrow> decode_ring k S lt | C_poly \<Rightarrow> decode_poly S lt
     | C_ideal \<Rightarrow> decode_ideal S lt | C_shared \<Rightarrow> decode_shared lt)"
proof -
  note c = ready_codec [OF assms(1-5)]
  show ?thesis
    using decode_prefix_at [OF assms(6) [unfolded tag_def] c(5)]
    by (simp add: find_codec_lookup [OF c(2,5)] Let_def)
qed

declare decode.simps(2) [simp del]

lemma get_text_at [read_simps]:
  assumes "at_cursor (size_bytes (length p) @ p) lt" and "length p < 2 ^ 64"
  shows "get_text lt = Done (p, advance (8 + length p) lt)"
  using assms get_size_at [OF _ assms(2), of lt]
  by (auto simp: get_text_def at_cursor_append get_bytes_at)

lemma put_text_simp [read_simps]:
  "put_text p lt = put_bytes (size_bytes (length (c_string p)) @ c_string p) lt"
  by (simp add: put_text_def read_simps)

text \<open>Numbers, matrices and other flat data behind the tag.\<close>

lemma conveys_tagged:
  assumes e: "\<And>lt. encode S R v lt = enc (put_bytes (tag S v) lt)"
    and d: "\<And>lt. at_cursor (tag S v) lt \<Longrightarrow> decode (Suc k) S R lt = dec (advance 4 lt)"
    and c: "conveys (\<lambda>_. enc) dec () w bs rs"
  shows "conveys (encode S R) (decode (Suc k) S R) v w (tag S v @ bs) rs"
  by (rule conveysI)
    (simp_all add: e d at_cursor_append conveys_enc [OF c] conveys_dec [OF c] put_simps(5))

lemma conveys_intmat:
  assumes "int (length v) = sint (rows * cols)"
  shows "\<exists>bs. conveys (\<lambda>_. encode_intmat (L_intmat rows cols v)) decode_intmat () (L_intmat rows cols v) bs []"
proof -
  from represents_ints obtain cs where
    cs: "represents (encode_each encode_c_int) (decode_each (length v) get_int) v v cs" by blast
  have n: "nat (sint (rows * cols)) = length v" using assms by simp
  have "conveys (\<lambda>_. encode_intmat (L_intmat rows cols v)) decode_intmat () (L_intmat rows cols v)
      (le_bytes 4 (unat rows) @ le_bytes 4 (unat cols) @ cs) []"
    by (intro represents_conveys representsI)
      (auto simp: represents_enc [OF cs] read_simps decode_intmat_def at_cursor_append n
        represents_dec [OF cs])
  then show ?thesis ..
qed

lemma conveys_list:
  assumes "conveys (encode_each enc) (decode_each (length l) dec) l l' bs rs"
    and "int (length l) = sint n + 1"
  shows "conveys (\<lambda>_ lt. encode_each enc l (put_int n lt)) (decode_list dec) () (L_list l')
    (le_bytes 4 (unat n) @ bs) rs"
proof -
  have "nat (sint n + 1) = length l" using assms(2) by simp
  then show ?thesis
    by (intro conveysI)
      (auto simp: conveys_enc [OF assms(1)] read_simps decode_list_def at_cursor_append
        conveys_dec [OF assms(1)])
qed

text \<open>An argument of a command that may be missing.\<close>

lemma conveys_arg:
  assumes "present \<Longrightarrow> \<exists>bs. conveys enc dec a w bs rs"
  shows "\<exists>bs. conveys (\<lambda>a lt. if present then enc a lt else Done lt) (decode_arg present dec) a
    (if present then w else L_undef) bs (if present then rs else [])"
proof (cases present)
  case False
  then have "conveys (\<lambda>a lt. if present then enc a lt else Done lt) (decode_arg present dec) a L_undef [] []"
    by (intro conveysI) (simp_all add: decode_arg_def)
  then show ?thesis using False by auto
qed (use assms in \<open>auto simp: conveys_def decode_arg_def\<close>)

lemma conveys_command:
  assumes a: "1 \<le> sint argc \<Longrightarrow> \<exists>bs. conveys enc dec a a' bs ra"
    and b: "2 \<le> sint argc \<and> sint argc < 4 \<Longrightarrow> \<exists>bs. conveys enc dec b b' bs rb"
    and c: "3 \<le> sint argc \<and> sint argc < 4 \<Longrightarrow> \<exists>bs. conveys enc dec c c' bs rc"
    and eval: "Eval S (L_command cop argc (if 1 \<le> sint argc then a' else L_undef)
       (if 2 \<le> sint argc \<and> sint argc < 4 then b' else L_undef)
       (if 3 \<le> sint argc \<and> sint argc < 4 then c' else L_undef)) = (w, False)"
  shows "\<exists>bs. conveys (\<lambda>_. encode_command enc (L_command cop argc a b c)) (decode_command S dec) () w bs
    ((if 1 \<le> sint argc then ra else []) @ (if 2 \<le> sint argc \<and> sint argc < 4 then rb else []) @
     (if 3 \<le> sint argc \<and> sint argc < 4 then rc else []))"
proof -
  from conveys_arg [OF a] obtain as where as: "conveys (\<lambda>a lt. if 1 \<le> sint argc then enc a lt else Done lt)
    (decode_arg (1 \<le> sint argc) dec) a (if 1 \<le> sint argc then a' else L_undef) as
    (if 1 \<le> sint argc then ra else [])" by blast
  from conveys_arg [OF b] obtain bs where
    bs: "conveys (\<lambda>a lt. if 2 \<le> sint argc \<and> sint argc < 4 then enc a lt else Done lt)
    (decode_arg (2 \<le> sint argc \<and> sint argc < 4) dec) b (if 2 \<le> sint argc \<and> sint argc < 4 then b' else L_undef) bs
    (if 2 \<le> sint argc \<and> sint argc < 4 then rb else [])" by blast
  from conveys_arg [OF c] obtain cs where
    cs: "conveys (\<lambda>a lt. if 3 \<le> sint argc \<and> sint argc < 4 then enc a lt else Done lt)
    (decode_arg (3 \<le> sint argc \<and> sint argc < 4) dec) c (if 3 \<le> sint argc \<and> sint argc < 4 then c' else L_undef) cs
    (if 3 \<le> sint argc \<and> sint argc < 4 then rc else [])" by blast
  have split: "encode_command enc (L_command cop argc a b c) lt =
    bind_flow (if 1 \<le> sint argc then enc a (put_int argc (put_int cop lt)) else Done (put_int argc (put_int cop lt)))
     (\<lambda>lt. bind_flow (if 2 \<le> sint argc \<and> sint argc < 4 then enc b lt else Done lt)
     (\<lambda>lt. if 3 \<le> sint argc \<and> sint argc < 4 then enc c lt else Done lt))" for lt
    by (cases "sint argc < 4") (simp_all add: bind_flow_Done_right)
  let ?all = "le_bytes 4 (unat cop) @ le_bytes 4 (unat argc) @ as @ bs @ cs"
  show ?thesis
  proof (intro exI [of _ ?all] conveysI)
    fix lt assume "at_cursor ?all lt"
    then have at: "at_cursor (le_bytes 4 (unat cop)) lt" "at_cursor (le_bytes 4 (unat argc)) (advance 4 lt)"
      "at_cursor as (advance 8 lt)" "at_cursor bs (advance (8 + length as) lt)"
      "at_cursor cs (advance (8 + length as + length bs) lt)"
      by (simp_all add: at_cursor_append)
    then show "decode_command S dec lt = Done (w, bump
      ((if 1 \<le> sint argc then ra else []) @ (if 2 \<le> sint argc \<and> sint argc < 4 then rb else []) @
       (if 3 \<le> sint argc \<and> sint argc < 4 then rc else [])) (advance (length ?all) lt))"
      by (simp add: decode_command_def get_int_at conveys_dec [OF as] conveys_dec [OF bs]
          conveys_dec [OF cs] bump_bump eval_result_def eval add.assoc split del: if_split)
  qed (auto simp: split conveys_enc [OF as] conveys_enc [OF bs] conveys_enc [OF cs] read_simps
      bump_bump simp del: encode_command.simps split del: if_split)
qed

lemma conveys_shared:
  assumes "ready S sh R" "tokens_ok (tok S)" "fresh_types (tok S) sh" and "t \<in> set sh" and "obj \<noteq> 0"
  shows "conveys (encode S R) (decode (Suc k) S R) (L_blackbox t obj) (L_blackbox t obj)
    (tag S (L_blackbox t obj) @ le_bytes 8 (unat obj)) [obj]"
proof (rule conveysI)
  let ?v = "L_blackbox t obj"
  have ok: "codec_of ?v = Some C_shared" "shared_type_in sh ?v"
    using assms(4) by (simp_all add: shared_type_in_def)
  show "encode S R ?v lt = Done (bump [obj] (put_bytes (tag S ?v @ le_bytes 8 (unat obj)) lt))" for lt
    using assms(5)
    by (simp add: encode_tag [OF assms(1-3) ok] ring_codec_def read_simps change_ref_bump del: bump_put)
      (simp add: bump_def put_bytes_def)
  show "decode (Suc k) S R lt =
      Done (?v, bump [obj] (advance (length (tag S ?v @ le_bytes 8 (unat obj))) lt))"
    if at: "at_cursor (tag S ?v @ le_bytes 8 (unat obj)) lt" for lt
  proof -
    have t: "t < 2 ^ 31" using assms(3,4) by (auto simp: fresh_types_def)
    then have "unat (word_of_nat t :: 32 word) = t" by (simp add: unat_of_nat)
    moreover have "get_prev_int (advance 4 lt) = Done (word_of_nat t)"
      using at by (auto simp: at_cursor_append tag_def intro: get_prev_at)
    moreover have "at_cursor (tag S ?v) lt" "get_long (advance 4 lt) = Done (obj, advance 12 lt)"
      using at get_long_at [of obj "advance 4 lt"] by (simp_all add: at_cursor_append)
    ultimately show ?thesis
      using assms(5)
      by (simp add: decode_tag [OF assms(1-3) ok] at_cursor_append decode_shared_def get_long_at
          change_ref_bump)
  qed
qed

lemma conveys_flat:
  assumes "conveys (\<lambda>_. enc) dec () w bs rs" and "value_depth v \<le> k"
    and "\<And>lt. encode S R v lt = enc (put_bytes (tag S v) lt)"
    and "\<And>j lt. at_cursor (tag S v) lt \<Longrightarrow> decode (Suc j) S R lt = dec (advance 4 lt)"
  shows "\<exists>bs. conveys (encode S R) (decode k S R) v w bs rs"
proof -
  obtain j where "k = Suc j" using assms(2) depth_pos [of v] by (cases k) auto
  then show ?thesis using conveys_tagged [OF assms(3,4,1)] by blast
qed

text \<open>Lists and quoted commands, given that their parts are conveyed.\<close>

lemma conveys_list_value:
  assumes ready: "ready S sh R" "tokens_ok (tok S)" "fresh_types (tok S) sh"
    and size: "- 1 \<le> lSize S l" "lSize S l < 2 ^ 31" "nat (lSize S l + 1) \<le> length l"
    and parts: "\<And>x. x \<in> set (take (nat (lSize S l + 1)) l) \<Longrightarrow>
      \<exists>bs. conveys (encode S R) (decode j S R) x (value_image S x) bs (value_objects S x)"
  shows "\<exists>bs. conveys (encode S R) (decode (Suc j) S R) (L_list l) (value_image S (L_list l)) bs (value_objects S (L_list l))"
proof -
  let ?n = "nat (lSize S l + 1)" and ?w = "word_of_int (lSize S l) :: 32 word"
  from conveys_each [of "take ?n l", OF parts] obtain bs where
    bs: "conveys (encode_each (encode S R)) (decode_each (length (take ?n l)) (decode j S R)) (take ?n l)
      (take ?n (map (value_image S) l)) bs (value_objects S (L_list l))"
    by (auto simp: take_map)
  have w: "sint ?w = lSize S l" using size by (simp add: signed_of_int signed_take_bit_int_eq_self)
  have "conveys (\<lambda>_ lt. encode_each (encode S R) (take ?n l) (put_int ?w lt))
      (decode_list (decode j S R)) () (value_image S (L_list l)) (le_bytes 4 (unat ?w) @ bs) (value_objects S (L_list l))"
    using conveys_list [OF bs, of ?w] w size by simp
  then have "conveys (encode S R) (decode (Suc j) S R) (L_list l) (value_image S (L_list l))
      (tag S (L_list l) @ le_bytes 4 (unat ?w) @ bs) (value_objects S (L_list l))"
    using size(3)
    by (intro conveys_tagged)
      (auto simp: encode_tag [OF ready] decode_tag [OF ready, where v = "(L_list l)"] shared_type_in_def ring_codec_def
        Let_def bind_flow_Done_right)
  then show ?thesis by (rule exI)
qed

lemma conveys_command_value:
  assumes ready: "ready S sh R" "tokens_ok (tok S)" "fresh_types (tok S) sh" and "value_ok S sh (L_command cop argc a b c)"
    and parts: "\<And>x. x \<in> {a, b, c} \<Longrightarrow> value_ok S sh x \<Longrightarrow>
      \<exists>bs. conveys (encode S R) (decode j S R) x (value_image S x) bs (value_objects S x)"
  shows "\<exists>bs. conveys (encode S R) (decode (Suc j) S R) (L_command cop argc a b c)
    (value_image S (L_command cop argc a b c)) bs (value_objects S (L_command cop argc a b c))"
proof -
  let ?v = "L_command cop argc a b c"
  obtain w err where ev: "Eval S (L_command cop argc (if 1 \<le> sint argc then value_image S a else L_undef)
       (if 2 \<le> sint argc \<and> sint argc < 4 then value_image S b else L_undef)
       (if 3 \<le> sint argc \<and> sint argc < 4 then value_image S c else L_undef)) = (w, err)" by force
  with assms(4) have "\<not> err" by (simp split del: if_split)
  with ev conveys_command [of argc "encode S R" "decode j S R" a "value_image S a" "value_objects S a" b
      "value_image S b" "value_objects S b" c "value_image S c" "value_objects S c" S cop w]
    parts assms(4)
  obtain bs where "conveys (\<lambda>_. encode_command (encode S R) ?v) (decode_command S (decode j S R)) () w bs
      (value_objects S ?v)" by auto
  then have "conveys (encode S R) (decode (Suc j) S R) ?v w (tag S ?v @ bs) (value_objects S ?v)"
    by (rule conveys_tagged [rotated 2])
      (simp_all add: encode_tag [OF ready] decode_tag [OF ready, where v = "?v"] shared_type_in_def ring_codec_def
        del: encode_command.simps)
  moreover have "value_image S ?v = w" using ev by (simp split del: if_split)
  ultimately show ?thesis by blast
qed

lemma value_conveys:
  fixes R :: registry
  assumes ready: "ready S sh R" "tokens_ok (tok S)" "fresh_types (tok S) sh" and "gmp_ok S"
  shows "value_ok S sh v \<Longrightarrow> value_depth v \<le> k \<Longrightarrow>
    \<exists>bs. conveys (encode S R) (decode k S R) v (value_image S v) bs (value_objects S v)"
proof (induction v arbitrary: k)
  case (L_list l)
  then obtain j where k: "k = Suc j" by (cases k) auto
  show ?case
    unfolding k
  proof (rule conveys_list_value [OF ready])
    fix x assume x: "x \<in> set (take (nat (lSize S l + 1)) l)"
    show "\<exists>bs. conveys (encode S R) (decode j S R) x (value_image S x) bs (value_objects S x)"
    proof (rule L_list.IH)
      show "x \<in> set l" using x by (rule in_set_takeD)
      show "value_ok S sh x" using x L_list.prems(1) by (auto simp: list_all_iff take_map)
      show "value_depth x \<le> j" using depth_element [OF in_set_takeD [OF x]] L_list.prems(2) k by simp
    qed
  qed (use L_list.prems(1) in auto)
next
  case (L_command cop argc a b c)
  then obtain j where k: "k = Suc j" by (cases k) auto
  show ?case
    unfolding k
    by (rule conveys_command_value [OF ready]) (use L_command k in auto)
next
  case (L_blackbox t obj)
  then show ?case using conveys_shared [OF ready] by (cases k) auto
next
  case L_none
  then show ?case
    by (intro conveys_flat [where enc = "encode_none L_none" and dec = decode_none and bs = "[]"] conveysI)
      (simp_all add: decode_none_def encode_tag [OF ready] shared_type_in_def ring_codec_def
        decode_tag [OF ready, where v = "L_none"])
next
  case (L_int i)
  then show ?case
    by (intro conveys_flat [where enc = "encode_int (L_int i)" and dec = decode_int and
        bs = "le_bytes 8 (unat i)"] conveysI)
      (simp_all add: decode_int_def read_simps encode_tag [OF ready] shared_type_in_def ring_codec_def
        decode_tag [OF ready, where v = "(L_int i)"])
next
  case (L_string p)
  then show ?case
    by (intro conveys_flat [where enc = "encode_string (L_string p)" and dec = decode_string and
        bs = "size_bytes (length (c_string p)) @ c_string p"] conveysI)
      (simp_all add: decode_string_def read_simps encode_tag [OF ready] shared_type_in_def ring_codec_def
        decode_tag [OF ready, where v = "(L_string p)"])
next
  case (L_def p)
  then show ?case
    by (intro conveys_flat [where enc = "encode_def (L_def p)" and dec = "decode_def S" and
        bs = "size_bytes (length (c_string p)) @ c_string p"] conveysI)
      (auto simp: decode_def_def read_simps encode_tag [OF ready] shared_type_in_def ring_codec_def
        decode_tag [OF ready, where v = "(L_def p)"] eval_result_def split: prod.splits)
next
  case (L_bigint n)
  from represents_number(1) [OF assms(4)] L_bigint.prems(1) obtain bs where
    bs: "represents (encode_number_cf S (coeffs_BIGINT S)) (decode_number_cf S (coeffs_BIGINT S)) n
      (number_image n) bs" by auto
  with L_bigint show ?case
    by (intro conveys_flat [where enc = "encode_bigint S (L_bigint n)" and dec = "decode_bigint S" and
        bs = bs] conveysI)
      (simp_all add: decode_bigint_def represents_enc [OF bs] represents_dec [OF bs] encode_tag [OF ready] shared_type_in_def ring_codec_def
        decode_tag [OF ready, where v = "(L_bigint n)"])
next
  case (L_intmat rows cols v)
  have "int (length v) = sint (rows * cols)" using L_intmat.prems(1) by simp
  from conveys_intmat [OF this] obtain bs where
    bs: "conveys (\<lambda>_. encode_intmat (L_intmat rows cols v)) decode_intmat () (L_intmat rows cols v) bs []" ..
  from conveys_flat [OF bs L_intmat.prems(2)] show ?case
    by (simp add: encode_tag [OF ready] shared_type_in_def ring_codec_def
        decode_tag [OF ready, where v = "(L_intmat rows cols v)"] del: encode_intmat.simps)
qed (use assms in simp_all)

lemma value_strings:
  assumes "tokens_ok (tok S)" and "fresh_types (tok S) sh" and "gmp_ok S"
    and "value_ok S sh v" and "value_depth v \<le> fuel"
  obtains str where "\<And>rc. to_string S (library_registry (tok S) sh) v rc =
      Done (str, \<lambda>p. rc p + int (count_list (value_objects S v) p))"
    and "\<And>rc. from_string fuel S (library_registry (tok S) sh) str rc =
      Done (value_image S v, \<lambda>p. rc p + int (count_list (value_objects S v) p))"
proof -
  let ?R = "library_registry (tok S) sh"
  from value_conveys [OF library_registry_ready assms(1-5)] obtain bs where
    bs: "conveys (encode S ?R) (decode fuel S ?R) v (value_image S v) bs (value_objects S v)" ..
  have "at_cursor bs (source_lintree bs rc')" for rc'
    by (simp add: source_lintree_def at_cursor_def)
  from conveys_dec [OF bs this] conveys_enc [OF bs] show ?thesis
    by (intro that [of bs])
      (simp_all add: to_string_def from_string_def has_error_def new_lintree_def source_lintree_def bump_def)
qed

text \<open>
  C19. A ring-free value, converted to a string and back, is the value itself up to
  strings cut at the first zero byte, lists cut behind their last used element, commands
  and names evaluated, and big integers without sign. The string holds one reference to
  every occurrence of a shared object and the decoded value another one. Fuel for the
  nesting depth of the value is enough.
\<close>

theorem value_roundtrip:
  assumes "tokens_ok (tok S)" and "fresh_types (tok S) sh" and "gmp_ok S"
    and "value_ok S sh v" and "value_depth v \<le> fuel"
  shows "\<exists>str. to_string S (library_registry (tok S) sh) v rc =
      Done (str, \<lambda>p. rc p + int (count_list (value_objects S v) p)) \<and>
    from_string fuel S (library_registry (tok S) sh) str rc' =
      Done (value_image S v, \<lambda>p. rc' p + int (count_list (value_objects S v) p))"
  by (rule value_strings [OF assms]) blast

lemma sample_library_ok:
  "tokens_ok (tok sample_singular)" "fresh_types (tok sample_singular) [400]"
  by (simp_all add: sample_singular_def sample_tokens_ok fresh_types_def)
    (simp add: sample_tokens_def token_list_def)

definition sample_value :: leftv where
  "sample_value = L_list [L_int 5, L_list [L_blackbox 400 77, L_string [104, 105]],
     L_command 1 2 (L_bigint (Num_imm 9)) (L_blackbox 400 77) L_undef]"

theorem value_roundtrip_witness:
  "\<exists>str. to_string sample_singular (library_registry sample_tokens [400]) sample_value (\<lambda>_. 1) =
      Done (str, \<lambda>p. 1 + int (count_list [77, 77] p)) \<and>
    from_string 3 sample_singular (library_registry sample_tokens [400]) str (\<lambda>_. 3) =
      Done (sample_value, \<lambda>p. 3 + int (count_list [77, 77] p))"
proof -
  have ok: "value_ok sample_singular [400] sample_value"
    by (simp add: sample_value_def sample_singular_def c_string_def)
  have depth: "value_depth sample_value \<le> 3" by (simp add: sample_value_def)
  have image: "value_image sample_singular sample_value = sample_value"
    by (simp add: sample_value_def sample_singular_def c_string_def)
  have objects: "value_objects sample_singular sample_value = [77, 77]"
    by (simp add: sample_value_def sample_singular_def)
  have tok: "tok sample_singular = sample_tokens" by (simp add: sample_singular_def)
  from value_roundtrip [OF sample_library_ok sample_gmp_ok ok depth, unfolded image objects tok]
  show ?thesis by blast
qed

end
