(* ===== verification/Lin_Rings.thy ===== *)
theory Lin_Rings
  imports Lin_Roundtrip
begin

text \<open>
  Values that need a ring, and what goes wrong on the way: a value of the current ring is
  written with the ring in front and read back over an equal ring; values the library
  cannot encode become \<open>NONE\<close>; rings that are null or already known cannot be read back;
  the update of reference counts misses the last element of a list.
\<close>

section \<open>A ring in front of a value\<close>

text \<open>
  A ring over the rationals or a prime field with supported orders and no ideal, and
  \<open>rDefault\<close> as Singular documents it: a new ring with the given parts.
\<close>

fun basic_ring :: "singular \<Rightarrow> ring \<Rightarrow> bool" where
  "basic_ring S (Ring ad cf N nms ord q) =
     ((case cf of Cf_Q \<Rightarrow> True | Cf_Zp p \<Rightarrow> 0 < sint p | _ \<Rightarrow> False) \<and> q = None \<and>
      0 < sint N \<and> int (length nms) = sint N \<and> length ord < 2 ^ 31 \<and>
      list_all (\<lambda>nm. c_string nm = nm \<and> length nm < 2 ^ 64) nms \<and> list_all (order_ok S) ord)"

definition rDefault_makes_ring :: "singular \<Rightarrow> bool" where
  "rDefault_makes_ring S \<longleftrightarrow> (\<forall>ch N nms ord. \<exists>ad.
     rDefault_ch S ch N nms ord = Ring ad (if ch = 0 then Cf_Q else Cf_Zp ch) N nms ord None)"

definition ring_char :: "ring \<Rightarrow> 32 word" where
  "ring_char r = (case r_cf r of Cf_Zp p \<Rightarrow> p | _ \<Rightarrow> 0)"

definition ring_copy :: "singular \<Rightarrow> ring \<Rightarrow> ring" where
  "ring_copy S r = rDefault_ch S (ring_char r) (r_N r) (r_names r) (r_order r)"

lemma represents_names:
  assumes "list_all (\<lambda>nm. c_string nm = nm \<and> length nm < 2 ^ 64) nms"
  shows "\<exists>bs. represents (encode_each encode_name) (decode_each (length nms) get_cstring) nms nms bs"
proof -
  have "\<exists>bs. represents encode_name get_cstring nm nm bs" if "nm \<in> set nms" for nm
    using represents_name [of nm] assms that by (auto simp: list_all_iff)
  from represents_each [of nms, OF this] show ?thesis by simp
qed

lemma represents_orders:
  assumes "list_all (order_ok S) ord"
  shows "\<exists>bs. represents (encode_each (encode_order S)) (decode_each (length ord) (decode_order S)) ord ord bs"
proof -
  have "\<exists>bs. represents (encode_order S) (decode_order S) x x bs" if "x \<in> set ord" for x
    using represents_order [of S x] assms that by (auto simp: list_all_iff)
  from represents_each [of ord, OF this] show ?thesis by simp
qed

lemma basic_ring_travels:
  assumes "basic_ring S r"
  shows "\<exists>bs. (\<forall>lt. last_ring lt = None \<longrightarrow> encode_ring S (Some r) lt = Done (put_bytes bs lt)) \<and>
    (\<forall>lt k. at_cursor bs lt \<longrightarrow> decode_ring_raw (Suc k) S lt =
       Done (Some (ring_copy S r), set_last_ring (Some (ring_copy S r)) (advance (length bs) lt)))"
proof -
  obtain ad cf N nms ord where r: "r = Ring ad cf N nms ord None"
    using assms by (cases r) auto
  let ?ch = "ring_char r" and ?no = "word_of_nat (length ord) :: 32 word"
  from assms r have N: "0 < sint N" "nat (sint N) = length nms" "length ord < 2 ^ 31" by auto
  from assms r have cf: "cf = Cf_Q \<and> ?ch = 0 \<or> cf = Cf_Zp ?ch \<and> 0 < sint ?ch"
    by (auto simp: ring_char_def split: coeffs.splits)
  from assms r represents_names obtain ns where
    ns: "represents (encode_each encode_name) (decode_each (length nms) get_cstring) nms nms ns" by auto
  from assms r represents_orders obtain os where
    os: "represents (encode_each (encode_order S)) (decode_each (length ord) (decode_order S)) ord ord os"
    by auto
  let ?bs = "le_bytes 4 (unat ?ch) @ le_bytes 4 (unat N) @ ns @ le_bytes 4 (unat ?no) @ os @
    le_bytes 4 (unat (0 :: 32 word))"
  have kind: "put_ring_kind cf N lt = put_bytes (le_bytes 4 (unat ?ch) @ le_bytes 4 (unat N)) lt" for lt
    using cf by (auto simp: put_ring_kind_def read_simps)
  have ext: "(case cf of Cf_transExt e \<Rightarrow> f e | Cf_algExt e \<Rightarrow> f e | _ \<Rightarrow> x) = x"
    for f :: "ring \<Rightarrow> lintree flow" and x using cf by (cases cf) auto
  have enc: "encode_ring S (Some r) lt = Done (put_bytes ?bs lt)" if "last_ring lt = None" for lt
    using that N
    by (auto simp: encode_ring_def r kind ext represents_enc [OF ns] represents_enc [OF os] read_simps)
  have dec: "decode_ring_raw (Suc k) S lt =
      Done (Some (ring_copy S r), set_last_ring (Some (ring_copy S r)) (advance (length ?bs) lt))"
    if "at_cursor ?bs lt" for lt k
  proof -
    let ?n = "12 + length ns + length os"
    have at: "get_int lt = Done (?ch, advance 4 lt)" "get_int (advance 4 lt) = Done (N, advance 8 lt)"
      "decode_each (length nms) get_cstring (advance 8 lt) = Done (nms, advance (8 + length ns) lt)"
      "get_int (advance (8 + length ns) lt) = Done (?no, advance (12 + length ns) lt)"
      "decode_each (length ord) (decode_order S) (advance (12 + length ns) lt) = Done (ord, advance ?n lt)"
      "at_cursor (le_bytes 4 (unat (0 :: 32 word))) (advance ?n lt)"
      using that by (auto simp: at_cursor_append get_int_at represents_dec [OF ns]
          represents_dec [OF os] add.commute)
    have "at_cursor (le_bytes 4 (unat (0 :: 32 word))) (set_last_ring r' (advance ?n lt))" for r'
      using at(6) by (simp add: at_cursor_def set_last_ring_def)
    from get_int_at [OF this] have last: "get_int (set_last_ring r' (advance ?n lt)) =
        Done (0, set_last_ring r' (advance (length ?bs) lt))" for r'
      by (simp add: set_last_ring_def advance_def)
    have ch: "0 \<le> sint ?ch" using cf by auto
    then have "?ch \<noteq> -1 \<and> ?ch \<noteq> -2 \<and> ?ch \<noteq> -3 \<and> ?ch \<noteq> -4 \<and> ?ch \<noteq> -5" by auto
    moreover have "N \<noteq> 0" using N(1) by auto
    ultimately show ?thesis
      using N ch by (simp add: at finish_ring_def last sint_word_of_nat32 ring_copy_def r)
  qed
  from enc dec show ?thesis by blast
qed

text \<open>A value of the current ring that can be encoded.\<close>

fun ring_value_ok :: "singular \<Rightarrow> ring \<Rightarrow> leftv \<Rightarrow> bool" where
  "ring_value_ok S r (L_number n) = number_ok S (r_cf r) n"
| "ring_value_ok S r (L_poly p) = poly_ok S r p"
| "ring_value_ok S r (L_ideal I) = (length I < 2 ^ 31 \<and> list_all (poly_ok S r) I)"
| "ring_value_ok S r _ = False"

text \<open>Decoding looks at the coefficients and the number of variables only.\<close>

lemma decode_poly_in_cong:
  "r_cf r = r_cf r' \<Longrightarrow> r_N r = r_N r' \<Longrightarrow> decode_poly_in S r = decode_poly_in S r'"
  by (intro ext, cases r, cases r') simp

lemma ring_copy_parts:
  assumes "basic_ring S r" and "rDefault_makes_ring S"
  shows "r_cf (ring_copy S r) = r_cf r" and "r_N (ring_copy S r) = r_N r"
proof -
  obtain ad cf N nms ord q where r: "r = Ring ad cf N nms ord q" by (cases r) auto
  from assms(2) obtain ad' where "ring_copy S r =
      Ring ad' (if ring_char r = 0 then Cf_Q else Cf_Zp (ring_char r)) (r_N r) (r_names r) (r_order r) None"
    unfolding rDefault_makes_ring_def ring_copy_def by blast
  then show "r_cf (ring_copy S r) = r_cf r" and "r_N (ring_copy S r) = r_N r"
    using assms(1) by (auto simp: r ring_char_def split: coeffs.splits)
qed

text \<open>The codecs of the three types that need a ring.\<close>

definition encode_ring_data :: "singular \<Rightarrow> leftv \<Rightarrow> lintree \<Rightarrow> lintree flow" where
  "encode_ring_data S v lt =
     (case v of L_number _ \<Rightarrow> encode_number S v lt | L_poly _ \<Rightarrow> encode_poly S v lt
      | _ \<Rightarrow> encode_ideal S v lt)"

definition decode_ring_data :: "singular \<Rightarrow> leftv \<Rightarrow> lintree \<Rightarrow> (leftv \<times> lintree) flow" where
  "decode_ring_data S v lt =
     (case v of L_number _ \<Rightarrow> decode_number S lt | L_poly _ \<Rightarrow> decode_poly S lt
      | _ \<Rightarrow> decode_ideal S lt)"

text \<open>The data behind the type, given the ring on either side.\<close>

lemma ring_value_travels:
  assumes "gmp_ok S" and "ring_value_ok S r v" and "r_cf r' = r_cf r" and "r_N r' = r_N r"
  shows "\<exists>bs. (\<forall>lt. last_ring lt = Some r \<longrightarrow>
      encode_ring_data S v lt = Done (put_bytes bs lt)) \<and>
    (\<forall>lt. last_ring lt = Some r' \<longrightarrow> at_cursor bs lt \<longrightarrow>
      decode_ring_data S v lt = Done (value_image S v, advance (length bs) lt))"
proof (cases v)
  case (L_number n)
  with assms represents_number(1) obtain bs where
    bs: "represents (encode_number_cf S (r_cf r)) (decode_number_cf S (r_cf r)) n (number_image n) bs"
    by fastforce
  with L_number assms(3) show ?thesis
    by (intro exI [of _ bs]) (simp add: encode_ring_data_def decode_ring_data_def decode_number_def represents_enc [OF bs] represents_dec [OF bs])
next
  case (L_poly p)
  with assms represents_number(2) obtain bs where
    bs: "represents (encode_poly_in S r) (decode_poly_in S r) p (map term_image p) bs" by fastforce
  with L_poly decode_poly_in_cong [OF assms(3,4), of S] show ?thesis
    by (intro exI [of _ bs])
      (simp add: encode_ring_data_def decode_ring_data_def decode_poly_def encode_poly_last_def decode_poly_last_def represents_enc [OF bs]
        represents_dec [OF bs] del: encode_poly_in.simps)
next
  case (L_ideal I)
  with assms represents_ideal [OF assms(1), of I r] obtain bs where
    bs: "represents (\<lambda>I. encode_ideal_in S I r) (decode_ideal_in S r) I (map (map term_image) I) bs"
    by (auto simp: list_all_iff)
  have "decode_ideal_in S r' = decode_ideal_in S r"
    using decode_poly_in_cong [OF assms(3,4), of S] by (intro ext) (simp add: decode_ideal_in_def)
  with L_ideal show ?thesis
    by (intro exI [of _ bs])
      (simp add: encode_ring_data_def decode_ring_data_def decode_ideal_def represents_enc [OF bs] represents_dec [OF bs])
qed (use assms in simp_all)

lemma encode_ring_value_tag:
  assumes "ready S sh R" "tokens_ok (tok S)" "fresh_types (tok S) sh"
    and "ring_value_ok S r v" and "currRing S = Some r" and "last_ring lt = None"
    and "encode_ring S (Some r) (put_int (-1) lt) = Done lt'"
  shows "encode S R v lt = encode_ring_data S v (put_bytes (tag S v) (set_last_ring (Some r) lt'))"
proof -
  obtain c where v: "codec_of v = Some c" "shared_type_in sh v" "ring_codec c"
    using assms(4) by (cases v) (auto simp: shared_type_in_def ring_codec_def)
  note c = ready_codec [OF assms(1-3) v(1,2)]
  have "needs_ring R ! Typ (tok S) v" using c(4) v(3) by (simp add: wants_ring_def)
  then have "encode_prefix S R (Typ (tok S) v) lt = Done (set_last_ring (Some r) lt')"
    using assms(5-7) by (simp add: encode_prefix_def has_last_ring_def)
  then have "encode S R v lt = (let lt = put_bytes (tag S v) (set_last_ring (Some r) lt')
    in case c of C_number \<Rightarrow> encode_number S v lt | C_poly \<Rightarrow> encode_poly S v lt
       | _ \<Rightarrow> encode_ideal S v lt)"
    using v(3) by (subst encode.simps)
      (auto simp: c(1) Let_def tag_def put_simps(1) ring_codec_def)
  then show ?thesis using v(1) assms(4) by (cases v) (auto simp: encode_ring_data_def decode_ring_data_def Let_def)
qed

lemma decode_ring_value_tag:
  assumes "ready S sh R" "tokens_ok (tok S)" "fresh_types (tok S) sh"
    and "ring_value_ok S r v" and "get_int lt = Done (-1, lt1)"
    and "decode_ring_raw k S lt1 = Done (r', lt2)"
    and "at_cursor (tag S v) (set_last_ring r' lt2)"
  shows "decode (Suc k) S R lt = decode_ring_data S v (advance 4 (set_last_ring r' lt2))"
proof -
  obtain c where v: "codec_of v = Some c" "shared_type_in sh v"
    using assms(4) by (cases v) (auto simp: shared_type_in_def)
  note c = ready_codec [OF assms(1-3) v]
  have "decode_prefix k S lt = Done (word_of_nat (Typ (tok S) v), advance 4 (set_last_ring r' lt2))"
    using assms(5,6) get_int_at [OF assms(7) [unfolded tag_def]] by (simp add: decode_prefix_def)
  then have "decode (Suc k) S R lt = (let lt = advance 4 (set_last_ring r' lt2)
    in case c of C_number \<Rightarrow> decode_number S lt | C_poly \<Rightarrow> decode_poly S lt
       | _ \<Rightarrow> decode_ideal S lt)"
    using v(1) assms(4)
    by (simp add: decode.simps(2) find_codec_lookup [OF c(2,5)] Let_def)
      (cases v; auto)
  then show ?thesis using v(1) assms(4) by (cases v) (auto simp: encode_ring_data_def decode_ring_data_def Let_def)
qed

lemma set_last_ring_simps [simp]:
  "set_last_ring r (put_bytes bs lt) = put_bytes bs (set_last_ring r lt)"
  "set_last_ring r (advance n lt) = advance n (set_last_ring r lt)"
  "set_last_ring r (set_last_ring r' lt) = set_last_ring r lt"
  "last_ring (set_last_ring r lt) = r" "error (set_last_ring r lt) = error lt"
  "refs (set_last_ring r lt) = refs lt" "memory (set_last_ring r lt) = memory lt"
  "at_cursor bs (set_last_ring r lt) = at_cursor bs lt"
  by (simp_all add: set_last_ring_def put_bytes_def advance_def at_cursor_def)

text \<open>
  C22. A number, polynomial or ideal of the current ring, over the rationals or a prime
  field with supported orders and no ideal, is read back from its string, up to the signs
  of big integers: the string carries the ring, and the reader rebuilds it before the value.
  The reference counts do not change, and two units of fuel are enough.
\<close>

theorem ring_value_roundtrip:
  assumes "tokens_ok (tok S)" and "fresh_types (tok S) sh" and "gmp_ok S"
    and "currRing S = Some r" and "basic_ring S r" and "rDefault_makes_ring S"
    and "ring_value_ok S r v" and "2 \<le> fuel"
  shows "\<exists>str. to_string S (library_registry (tok S) sh) v rc = Done (str, rc) \<and>
    from_string fuel S (library_registry (tok S) sh) str rc' = Done (value_image S v, rc')"
proof -
  note ready = library_registry_ready assms(1,2)
  let ?R = "library_registry (tok S) sh" and ?r = "ring_copy S r"
  obtain k where k: "fuel = Suc (Suc k)" using assms(8) by (cases fuel; cases "fuel - 1") auto
  from basic_ring_travels [OF assms(5)] obtain rs where
    enc_r: "\<And>lt. last_ring lt = None \<Longrightarrow> encode_ring S (Some r) lt = Done (put_bytes rs lt)" and
    dec_r: "\<And>lt k. at_cursor rs lt \<Longrightarrow>
      decode_ring_raw (Suc k) S lt = Done (Some ?r, set_last_ring (Some ?r) (advance (length rs) lt))"
    by blast
  from ring_value_travels [OF assms(3,7) ring_copy_parts [OF assms(5,6)]] obtain bs where
    enc: "\<And>lt. last_ring lt = Some r \<Longrightarrow>
      encode_ring_data S v lt = Done (put_bytes bs lt)" and
    dec: "\<And>lt. last_ring lt = Some ?r \<Longrightarrow> at_cursor bs lt \<Longrightarrow>
      decode_ring_data S v lt = Done (value_image S v, advance (length bs) lt)"
    by blast
  let ?m = "le_bytes 4 (unat (-1 :: 32 word))" and ?n = "new_lintree rc"
  let ?s = "?m @ rs @ tag S v @ bs"
  let ?l = "source_lintree ?s rc'"
  have n: "last_ring ?n = None" "memory ?n = []" "error ?n = None" "refs ?n = rc"
    by (simp_all add: new_lintree_def)
  have "encode_ring S (Some r) (put_int (-1) ?n) = Done (put_bytes (?m @ rs) ?n)"
    using enc_r [of "put_int (-1) ?n"] n by (simp add: put_simps(1,5))
  from encode_ring_value_tag [OF ready assms(7,4) n(1) this]
  have "encode S ?R v ?n = Done (put_bytes ?s (set_last_ring (Some r) ?n))"
    using enc [of "put_bytes (tag S v) (set_last_ring (Some r) (put_bytes (?m @ rs) ?n))"]
    by (simp add: Let_def put_simps(5))
  then have to: "to_string S ?R v rc = Done (?s, rc)"
    by (simp add: to_string_def has_error_def n)
  have l: "error ?l = None" "refs ?l = rc'" "at_cursor ?s ?l"
    by (simp_all add: source_lintree_def at_cursor_def)
  then have at: "at_cursor ?m ?l" "at_cursor rs (advance 4 ?l)"
    "at_cursor (tag S v) (advance (4 + length rs) ?l)" "at_cursor bs (advance (8 + length rs) ?l)"
    by (auto simp: at_cursor_append ac_simps)
  have "decode fuel S ?R ?l =
      Done (value_image S v, advance (8 + length rs + length bs) (set_last_ring (Some ?r) ?l))"
    using decode_ring_value_tag [OF ready assms(7) get_int_at [OF at(1)] dec_r [OF at(2), of k]]
      at dec [of "advance (8 + length rs) (set_last_ring (Some ?r) ?l)"] k
    by (simp add: Let_def ac_simps flip: set_last_ring_simps(2))
  with to show ?thesis by (auto simp: from_string_def has_error_def l)
qed

definition sample_current :: singular where
  "sample_current = sample_singular\<lparr>currRing := Some (Ring 7 (Cf_Zp 5) 2 [[120], [121]]
     [Order 4 1 2 [3, 4], Order 1 1 2 []] None)\<rparr>"

theorem ring_value_roundtrip_witness:
  "\<exists>str. to_string sample_current (library_registry sample_tokens [400])
      (L_poly [Term (Num_Zp 3) 0 [2, 1]]) (\<lambda>_. 0) = Done (str, \<lambda>_. 0) \<and>
    from_string 2 sample_current (library_registry sample_tokens [400]) str (\<lambda>_. 9) =
      Done (L_poly [Term (Num_Zp 3) 0 [2, 1]], \<lambda>_. 9)"
proof -
  let ?r = "Ring 7 (Cf_Zp 5) 2 [[120], [121]] [Order 4 1 2 [3, 4], Order 1 1 2 []] None"
  have tok: "tok sample_current = sample_tokens" by (simp add: sample_current_def sample_singular_def)
  have 1: "tokens_ok (tok sample_current)" "fresh_types (tok sample_current) [400]"
    using sample_library_ok by (simp_all add: tok sample_singular_def)
  have 2: "gmp_ok sample_current"
    using sample_gmp_ok by (simp add: gmp_ok_def sample_current_def)
  have 3: "currRing sample_current = Some ?r" by (simp add: sample_current_def)
  have 4: "basic_ring sample_current ?r"
    by (simp add: sample_current_def sample_singular_def c_string_def n_weights_def)
  have 5: "rDefault_makes_ring sample_current"
    by (simp add: rDefault_makes_ring_def sample_current_def sample_singular_def)
  have 6: "ring_value_ok sample_current ?r (L_poly [Term (Num_Zp 3) 0 [2, 1]])" by simp
  from ring_value_roundtrip [OF 1 2 3 4 5 6, of 2] show ?thesis by (simp add: tok)
qed

section \<open>Where the encoding gives up\<close>

text \<open>
  C23. When encoding runs into an error, the string is the encoding of \<open>NONE\<close>, which is
  decoded to \<open>NONE\<close>; the references that encoding had acquired up to the error are kept.
\<close>

theorem encoding_error_becomes_none:
  assumes "tokens_ok (tok S)" and "fresh_types (tok S) sh"
    and "encode S (library_registry (tok S) sh) v (new_lintree rc) = Done lt" and "has_error lt"
    and "0 < fuel"
  shows "\<exists>str. to_string S (library_registry (tok S) sh) v rc = Done (str, refs lt) \<and>
    from_string fuel S (library_registry (tok S) sh) str rc' = Done (L_none, rc')"
proof -
  let ?R = "library_registry (tok S) sh"
  have codec: "codec_of L_none = Some C_none" "shared_type_in sh L_none"
    by (simp_all add: shared_type_in_def)
  have "to_string S ?R v rc = Done (tag S L_none, refs lt)"
    using assms(3,4) by (simp add: to_string_def clear_def put_simps(1) tag_def)
  moreover have "at_cursor (tag S L_none) (source_lintree (tag S L_none) rc')"
    by (simp add: source_lintree_def at_cursor_def)
  with assms(5) have "decode fuel S ?R (source_lintree (tag S L_none) rc') =
      Done (L_none, advance 4 (source_lintree (tag S L_none) rc'))"
    by (cases fuel)
      (simp_all add: decode_tag [OF library_registry_ready assms(1,2) codec] decode_none_def)
  ultimately show ?thesis
    by (auto simp: from_string_def has_error_def source_lintree_def)
qed

lemma other_not_served:
  assumes "ready S sh R" and "t \<notin> set sh" and "t \<notin> set (token_list (tok S))"
  shows "encode S R (L_other t) lt = Done (mark_error ''trying to share unsupported data type'' lt)"
proof -
  have "builtin_codec (tok S) t = None"
    using assms(3) by (auto simp: builtin_codec_def token_list_def)
  then have "lookup_codec (encoders R) t = None"
    using assms(1,2) by (simp add: ready_def registry_abs_def Let_def)
  then show ?thesis by (simp add: encode.simps)
qed

lemma sample_size: "lSize sample_singular l = int (length l) - 1"
  by (simp add: sample_singular_def)

text \<open>Here the reference of the first element stays behind.\<close>

theorem encoding_error_becomes_none_witness:
  "\<exists>str (lt :: lintree). to_string sample_singular (library_registry sample_tokens [400])
      (L_list [L_blackbox 400 77, L_other 999]) (\<lambda>_. 0) = Done (str, refs lt) \<and>
    refs lt 77 = 1 \<and>
    from_string 1 sample_singular (library_registry sample_tokens [400]) str (\<lambda>_. 0) =
      Done (L_none, \<lambda>_. 0)"
proof -
  let ?R = "library_registry sample_tokens [400]" and ?v = "L_list [L_blackbox 400 77, L_other 999]"
  have tok: "tok sample_singular = sample_tokens" by (simp add: sample_singular_def)
  note ready = library_registry_ready [of sample_singular "[400]"] sample_library_ok
  have other: "encode sample_singular ?R (L_other 999) lt =
      Done (mark_error ''trying to share unsupported data type'' lt)" for lt
    using other_not_served [OF ready(1), of 999]
    by (simp add: tok) (simp add: sample_tokens_def token_list_def)
  have obj: "encode sample_singular ?R (L_blackbox 400 77) lt =
      Done (bump [77] (put_bytes (tag sample_singular (L_blackbox 400 77) @ le_bytes 8 (unat (77 :: 64 word))) lt))" for lt
    using conveys_enc [OF conveys_shared [OF ready, of 400 77]] by (simp add: tok)
  have list: "encode sample_singular ?R ?v (new_lintree (\<lambda>_. 0)) =
      encode_list sample_singular (encode sample_singular ?R) ?v
        (put_bytes (tag sample_singular ?v) (new_lintree (\<lambda>_. 0)))"
    using encode_tag [OF ready, of ?v C_list] by (simp add: tok shared_type_in_def ring_codec_def)
  then obtain lt where lt: "encode sample_singular ?R ?v (new_lintree (\<lambda>_. 0)) = Done lt"
      "has_error lt" "refs lt 77 = 1"
    by (simp add: other obj sample_size has_error_def mark_error_def put_simps(1) bump_def
        new_lintree_def)
  from encoding_error_becomes_none [OF ready(2,3), of ?v "\<lambda>_. 0" lt 1 "\<lambda>_. 0", unfolded tok,
      OF lt(1,2) zero_less_one] obtain str where
    "to_string sample_singular ?R ?v (\<lambda>_. 0) = Done (str, refs lt) \<and>
     from_string 1 sample_singular ?R str (\<lambda>_. 0) = Done (L_none, \<lambda>_. 0)" ..
  with lt(3) show ?thesis by (intro exI [of _ str] exI [of _ lt]) simp
qed

text \<open>
  C24. The update of reference counts inside an encoded list of one shared object finds no
  object: the count of the list's last element never changes.
\<close>

theorem list_references_not_updated:
  assumes "tokens_ok (tok S)" and "fresh_types (tok S) sh" and "t \<in> set sh" and "obj \<noteq> 0"
    and "lSize S [L_blackbox t obj] = 0"
  shows "\<exists>str lt. to_string S (library_registry (tok S) sh) (L_list [L_blackbox t obj]) rc =
      Done (str, rc(obj := rc obj + 1)) \<and>
    updateref 2 S (library_registry (tok S) sh) (- 1) (source_lintree str rc') = Done lt \<and>
    refs lt = rc'"
proof -
  let ?R = "library_registry (tok S) sh" and ?v = "L_list [L_blackbox t obj]"
  note ready = library_registry_ready [of S sh] assms(1,2)
  have codec: "codec_of ?v = Some C_list" "shared_type_in sh ?v" by (simp_all add: shared_type_in_def)
  note c = ready_codec [OF ready codec]
  let ?str = "tag S ?v @ le_bytes 4 (unat (0 :: 32 word)) @ tag S (L_blackbox t obj) @ le_bytes 8 (unat obj)"
  have "encode S ?R ?v (new_lintree rc) = Done (bump [obj] (put_bytes ?str (new_lintree rc)))"
    using conveys_enc [OF conveys_shared [OF ready assms(3,4)]] assms(5)
    by (simp add: encode_tag [OF ready codec] ring_codec_def put_simps(1,5))
  then have to: "to_string S ?R ?v rc = Done (?str, rc(obj := rc obj + 1))"
    by (auto simp: to_string_def has_error_def new_lintree_def bump_def)
  let ?l = "source_lintree ?str rc'"
  have "at_cursor ?str ?l" by (simp add: source_lintree_def at_cursor_def)
  then have "get_int ?l = Done (word_of_nat (Typ (tok S) ?v), advance 4 ?l)"
    and "get_int (advance 4 ?l) = Done (0, advance 8 ?l)"
    using get_int_at [of 0 "advance 4 ?l"] by (auto simp: at_cursor_append tag_def intro: get_int_at)
  then have "updateref 2 S ?R (- 1) ?l = Done (advance 8 ?l)"
    using find_codec_lookup [OF c(3,5)] by (simp add: numeral_2_eq_2 ref_list_def)
  with to show ?thesis by (intro exI [of _ ?str] exI [of _ "advance 8 ?l"]) (simp add: source_lintree_def)
qed

theorem list_references_not_updated_witness:
  "\<exists>str lt. to_string sample_singular (library_registry sample_tokens [400]) (L_list [L_blackbox 400 77])
      (\<lambda>_. 0) = Done (str, (\<lambda>_. 0)(77 := 1)) \<and>
    updateref 2 sample_singular (library_registry sample_tokens [400]) (- 1) (source_lintree str (\<lambda>_. 5)) =
      Done lt \<and> refs lt = (\<lambda>_. 5)"
  using list_references_not_updated [OF sample_library_ok, of 400 77 "\<lambda>_. 0" "\<lambda>_. 5"]
  by (simp add: sample_singular_def)

text \<open>
  A null ring is written as one int but read back as two: reading the string of a
  null ring runs past the end of the buffer.
\<close>

theorem null_ring_unreadable:
  assumes "tokens_ok (tok S)" and "fresh_types (tok S) sh"
  shows "\<exists>str. to_string S (library_registry (tok S) sh) (L_ring None) rc = Done (str, rc) \<and>
    from_string 2 S (library_registry (tok S) sh) str rc' = Crash Out_of_bounds"
proof -
  let ?R = "library_registry (tok S) sh" and ?v = "L_ring None"
  note ready = library_registry_ready [of S sh] assms
  have codec: "codec_of ?v = Some C_ring" "shared_type_in sh ?v" by (simp_all add: shared_type_in_def)
  let ?str = "tag S ?v @ le_bytes 4 (unat (- 4 :: 32 word))"
  have "encode S ?R ?v (new_lintree rc) = Done (put_bytes ?str (new_lintree rc))"
    by (simp add: encode_tag [OF ready codec] ring_codec_def put_simps(1,5) encode_ring_def)
  then have to: "to_string S ?R ?v rc = Done (?str, rc)"
    by (simp add: to_string_def has_error_def new_lintree_def)
  let ?l = "source_lintree ?str rc'"
  have "at_cursor ?str ?l" by (simp add: source_lintree_def at_cursor_def)
  then have at: "at_cursor (tag S ?v) ?l" and "get_int (advance 4 ?l) = Done (- 4, advance 8 ?l)"
    using get_int_at [of "- 4" "advance 4 ?l"] by (auto simp: at_cursor_append)
  moreover have "get_int (advance 8 ?l) = Crash Out_of_bounds"
    by (simp add: get_int_def get_bytes_def source_lintree_def)
  ultimately have "decode 2 S ?R ?l = Crash Out_of_bounds"
    using decode_tag [OF ready codec at, of 1] by (simp add: numeral_2_eq_2 decode_ring_def)
  then have "from_string 2 S ?R ?str rc' = Crash Out_of_bounds" by (simp add: from_string_def)
  with to show ?thesis by blast
qed

theorem null_ring_unreadable_witness:
  "\<exists>str. to_string sample_singular (library_registry sample_tokens [400]) (L_ring None) (\<lambda>_. 0) =
      Done (str, \<lambda>_. 0) \<and>
    from_string 2 sample_singular (library_registry sample_tokens [400]) str (\<lambda>_. 0) = Crash Out_of_bounds"
  using null_ring_unreadable [OF sample_library_ok, of "\<lambda>_. 0" "\<lambda>_. 0"]
  by (simp add: sample_singular_def)

end
