(* ===== verification/Shared_Heap.thy ===== *)
theory Shared_Heap
  imports Lin_Rings Shared_Sync
begin

text \<open>
  shared.cc, the shared objects: their reference counts, the tables of names, regions,
  and the transactional tables and lists. Objects live in a heap by address; address 0 is
  the null pointer. Objects are never deleted: \<open>releaseShared\<close> has its \<open>delete\<close>
  commented out.
\<close>

section \<open>Objects and their heap\<close>

type_synonym addr = "64 word"

text \<open>
  The lock of a transactional object: not set yet, a lock of its own, or the lock of the
  region it belongs to.
\<close>

datatype tx_lock = Tx_unset | Tx_own lock | Tx_region addr

text \<open>
  The subclasses of \<open>SharedObject\<close>. Threads, thread pools, jobs and triggers are shared
  objects as well; their state is modelled with the scheduler.
\<close>

datatype payload =
    P_region lock "bytes \<Rightarrow> addr option"
  | P_channel channel
  | P_syncvar "syncvar monitor"
  | P_table tx_lock "bytes \<Rightarrow> bytes option"
  | P_list tx_lock "bytes list"
  | P_other

record shared_object =
  so_type :: nat
  so_name :: bytes
  so_refs :: int
  so_data :: payload

record shared_sys =
  objects :: "addr \<Rightarrow> shared_object option"
  next_addr :: nat
  global_objects :: "bytes \<Rightarrow> addr option"
  global_objects_lock :: lock

text \<open>The initial system: no objects; the first address is any positive number.\<close>

definition initial_sys :: "nat \<Rightarrow> shared_sys" where
  "initial_sys n = \<lparr>objects = (\<lambda>_. None), next_addr = n, global_objects = (\<lambda>_. None),
     global_objects_lock = new_lock False\<rparr>"

text \<open>Following a pointer.\<close>

definition deref :: "addr \<Rightarrow> shared_sys \<Rightarrow> shared_object flow" where
  "deref p s =
     (if p = 0 then Crash Null_deref
      else case objects s p of None \<Rightarrow> Crash Use_after_free | Some obj \<Rightarrow> Done obj)"

definition set_object :: "addr \<Rightarrow> shared_object \<Rightarrow> shared_sys \<Rightarrow> shared_sys" where
  "set_object p obj s = s\<lparr>objects := (objects s)(p \<mapsto> obj)\<rparr>"

definition set_data :: "addr \<Rightarrow> payload \<Rightarrow> shared_sys \<Rightarrow> shared_sys flow" where
  "set_data p d s = map_flow_value (\<lambda>obj. set_object p (obj\<lparr>so_data := d\<rparr>) s) (deref p s)"

text \<open>\<open>new\<close>: an address not used before. The constructor of the base class counts from 0.\<close>

definition allocate :: "payload \<Rightarrow> nat \<Rightarrow> bytes \<Rightarrow> shared_sys \<Rightarrow> (addr \<times> shared_sys) flow" where
  "allocate d ty nm s =
     (if 2 ^ 64 \<le> next_addr s then Crash (Fatal ''out of memory'')
      else let p = word_of_nat (next_addr s)
           in Done (p, set_object p \<lparr>so_type = ty, so_name = nm, so_refs = 0, so_data = d\<rparr>
                         (s\<lparr>next_addr := next_addr s + 1\<rparr>)))"

text \<open>\<open>incref\<close> and \<open>decref\<close>; the parameter \<open>by\<close> of \<open>incref\<close> is not used by the code.\<close>

definition incref :: "addr \<Rightarrow> int \<Rightarrow> shared_sys \<Rightarrow> shared_sys flow" where
  "incref p by s = map_flow_value (\<lambda>obj. set_object p (obj\<lparr>so_refs := so_refs obj + 1\<rparr>) s) (deref p s)"

definition decref :: "addr \<Rightarrow> shared_sys \<Rightarrow> (int \<times> shared_sys) flow" where
  "decref p s = map_flow_value
     (\<lambda>obj. (so_refs obj - 1, set_object p (obj\<lparr>so_refs := so_refs obj - 1\<rparr>) s)) (deref p s)"

definition acquireShared :: "addr \<Rightarrow> shared_sys \<Rightarrow> shared_sys flow" where
  "acquireShared p s = incref p 1 s"

definition releaseShared :: "addr \<Rightarrow> shared_sys \<Rightarrow> shared_sys flow" where
  "releaseShared p s = map_flow_value snd (decref p s)"

section \<open>The blackbox functions\<close>

text \<open>A blackbox value is a cell that holds a pointer; the cell of a new value is null.\<close>

definition shared_init :: addr where
  "shared_init = 0"

definition new_shared :: "addr \<Rightarrow> shared_sys \<Rightarrow> (addr \<times> shared_sys) flow" where
  "new_shared p s = map_flow_value (Pair p) (acquireShared p s)"

definition shared_destroy :: "addr \<Rightarrow> shared_sys \<Rightarrow> shared_sys flow" where
  "shared_destroy cell s = (if cell \<noteq> 0 then releaseShared cell s else Done s)"

definition shared_copy :: "addr \<Rightarrow> shared_sys \<Rightarrow> (addr \<times> shared_sys) flow" where
  "shared_copy cell s =
     (if cell \<noteq> 0 then map_flow_value (Pair cell) (acquireShared cell s) else Done (cell, s))"

text \<open>
  \<open>Region::lock\<close> and \<open>unlock\<close> take the region's lock unless the thread has it, and give
  it back if the thread has it.
\<close>

definition region_lock :: "addr \<Rightarrow> shared_sys \<Rightarrow> lock flow" where
  "region_lock p s = bind_flow (deref p s) (\<lambda>obj.
     case so_data obj of P_region l tbl \<Rightarrow> Done l | _ \<Rightarrow> Crash Type_confusion)"

definition set_region_lock :: "addr \<Rightarrow> lock \<Rightarrow> shared_sys \<Rightarrow> shared_sys flow" where
  "set_region_lock p l s = bind_flow (deref p s) (\<lambda>obj.
     case so_data obj of
       P_region _ tbl \<Rightarrow> Done (set_object p (obj\<lparr>so_data := P_region l tbl\<rparr>) s)
     | _ \<Rightarrow> Crash Type_confusion)"

definition region_is_locked :: "thread \<Rightarrow> addr \<Rightarrow> shared_sys \<Rightarrow> bool flow" where
  "region_is_locked t p s = map_flow_value (is_locked t) (region_lock p s)"

definition lock_region :: "thread \<Rightarrow> addr \<Rightarrow> shared_sys \<Rightarrow> shared_sys flow" where
  "lock_region t p s = bind_flow (region_lock p s) (\<lambda>l.
     if \<not> is_locked t l then bind_flow (lock_lock t l) (\<lambda>l. set_region_lock p l s) else Done s)"

definition unlock_region :: "thread \<Rightarrow> addr \<Rightarrow> shared_sys \<Rightarrow> shared_sys flow" where
  "unlock_region t p s = bind_flow (region_lock p s) (\<lambda>l.
     if is_locked t l then bind_flow (unlock_lock t l) (\<lambda>l. set_region_lock p l s) else Done s)"

text \<open>The destructor of a region lock gives the region back first, null or not.\<close>

definition rlock_destroy :: "thread \<Rightarrow> addr \<Rightarrow> shared_sys \<Rightarrow> shared_sys flow" where
  "rlock_destroy t cell s = bind_flow (unlock_region t cell s) (\<lambda>s.
     if cell \<noteq> 0 then releaseShared cell s else Done s)"

text \<open>
  Assignment. The left side is an identifier with its cell, some other value with a cell or
  a null data field, or out of bounds. For an identifier the old cell is freed without
  releasing its object.
\<close>

datatype lhs = L_ident addr | L_value "addr option" | L_out_of_bounds

datatype assigned = Assigned addr | Assign_error

definition shared_assign :: "nat \<Rightarrow> lhs \<Rightarrow> nat \<Rightarrow> addr \<Rightarrow> shared_sys \<Rightarrow> (assigned \<times> shared_sys) flow" where
  "shared_assign lty l rty r s =
     (if rty = lty then
        (case l of
           L_ident old \<Rightarrow> map_flow_value (apfst Assigned) (shared_copy r s)
         | L_out_of_bounds \<Rightarrow> Done (Assign_error, s)
         | L_value data \<Rightarrow>
             bind_flow (case data of Some old \<Rightarrow> shared_destroy old s | None \<Rightarrow> Done s) (\<lambda>s.
               map_flow_value (apfst Assigned) (shared_copy r s)))
      else Done (Assign_error, s))"

definition rlock_assign :: "thread \<Rightarrow> nat \<Rightarrow> lhs \<Rightarrow> nat \<Rightarrow> addr \<Rightarrow> shared_sys \<Rightarrow> (assigned \<times> shared_sys) flow" where
  "rlock_assign t lty l rty r s =
     (if rty = lty then
        (case l of
           L_ident old \<Rightarrow> map_flow_value (apfst Assigned) (shared_copy r s)
         | L_out_of_bounds \<Rightarrow> Done (Assign_error, s)
         | L_value data \<Rightarrow>
             bind_flow (case data of Some old \<Rightarrow> rlock_destroy t old s | None \<Rightarrow> Crash Null_deref) (\<lambda>s.
               map_flow_value (apfst Assigned) (shared_copy r s)))
      else Done (Assign_error, s))"

definition shared_check_assign :: "nat \<Rightarrow> nat \<Rightarrow> nat \<Rightarrow> bool" where
  "shared_check_assign t_DEF lt rt \<longleftrightarrow> lt \<noteq> t_DEF \<and> lt \<noteq> rt"

section \<open>Tables of names\<close>

text \<open>
  \<open>makeSharedObject\<close> and \<open>findSharedObject\<close> take a table and its lock; a thread that
  already has the lock keeps it.
\<close>

definition lock_unless_held :: "thread \<Rightarrow> lock \<Rightarrow> lock flow" where
  "lock_unless_held t l = (if is_locked t l then Done l else lock_lock t l)"

definition unlock_unless :: "bool \<Rightarrow> thread \<Rightarrow> lock \<Rightarrow> lock flow" where
  "unlock_unless was t l = (if was then Done l else unlock_lock t l)"

definition make_shared_object ::
    "thread \<Rightarrow> nat \<Rightarrow> bytes \<Rightarrow> payload \<Rightarrow> (bytes \<Rightarrow> addr option) \<Rightarrow> lock \<Rightarrow> shared_sys \<Rightarrow>
      (addr \<times> (bytes \<Rightarrow> addr option) \<times> lock \<times> shared_sys) flow" where
  "make_shared_object t ty nm cons tbl l s =
     bind_flow (lock_unless_held t l) (\<lambda>l'.
     bind_flow
       (case tbl nm of
          Some p \<Rightarrow> map_flow_value (\<lambda>obj. (if so_type obj \<noteq> ty then 0 else p, tbl, s)) (deref p s)
        | None \<Rightarrow> map_flow_value (\<lambda>(p, s). (p, tbl(nm \<mapsto> p), s)) (allocate cons ty nm s)) (\<lambda>(p, tbl, s).
     map_flow_value (\<lambda>l''. (p, tbl, l'', s)) (unlock_unless (is_locked t l) t l')))"

definition find_shared_object ::
    "thread \<Rightarrow> bytes \<Rightarrow> (bytes \<Rightarrow> addr option) \<Rightarrow> lock \<Rightarrow> (addr \<times> lock) flow" where
  "find_shared_object t nm tbl l =
     bind_flow (lock_unless_held t l) (\<lambda>l'.
     map_flow_value (Pair (case tbl nm of Some p \<Rightarrow> p | None \<Rightarrow> 0)) (unlock_unless (is_locked t l) t l'))"

text \<open>The two tables: the global one, and the one of a region with the region's lock.\<close>

definition make_global :: "thread \<Rightarrow> nat \<Rightarrow> bytes \<Rightarrow> payload \<Rightarrow> shared_sys \<Rightarrow> (addr \<times> shared_sys) flow" where
  "make_global t ty nm cons s = map_flow_value
     (\<lambda>(p, tbl, l, s). (p, s\<lparr>global_objects := tbl, global_objects_lock := l\<rparr>))
     (make_shared_object t ty nm cons (global_objects s) (global_objects_lock s) s)"

definition find_global :: "thread \<Rightarrow> bytes \<Rightarrow> shared_sys \<Rightarrow> (addr \<times> shared_sys) flow" where
  "find_global t nm s = map_flow_value (\<lambda>(p, l). (p, s\<lparr>global_objects_lock := l\<rparr>))
     (find_shared_object t nm (global_objects s) (global_objects_lock s))"

definition make_in_region :: "thread \<Rightarrow> addr \<Rightarrow> nat \<Rightarrow> bytes \<Rightarrow> payload \<Rightarrow> shared_sys \<Rightarrow> (addr \<times> shared_sys) flow" where
  "make_in_region t reg ty nm cons s = bind_flow (deref reg s) (\<lambda>obj.
     case so_data obj of
       P_region l tbl \<Rightarrow> bind_flow (make_shared_object t ty nm cons tbl l s) (\<lambda>(p, tbl, l, s).
         map_flow_value (Pair p) (set_data reg (P_region l tbl) s))
     | _ \<Rightarrow> Crash Type_confusion)"

end
