(* ===== verification/Shared_Tx.thy ===== *)
theory Shared_Tx
  imports Shared_Heap
begin

text \<open>
  shared.cc, \<open>Transactional\<close>, \<open>TxTable\<close> and \<open>TxList\<close>: tables and lists whose
  operations run under a lock of their own, or only for a thread that has locked their
  region.
\<close>

section \<open>Transactions\<close>

fun tx_lock_of :: "payload \<Rightarrow> tx_lock option" where
  "tx_lock_of (P_table k _) = Some k"
| "tx_lock_of (P_list k _) = Some k"
| "tx_lock_of _ = None"

fun with_tx_lock :: "tx_lock \<Rightarrow> payload \<Rightarrow> payload" where
  "with_tx_lock k (P_table _ e) = P_table k e"
| "with_tx_lock k (P_list _ e) = P_list k e"
| "with_tx_lock k d = d"

text \<open>
  \<open>set_region\<close>. Without a region the object gets a new lock, even if it had one.
\<close>

definition set_region :: "addr option \<Rightarrow> addr \<Rightarrow> shared_sys \<Rightarrow> shared_sys flow" where
  "set_region reg p s = bind_flow (deref p s) (\<lambda>obj.
     case tx_lock_of (so_data obj) of
       None \<Rightarrow> Crash Type_confusion
     | Some _ \<Rightarrow>
         let k = (case reg of Some r \<Rightarrow> Tx_region r | None \<Rightarrow> Tx_own (new_lock False))
         in Done (set_object p (obj\<lparr>so_data := with_tx_lock k (so_data obj)\<rparr>) s))"

definition tx_begin :: "thread \<Rightarrow> addr \<Rightarrow> shared_sys \<Rightarrow> (bool \<times> shared_sys) flow" where
  "tx_begin t p s = bind_flow (deref p s) (\<lambda>obj.
     case tx_lock_of (so_data obj) of
       None \<Rightarrow> Crash Type_confusion
     | Some Tx_unset \<Rightarrow> Crash Null_deref
     | Some (Tx_own l) \<Rightarrow>
         map_flow_value (\<lambda>l. (True, set_object p (obj\<lparr>so_data := with_tx_lock (Tx_own l) (so_data obj)\<rparr>) s))
           (lock_lock t l)
     | Some (Tx_region r) \<Rightarrow> map_flow_value (\<lambda>held. (held, s)) (region_is_locked t r s))"

definition tx_end :: "thread \<Rightarrow> addr \<Rightarrow> shared_sys \<Rightarrow> shared_sys flow" where
  "tx_end t p s = bind_flow (deref p s) (\<lambda>obj.
     case tx_lock_of (so_data obj) of
       None \<Rightarrow> Crash Type_confusion
     | Some Tx_unset \<Rightarrow> Crash Null_deref
     | Some (Tx_own l) \<Rightarrow>
         map_flow_value (\<lambda>l. set_object p (obj\<lparr>so_data := with_tx_lock (Tx_own l) (so_data obj)\<rparr>) s)
           (unlock_lock t l)
     | Some (Tx_region r) \<Rightarrow> Done s)"

text \<open>
  The shape of all operations: \<open>-1\<close> when the transaction cannot begin, else the body
  between begin and end.
\<close>

definition bracketed ::
    "(thread \<Rightarrow> addr \<Rightarrow> shared_sys \<Rightarrow> (bool \<times> shared_sys) flow) \<Rightarrow>
     (thread \<Rightarrow> addr \<Rightarrow> shared_sys \<Rightarrow> shared_sys flow) \<Rightarrow>
     thread \<Rightarrow> addr \<Rightarrow> (payload \<Rightarrow> ('r \<times> payload) flow) \<Rightarrow> 'r \<Rightarrow> shared_sys \<Rightarrow> ('r \<times> shared_sys) flow" where
  "bracketed begins ends t p body failed s = bind_flow (begins t p s) (\<lambda>(ok, s).
     if \<not> ok then Done (failed, s)
     else bind_flow (deref p s) (\<lambda>obj. bind_flow (body (so_data obj)) (\<lambda>(res, d).
       map_flow_value (Pair res) (ends t p (set_object p (obj\<lparr>so_data := d\<rparr>) s)))))"

definition transaction ::
    "thread \<Rightarrow> addr \<Rightarrow> (payload \<Rightarrow> ('r \<times> payload) flow) \<Rightarrow> 'r \<Rightarrow> shared_sys \<Rightarrow> ('r \<times> shared_sys) flow" where
  "transaction = bracketed tx_begin tx_end"

section \<open>Tables\<close>

fun table_put_body :: "bytes \<Rightarrow> bytes \<Rightarrow> payload \<Rightarrow> (int \<times> payload) flow" where
  "table_put_body key val (P_table k e) =
     Done (if e key \<noteq> None then 0 else 1, P_table k (e(key \<mapsto> val)))"
| "table_put_body key val _ = Crash Type_confusion"

fun table_get_body :: "bytes \<Rightarrow> payload \<Rightarrow> ((int \<times> bytes) \<times> payload) flow" where
  "table_get_body key (P_table k e) =
     Done (case e key of Some val \<Rightarrow> (1, val) | None \<Rightarrow> (0, []), P_table k e)"
| "table_get_body key _ = Crash Type_confusion"

fun table_check_body :: "bytes \<Rightarrow> payload \<Rightarrow> (int \<times> payload) flow" where
  "table_check_body key (P_table k e) = Done (if e key \<noteq> None then 1 else 0, P_table k e)"
| "table_check_body key _ = Crash Type_confusion"

definition table_put :: "thread \<Rightarrow> addr \<Rightarrow> bytes \<Rightarrow> bytes \<Rightarrow> shared_sys \<Rightarrow> (int \<times> shared_sys) flow" where
  "table_put t p key val = transaction t p (table_put_body key val) (- 1)"

definition table_get :: "thread \<Rightarrow> addr \<Rightarrow> bytes \<Rightarrow> shared_sys \<Rightarrow> ((int \<times> bytes) \<times> shared_sys) flow" where
  "table_get t p key = transaction t p (table_get_body key) (- 1, [])"

definition table_check :: "thread \<Rightarrow> addr \<Rightarrow> bytes \<Rightarrow> shared_sys \<Rightarrow> (int \<times> shared_sys) flow" where
  "table_check t p key = transaction t p (table_check_body key) (- 1)"

section \<open>Lists\<close>

text \<open>
  The index is a \<open>size_t\<close>, so a negative one is huge. \<open>put\<close> behind the end resizes to
  one more than the index; resizing beyond what a vector can hold throws, which ends the
  program. \<open>max_vector\<close> is \<open>max_size\<close> of a vector of strings of 32 bytes.
\<close>

definition max_vector :: nat where
  "max_vector = 2 ^ 58 - 1"

definition resize_vector :: "nat \<Rightarrow> bytes list \<Rightarrow> bytes list flow" where
  "resize_vector n e =
     (if max_vector < n then Crash Aborted else Done (take n e @ replicate (n - length e) []))"

definition vector_set :: "64 word \<Rightarrow> bytes \<Rightarrow> bytes list \<Rightarrow> bytes list flow" where
  "vector_set i val e = (if unat i < length e then Done (e[unat i := val]) else Crash Out_of_bounds)"

fun list_put_body :: "64 word \<Rightarrow> bytes \<Rightarrow> payload \<Rightarrow> (int \<times> payload) flow" where
  "list_put_body index val (P_list k e) =
     (if 1 \<le> index \<and> unat index \<le> length e then
        map_flow_value (\<lambda>e. (1, P_list k e)) (vector_set (index - 1) val e)
      else
        bind_flow (resize_vector (unat (index + 1)) e) (\<lambda>e.
          map_flow_value (\<lambda>e. (0, P_list k e)) (vector_set (index - 1) val e)))"
| "list_put_body index val _ = Crash Type_confusion"

fun list_get_body :: "64 word \<Rightarrow> payload \<Rightarrow> ((int \<times> bytes) \<times> payload) flow" where
  "list_get_body index (P_list k e) =
     Done (if 1 \<le> index \<and> unat index \<le> length e \<and> e ! (unat index - 1) \<noteq> []
           then (1, e ! (unat index - 1)) else (0, []), P_list k e)"
| "list_get_body index _ = Crash Type_confusion"

fun list_size_body :: "payload \<Rightarrow> (int \<times> payload) flow" where
  "list_size_body (P_list k e) = Done (int (length e), P_list k e)"
| "list_size_body _ = Crash Type_confusion"

definition list_put :: "thread \<Rightarrow> addr \<Rightarrow> 64 word \<Rightarrow> bytes \<Rightarrow> shared_sys \<Rightarrow> (int \<times> shared_sys) flow" where
  "list_put t p index val = transaction t p (list_put_body index val) (- 1)"

definition list_get :: "thread \<Rightarrow> addr \<Rightarrow> 64 word \<Rightarrow> shared_sys \<Rightarrow> ((int \<times> bytes) \<times> shared_sys) flow" where
  "list_get t p index = transaction t p (list_get_body index) (- 1, [])"

definition list_size :: "thread \<Rightarrow> addr \<Rightarrow> shared_sys \<Rightarrow> (int \<times> shared_sys) flow" where
  "list_size t p = transaction t p list_size_body (- 1)"

section \<open>Who may enter\<close>

lemma deref_Done: "deref p s = Done obj \<longleftrightarrow> p \<noteq> 0 \<and> objects s p = Some obj"
  by (auto simp: deref_def split: option.splits)

lemma deref_object: "objects s p = Some obj \<Longrightarrow> p \<noteq> 0 \<Longrightarrow> deref p s = Done obj"
  by (simp add: deref_def)

lemma objects_set_object [simp]:
  "objects (set_object p obj s) = (objects s)(p \<mapsto> obj)"
  "next_addr (set_object p obj s) = next_addr s"
  "global_objects (set_object p obj s) = global_objects s"
  "global_objects_lock (set_object p obj s) = global_objects_lock s"
  by (simp_all add: set_object_def)

lemma set_object_twice [simp]: "set_object p o2 (set_object p o1 s) = set_object p o2 s"
  by (simp add: set_object_def)

lemma with_tx_lock_simps [simp]:
  "tx_lock_of d = Some k \<Longrightarrow> with_tx_lock k d = d"
  "with_tx_lock k (with_tx_lock k' d) = with_tx_lock k d"
  "tx_lock_of d \<noteq> None \<Longrightarrow> tx_lock_of (with_tx_lock k d) = Some k"
  by (cases d; auto)+

text \<open>
  The abstract view of the lock of an object: a thread has to wait, is turned away or is
  let in. Between operations a lock of one's own is not recursive and nobody is two deep
  in it.
\<close>

datatype access = Wait | Turned_away | Let_in

definition tx_access :: "thread \<Rightarrow> tx_lock \<Rightarrow> shared_sys \<Rightarrow> access" where
  "tx_access t k s =
     (case k of
        Tx_own l \<Rightarrow> if lock_abs l = None then Let_in else Wait
      | Tx_region r \<Rightarrow> if region_is_locked t r s = Done True then Let_in else Turned_away
      | Tx_unset \<Rightarrow> Turned_away)"

definition tx_usable :: "thread \<Rightarrow> tx_lock \<Rightarrow> shared_sys \<Rightarrow> bool" where
  "tx_usable t k s =
     (case k of
        Tx_own l \<Rightarrow> lock_wf l \<and> \<not> recursive l \<and> owner l \<noteq> Some t
      | Tx_region r \<Rightarrow> (case region_is_locked t r s of Done _ \<Rightarrow> True | _ \<Rightarrow> False)
      | Tx_unset \<Rightarrow> False)"

lemma own_lock_cycle:
  assumes "lock_wf l" "owner l \<noteq> Some t"
  shows "lock_lock t l = (if lock_abs l = None
    then Done (l\<lparr>mutex := Some t, owner := Some t, locked := 1\<rparr>) else Block)"
    and "lock_abs l = None \<Longrightarrow> unlock_lock t (l\<lparr>mutex := Some t, owner := Some t, locked := 1\<rparr>) = Done l"
  using assms by (auto simp: lock_lock_def unlock_lock_def lock_abs_def split: option.splits)

definition has_data :: "shared_sys \<Rightarrow> addr \<Rightarrow> shared_object \<Rightarrow> payload \<Rightarrow> bool" where
  "has_data s p obj d \<longleftrightarrow> p \<noteq> 0 \<and> objects s p = Some obj \<and> so_data obj = d"

definition when_let_in :: "access \<Rightarrow> 'r \<Rightarrow> shared_sys \<Rightarrow> ('r \<times> shared_sys) flow \<Rightarrow> ('r \<times> shared_sys) flow" where
  "when_let_in a failed s inside =
     (case a of Wait \<Rightarrow> Block | Turned_away \<Rightarrow> Done (failed, s) | Let_in \<Rightarrow> inside)"

lemma set_object_same: "objects s p = Some obj \<Longrightarrow> set_object p obj s = s"
  by (simp add: set_object_def fun_upd_idem)

lemma has_data_same: "has_data s p obj d \<Longrightarrow> set_object p (obj\<lparr>so_data := d\<rparr>) s = s"
  by (intro set_object_same) (auto simp: has_data_def)

text \<open>
  What tables and lists rely on: entering waits, refuses without any change, or takes the
  lock \<open>k\<close> of the object to a state \<open>k'\<close> from which leaving takes it back, whatever the
  data have become. An operation that leaves the lock alone is then one step, or none.
\<close>

locale transactional =
  fixes begins :: "thread \<Rightarrow> addr \<Rightarrow> shared_sys \<Rightarrow> (bool \<times> shared_sys) flow"
    and ends :: "thread \<Rightarrow> addr \<Rightarrow> shared_sys \<Rightarrow> shared_sys flow"
    and usable :: "thread \<Rightarrow> tx_lock \<Rightarrow> shared_sys \<Rightarrow> bool"
    and access :: "thread \<Rightarrow> tx_lock \<Rightarrow> shared_sys \<Rightarrow> access"
  assumes enter_waits: "has_data s p obj d \<Longrightarrow> tx_lock_of d = Some k \<Longrightarrow> usable t k s \<Longrightarrow>
      access t k s = Wait \<Longrightarrow> begins t p s = Block"
    and enter_refuses: "has_data s p obj d \<Longrightarrow> tx_lock_of d = Some k \<Longrightarrow> usable t k s \<Longrightarrow>
      access t k s = Turned_away \<Longrightarrow> begins t p s = Done (False, s)"
    and enter_and_leave: "has_data s p obj d \<Longrightarrow> tx_lock_of d = Some k \<Longrightarrow> usable t k s \<Longrightarrow>
      access t k s = Let_in \<Longrightarrow> \<exists>k'.
        begins t p s = Done (True, set_object p (obj\<lparr>so_data := with_tx_lock k' d\<rparr>) s) \<and>
        (\<forall>d'. tx_lock_of d' = Some k \<longrightarrow>
          ends t p (set_object p (obj\<lparr>so_data := with_tx_lock k' d'\<rparr>) s) =
            Done (set_object p (obj\<lparr>so_data := d'\<rparr>) s))"
begin

lemma bracketed_eq:
  assumes "has_data s p obj d0" "tx_lock_of d0 = Some k" "usable t k s"
    and body: "\<And>k'. body (with_tx_lock k' d0) = map_flow_value (\<lambda>(res, d). (res, with_tx_lock k' d)) result"
    and keep: "\<And>res d. result = Done (res, d) \<Longrightarrow> tx_lock_of d = Some k"
  shows "bracketed begins ends t p body failed s = when_let_in (access t k s) failed s
    (map_flow_value (\<lambda>(res, d). (res, set_object p (obj\<lparr>so_data := d\<rparr>) s)) result)"
proof (cases "access t k s")
  case Let_in
  from enter_and_leave [OF assms(1-3) this] obtain k' where
    k': "begins t p s = Done (True, set_object p (obj\<lparr>so_data := with_tx_lock k' d0\<rparr>) s)"
      "\<forall>d'. tx_lock_of d' = Some k \<longrightarrow> ends t p (set_object p (obj\<lparr>so_data := with_tx_lock k' d'\<rparr>) s) =
         Done (set_object p (obj\<lparr>so_data := d'\<rparr>) s)" by blast
  have "p \<noteq> 0" using assms(1) by (simp add: has_data_def)
  then show ?thesis
    using k' body [of k'] keep Let_in
    by (cases result) (auto simp: bracketed_def deref_object when_let_in_def)
qed (use enter_waits [OF assms(1-3)] enter_refuses [OF assms(1-3)] in
      \<open>simp_all add: bracketed_def when_let_in_def\<close>)

lemma bracketed_result:
  assumes "has_data s p obj d0" "tx_lock_of d0 = Some k" "usable t k s"
    and "\<And>k'. body (with_tx_lock k' d0) = Done (res, with_tx_lock k' d)" and "tx_lock_of d = Some k"
  shows "bracketed begins ends t p body failed s =
    when_let_in (access t k s) failed s (Done (res, set_object p (obj\<lparr>so_data := d\<rparr>) s))"
  using bracketed_eq [of s p obj d0 k t body "Done (res, d)" failed] assms by simp

lemma bracketed_reads:
  assumes "has_data s p obj d" "tx_lock_of d = Some k" "usable t k s"
    and "\<And>k'. body (with_tx_lock k' d) = Done (res, with_tx_lock k' d)"
  shows "bracketed begins ends t p body failed s = when_let_in (access t k s) failed s (Done (res, s))"
  using bracketed_result [OF assms assms(2)] has_data_same [OF assms(1)] by simp

lemma bracketed_crash:
  assumes "has_data s p obj d0" "tx_lock_of d0 = Some k" "usable t k s"
    and "\<And>k'. body (with_tx_lock k' d0) = Crash f"
  shows "bracketed begins ends t p body failed s = when_let_in (access t k s) failed s (Crash f)"
  using bracketed_eq [of s p obj d0 k t body "Crash f" failed] assms by simp

end

lemma tx_enters:
  assumes "has_data s p obj d" "tx_lock_of d = Some k" "tx_usable t k s" "tx_access t k s = Let_in"
  shows "\<exists>k'. tx_begin t p s = Done (True, set_object p (obj\<lparr>so_data := with_tx_lock k' d\<rparr>) s) \<and>
    (\<forall>d'. tx_lock_of d' = Some k \<longrightarrow> tx_end t p (set_object p (obj\<lparr>so_data := with_tx_lock k' d'\<rparr>) s) =
      Done (set_object p (obj\<lparr>so_data := d'\<rparr>) s))"
proof (cases k)
  case (Tx_own l)
  then have l: "lock_wf l" "owner l \<noteq> Some t" "lock_abs l = None"
    using assms(3,4) by (simp_all add: tx_usable_def tx_access_def split: if_splits)
  have [simp]: "d' = with_tx_lock (Tx_own l) d'" if "tx_lock_of d' = Some k" for d'
    using that Tx_own by simp
  show ?thesis
    using assms(1,2) Tx_own own_lock_cycle [OF l(1,2)] l(3)
    by (intro exI [of _ "Tx_own (l\<lparr>mutex := Some t, owner := Some t, locked := 1\<rparr>)"])
      (auto simp: tx_begin_def tx_end_def has_data_def deref_object)
next
  case (Tx_region r)
  then have "region_is_locked t r s = Done True" using assms(4) by (simp add: tx_access_def split: if_splits)
  with assms(1,2) Tx_region has_data_same [OF assms(1)] show ?thesis
    by (intro exI [of _ k]) (auto simp: tx_begin_def tx_end_def has_data_def deref_object)
qed (use assms in \<open>simp add: tx_usable_def\<close>)

interpretation tx: transactional tx_begin tx_end tx_usable tx_access
proof
  fix s p obj d k t
  assume d: "has_data s p obj d" "tx_lock_of d = Some k" "tx_usable t k s"
  show "tx_begin t p s = Block" if "tx_access t k s = Wait"
    using d that own_lock_cycle
    by (cases k) (auto simp: tx_begin_def tx_access_def tx_usable_def has_data_def deref_object split: if_splits)
  show "tx_begin t p s = Done (False, s)" if "tx_access t k s = Turned_away"
    using d that
    by (cases k) (auto simp: tx_begin_def tx_access_def tx_usable_def has_data_def deref_object
        split: if_splits flow.splits)
qed (rule tx_enters)

section \<open>What tables and lists do\<close>

lemmas transaction_result = tx.bracketed_result [folded transaction_def]
lemmas transaction_reads = tx.bracketed_reads [folded transaction_def]
lemmas transaction_crash = tx.bracketed_crash [folded transaction_def]

lemma table_body_eqs:
  assumes "has_data s p obj (P_table k e)" and "tx_usable t k s"
  shows "table_put t p key val s = when_let_in (tx_access t k s) (- 1) s
      (Done (if e key = None then 1 else 0, set_object p (obj\<lparr>so_data := P_table k (e(key \<mapsto> val))\<rparr>) s))"
    and "table_get t p key s = when_let_in (tx_access t k s) (- 1, []) s
      (Done (case e key of Some v \<Rightarrow> (1, v) | None \<Rightarrow> (0, []), s))"
    and "table_check t p key s = when_let_in (tx_access t k s) (- 1) s
      (Done (if e key = None then 0 else 1, s))"
proof -
  note run = transaction_result [OF assms(1) _ assms(2)]
  note reads = transaction_reads [OF assms(1) _ assms(2)]
  show "table_put t p key val s = when_let_in (tx_access t k s) (- 1) s
      (Done (if e key = None then 1 else 0, set_object p (obj\<lparr>so_data := P_table k (e(key \<mapsto> val))\<rparr>) s))"
    unfolding table_put_def by (rule run) simp_all
  show "table_get t p key s = when_let_in (tx_access t k s) (- 1, []) s
      (Done (case e key of Some v \<Rightarrow> (1, v) | None \<Rightarrow> (0, []), s))"
    unfolding table_get_def by (rule reads) (simp_all split: option.split)
  show "table_check t p key s = when_let_in (tx_access t k s) (- 1) s
      (Done (if e key = None then 0 else 1, s))"
    unfolding table_check_def by (rule reads) simp_all
qed

text \<open>
  C26. A table is a map guarded by its lock: a thread waits while another one is inside,
  gets \<open>-1\<close> without any change when it has not locked the table's region, and otherwise
  \<open>put\<close> changes exactly the entry of the key and tells whether it is new, and \<open>get\<close> and
  \<open>check\<close> report the entry and change nothing.
\<close>

theorem table_operations:
  assumes "has_data s p obj (P_table k e)" and "tx_usable t k s"
  shows "table_put t p key val s = when_let_in (tx_access t k s) (- 1) s
      (Done (if e key = None then 1 else 0, set_object p (obj\<lparr>so_data := P_table k (e(key \<mapsto> val))\<rparr>) s)) \<and>
    table_get t p key s = when_let_in (tx_access t k s) (- 1, []) s
      (Done (case e key of Some v \<Rightarrow> (1, v) | None \<Rightarrow> (0, []), s)) \<and>
    table_check t p key s = when_let_in (tx_access t k s) (- 1) s
      (Done (if e key = None then 0 else 1, s))"
  using table_body_eqs [OF assms] by blast

text \<open>An object whose lock nobody has, and one in a region its caller has locked.\<close>

definition sample_sys :: shared_sys where
  "sample_sys = \<lparr>objects =
     [1 \<mapsto> \<lparr>so_type = 401, so_name = [65], so_refs = 1, so_data = P_table (Tx_own (new_lock False)) [[1] \<mapsto> [2]]\<rparr>,
      2 \<mapsto> \<lparr>so_type = 402, so_name = [66], so_refs = 1,
            so_data = P_region \<lparr>mutex = Some 7, owner = Some 7, locked = 1, recursive = False\<rparr> [[67] \<mapsto> 3]\<rparr>,
      3 \<mapsto> \<lparr>so_type = 403, so_name = [67], so_refs = 1, so_data = P_list (Tx_region 2) [[9], []]\<rparr>],
     next_addr = 4, global_objects = [[65] \<mapsto> 1, [66] \<mapsto> 2], global_objects_lock = new_lock False\<rparr>"

theorem table_operations_witness:
  "table_get 7 1 [1] sample_sys = Done ((1, [2]), sample_sys)"
  using table_operations [of sample_sys 1 _ "Tx_own (new_lock False)" "[[1] \<mapsto> [2]]" 7 "[1]"]
  by (simp add: has_data_def sample_sys_def tx_usable_def new_lock_def when_let_in_def tx_access_def
      lock_abs_def)

text \<open>The bodies of \<open>put\<close> and \<open>get\<close> on a list, with the arithmetic of \<open>size_t\<close> resolved.\<close>

lemma list_get_body_eq:
  "list_get_body i (P_list k e) = Done (if i \<noteq> 0 \<and> unat i \<le> length e \<and> e ! (unat i - 1) \<noteq> []
     then (1, e ! (unat i - 1)) else (0, []), P_list k e)"
  by (simp add: word_le_nat_alt unat_gt_0 Suc_le_eq)

lemma vector_set_pred:
  "i \<noteq> 0 \<Longrightarrow> vector_set (i - 1) val e =
     (if unat i \<le> length e then Done (e[unat i - 1 := val]) else Crash Out_of_bounds)"
  by (auto simp: vector_set_def unat_minus_one unat_gt_0 less_eq_Suc_le [symmetric] simp del: One_nat_def)
    (metis Suc_pred' less_eq_Suc_le unat_gt_0)+

lemma list_put_body_zero: "list_put_body 0 val (P_list k e) = Crash Out_of_bounds" if "length e < max_vector"
proof -
  have "unat (- 1 :: 64 word) = 2 ^ 64 - 1" by (simp add: unsigned_minus_1_eq_mask mask_eq_exp_minus_1)
  then show ?thesis by (simp add: resize_vector_def vector_set_def max_vector_def)
qed

lemma list_put_body_within:
  "i \<noteq> 0 \<Longrightarrow> unat i \<le> length e \<Longrightarrow> list_put_body i val (P_list k e) = Done (1, P_list k (e[unat i - 1 := val]))"
  by (simp add: vector_set_pred word_le_nat_alt unat_gt_0 Suc_le_eq)

lemma list_put_body_behind:
  assumes "length e < unat i" and "unat i < max_vector"
  shows "list_put_body i val (P_list k e) =
    Done (0, P_list k (e @ replicate (unat i - 1 - length e) [] @ [val, []]))"
proof -
  let ?n = "unat i - 1 - length e"
  have i: "i \<noteq> 0" using assms(1) by auto
  have n: "unat i + 1 - length e = ?n + 2" using assms(1) by simp
  have "replicate (unat i + 1 - length e) [] = replicate ?n [] @ [[], [] :: bytes]"
    by (simp only: n replicate_add) (simp add: numeral_2_eq_2)
  moreover have "unat (i + 1) = unat i + 1" using assms(2) by (simp add: max_vector_def unat_word_ariths)
  ultimately have "resize_vector (unat (i + 1)) e = Done (e @ replicate ?n [] @ [[], []])"
    using assms by (simp add: resize_vector_def)
  moreover have "vector_set (i - 1) val (e @ replicate ?n [] @ [[], []]) = Done (e @ replicate ?n [] @ [val, []])"
    using assms(1) by (auto simp: vector_set_pred [OF i] list_update_append)
  ultimately show ?thesis using assms(1) by simp
qed

lemma list_put_body_minus_one: "list_put_body (- 1) val (P_list k e) = Crash Out_of_bounds" if "length e < max_vector"
proof -
  have "unat (- 1 :: 64 word) = 2 ^ 64 - 1" "unat (- 2 :: 64 word) = 2 ^ 64 - 2"
    by (simp_all add: unsigned_minus_1_eq_mask mask_eq_exp_minus_1)
  with that show ?thesis by (simp add: resize_vector_def vector_set_def max_vector_def)
qed

lemma list_put_body_beyond:
  assumes "length e < max_vector" and "max_vector \<le> unat i" and "i \<noteq> - 1"
  shows "list_put_body i val (P_list k e) = Crash Aborted"
proof -
  have "i + 1 \<noteq> 0" using assms(3) by (simp add: eq_neg_iff_add_eq_0)
  then have "unat (i + 1) = unat i + 1" by (simp add: unatSuc add.commute)
  with assms(1,2) show ?thesis by (simp add: resize_vector_def)
qed

text \<open>
  C27. A list in a region that the thread has locked, for every index: \<open>put\<close> within the list
  replaces one element; behind the end it stores the element, but leaves the list one longer
  than the index; index 0 or \<open>-1\<close> writes outside of the vector; an index beyond what a vector
  can hold ends in an exception; and what is stored at an index is what \<open>get\<close> returns, unless
  it is empty.
\<close>

theorem list_operations:
  assumes "has_data s p obj (P_list k e)" and "tx_usable t k s" and "tx_access t k s = Let_in"
    and "length e < max_vector"
  shows "list_put t p i val s =
      (if i = 0 \<or> i = - 1 then Crash Out_of_bounds
       else if unat i \<le> length e
         then Done (1, set_object p (obj\<lparr>so_data := P_list k (e[unat i - 1 := val])\<rparr>) s)
       else if unat i < max_vector
         then Done (0, set_object p (obj\<lparr>so_data :=
                P_list k (e @ replicate (unat i - 1 - length e) [] @ [val, []])\<rparr>) s)
       else Crash Aborted) \<and>
    list_get t p i s =
      Done (if i \<noteq> 0 \<and> unat i \<le> length e \<and> e ! (unat i - 1) \<noteq> [] then (1, e ! (unat i - 1)) else (0, []), s)"
proof -
  have run: "transaction t p body failed s = Done (res, set_object p (obj\<lparr>so_data := P_list k e'\<rparr>) s)"
    if "\<And>k'. body (P_list k' e) = Done (res, P_list k' e')" for body failed and res :: 'r and e'
    using transaction_result [OF assms(1) _ assms(2), of body res "P_list k e'" failed] that assms(3)
    by (simp add: when_let_in_def)
  have crash: "transaction t p (list_put_body j val) (- 1) s = Crash f"
    if "\<And>k'. list_put_body j val (P_list k' e) = Crash f" for j f
    using transaction_crash [OF assms(1) _ assms(2), of "list_put_body j val" f "- 1"] assms(3) that
    by (simp add: when_let_in_def del: list_put_body.simps)
  have reads: "transaction t p (list_get_body i) failed s = Done (res, s)"
    if "\<And>k'. list_get_body i (P_list k' e) = Done (res, P_list k' e)" for failed res
    using run [OF that] has_data_same [OF assms(1)] by simp
  show ?thesis
    using run [OF list_put_body_within] run [OF list_put_body_behind] reads [OF list_get_body_eq]
      crash [OF list_put_body_zero [OF assms(4)]] crash [OF list_put_body_minus_one [OF assms(4)]]
      crash [OF list_put_body_beyond [OF assms(4)]]
    by (simp add: list_put_def list_get_def)
qed

theorem list_operations_witness:
  "list_put 7 3 5 [8] sample_sys =
     Done (0, set_object 3 \<lparr>so_type = 403, so_name = [67], so_refs = 1,
       so_data = P_list (Tx_region 2) [[9], [], [], [], [8], []]\<rparr> sample_sys)"
proof -
  let ?o = "\<lparr>so_type = 403, so_name = [67], so_refs = 1, so_data = P_list (Tx_region 2) [[9], []]\<rparr>"
  have "has_data sample_sys 3 ?o (P_list (Tx_region 2) [[9], []])"
    by (simp add: has_data_def sample_sys_def)
  moreover have held: "region_is_locked 7 2 sample_sys = Done True"
    by (simp add: region_is_locked_def region_lock_def deref_def is_locked_def sample_sys_def)
  then have "tx_usable 7 (Tx_region 2) sample_sys" "tx_access 7 (Tx_region 2) sample_sys = Let_in"
    by (simp_all add: tx_usable_def tx_access_def)
  moreover have "length [[9 :: byte], []] < max_vector" "unat (5 :: 64 word) < max_vector" "(5 :: 64 word) \<noteq> - 1"
    by (simp_all add: max_vector_def)
  moreover have "replicate 2 ([] :: bytes) = [[], []]" by (simp add: numeral_2_eq_2)
  ultimately show ?thesis
    using list_operations [of sample_sys 3 ?o "Tx_region 2" "[[9], []]" 7 5 "[8]"] by simp
qed

end
