(* ===== verification/Commands.thy ===== *)
theory Commands
  imports Shared_Tx
begin

text \<open>
  shared.cc, what the interpreter commands have in common: their arguments and results, the
  class \<open>Command\<close> and the older functions that check arguments, and the conversion of
  values on the way into and out of shared objects.
\<close>

section \<open>The surroundings of a command\<close>

text \<open>
  The types \<open>setBlackboxStuff\<close> numbered, and what else a command depends on: the
  interpreter, the codecs, fuel for decoding, the system's choice of a thread to wake, and
  the interpreter's procedures: which names it knows, and what a call returns unless it
  fails.
\<close>

record shared_types =
  type_region :: nat
  type_regionlock :: nat
  type_channel :: nat
  type_syncvar :: nat
  type_atomic_table :: nat
  type_shared_table :: nat
  type_atomic_list :: nat
  type_shared_list :: nat
  type_thread :: nat
  type_threadpool :: nat
  type_job :: nat
  type_trigger :: nat

record env =
  interp :: singular
  types :: shared_types
  codecs :: registry
  fuel :: nat
  pick :: nat
  has_proc :: "bytes \<Rightarrow> bool"
  call_proc :: "bytes \<Rightarrow> leftv list \<Rightarrow> leftv option"

text \<open>The types of shared objects, in the order \<open>mod_init\<close> makes them.\<close>

definition shared_type_list :: "shared_types \<Rightarrow> nat list" where
  "shared_type_list T = [type_atomic_table T, type_atomic_list T, type_shared_table T, type_shared_list T,
     type_channel T, type_syncvar T, type_region T, type_thread T, type_threadpool T, type_job T,
     type_trigger T, type_regionlock T]"

text \<open>
  A command returns \<open>FALSE\<close> with a result, or \<open>TRUE\<close> after reporting an error, or its
  thread goes to sleep inside.
\<close>

datatype reply = Reply leftv | Error string | Asleep

section \<open>Arguments\<close>

definition typ_of :: "env \<Rightarrow> leftv \<Rightarrow> nat" where
  "typ_of E v = Typ (tok (interp E)) v"

definition is_string :: "env \<Rightarrow> leftv \<Rightarrow> bool" where
  "is_string E v \<longleftrightarrow> typ_of E v = t_STRING_CMD (tok (interp E))"

definition is_int :: "env \<Rightarrow> leftv \<Rightarrow> bool" where
  "is_int E v \<longleftrightarrow> typ_of E v = t_INT_CMD (tok (interp E))"

text \<open>\<open>Data()\<close> of an argument, read as the code reads it.\<close>

fun str_arg :: "leftv \<Rightarrow> bytes flow" where
  "str_arg (L_string p) = Done (c_string p)"
| "str_arg _ = Crash Type_confusion"

fun int_arg :: "leftv \<Rightarrow> 64 word flow" where
  "int_arg (L_int k) = Done k"
| "int_arg _ = Crash Type_confusion"

fun shared_arg :: "leftv \<Rightarrow> addr flow" where
  "shared_arg (L_blackbox _ p) = Done p"
| "shared_arg _ = Crash Type_confusion"

section \<open>The functions that check arguments\<close>

definition report :: "string \<Rightarrow> string \<Rightarrow> string option" where
  "report name msg = Some (name @ msg)"

fun wrong_num_args :: "string \<Rightarrow> leftv list \<Rightarrow> nat \<Rightarrow> string option" where
  "wrong_num_args name [] 0 = None"
| "wrong_num_args name (arg # args) 0 = report name '': too many arguments''"
| "wrong_num_args name [] (Suc n) = report name '': too few arguments''"
| "wrong_num_args name (arg # args) (Suc n) = wrong_num_args name args n"

definition not_a_uri :: "env \<Rightarrow> string \<Rightarrow> leftv \<Rightarrow> string option" where
  "not_a_uri E name arg = (if is_string E arg then None else report name '': not a valid URI'')"

definition not_a_region :: "env \<Rightarrow> string \<Rightarrow> leftv \<Rightarrow> string option" where
  "not_a_region E name arg =
     (if typ_of E arg \<noteq> type_region (types E) then report name '': not a region'' else None)"

text \<open>An error ends the command; the conditions of the commands are written the same way.\<close>

definition guard :: "string option \<Rightarrow> 's \<Rightarrow> (reply \<times> 's) flow \<Rightarrow> (reply \<times> 's) flow" where
  "guard err s body = (case err of Some msg \<Rightarrow> Done (Error msg, s) | None \<Rightarrow> body)"

definition unless :: "bool \<Rightarrow> string \<Rightarrow> string option" where
  "unless ok msg = (if ok then None else Some msg)"

section \<open>The class Command\<close>

text \<open>
  Each check is skipped once there is an error, so it may look at an argument only if the
  checks before it passed.
\<close>

type_synonym check = "leftv list \<Rightarrow> string option flow"

fun run_checks :: "check list \<Rightarrow> leftv list \<Rightarrow> string option flow" where
  "run_checks [] args = Done None"
| "run_checks (c # cs) args = bind_flow (c args) (\<lambda>err.
     case err of Some msg \<Rightarrow> Done (Some msg) | None \<Rightarrow> run_checks cs args)"

definition nth_arg :: "nat \<Rightarrow> leftv list \<Rightarrow> leftv flow" where
  "nth_arg i args = (if i < length args then Done (args ! i) else Crash Out_of_bounds)"

definition check_argc :: "nat \<Rightarrow> check" where
  "check_argc n args = Done (unless (length args = n) ''wrong number of arguments'')"

definition check_argc_between :: "nat \<Rightarrow> nat \<Rightarrow> check" where
  "check_argc_between lo hi args =
     Done (unless (lo \<le> length args \<and> length args \<le> hi) ''wrong number of arguments'')"

definition check_argc_min :: "nat \<Rightarrow> check" where
  "check_argc_min n args = Done (unless (n \<le> length args) ''wrong number of arguments'')"

definition check_arg :: "env \<Rightarrow> nat \<Rightarrow> nat \<Rightarrow> string \<Rightarrow> check" where
  "check_arg E i ty err args = map_flow_value (\<lambda>v. unless (typ_of E v = ty) err) (nth_arg i args)"

definition check_arg_either :: "env \<Rightarrow> nat \<Rightarrow> nat \<Rightarrow> nat \<Rightarrow> string \<Rightarrow> check" where
  "check_arg_either E i ty ty' err args =
     map_flow_value (\<lambda>v. unless (typ_of E v = ty \<or> typ_of E v = ty') err) (nth_arg i args)"

definition check_init :: "nat \<Rightarrow> string \<Rightarrow> check" where
  "check_init i err args = bind_flow (nth_arg i args) (\<lambda>v.
     map_flow_value (\<lambda>p. unless (p \<noteq> 0) err) (shared_arg v))"

definition test_arg :: "env \<Rightarrow> nat \<Rightarrow> nat \<Rightarrow> leftv list \<Rightarrow> bool" where
  "test_arg E i ty args \<longleftrightarrow> i < length args \<and> typ_of E (args ! i) = ty"

text \<open>The constructor, the checks, the command if they pass, and \<open>status\<close>.\<close>

definition run_command ::
    "string \<Rightarrow> check list \<Rightarrow> leftv list \<Rightarrow> 's \<Rightarrow> (reply \<times> 's) flow \<Rightarrow> (reply \<times> 's) flow" where
  "run_command name checks args s body =
     bind_flow (run_checks checks args) (\<lambda>err.
       case err of Some msg \<Rightarrow> Done (Error (name @ '': '' @ msg), s) | None \<Rightarrow> body)"

section \<open>Values on their way in and out\<close>

text \<open>Encoding and decoding change the reference counts in the heap.\<close>

definition refs_in :: "shared_sys \<Rightarrow> 64 word \<Rightarrow> int" where
  "refs_in s p = (case objects s p of Some obj \<Rightarrow> so_refs obj | None \<Rightarrow> 0)"

definition set_refs :: "(64 word \<Rightarrow> int) \<Rightarrow> shared_sys \<Rightarrow> shared_sys" where
  "set_refs rc s = s\<lparr>objects := (\<lambda>p. map_option (\<lambda>obj. obj\<lparr>so_refs := rc p\<rparr>) (objects s p))\<rparr>"

definition encode_value :: "env \<Rightarrow> leftv \<Rightarrow> shared_sys \<Rightarrow> (bytes \<times> shared_sys) flow" where
  "encode_value E v s = map_flow_value (\<lambda>(str, rc). (str, set_refs rc s))
     (to_string (interp E) (codecs E) v (refs_in s))"

definition decode_value :: "env \<Rightarrow> bytes \<Rightarrow> shared_sys \<Rightarrow> (leftv \<times> shared_sys) flow" where
  "decode_value E str s = map_flow_value (\<lambda>(v, rc). (v, set_refs rc s))
     (from_string (fuel E) (interp E) (codecs E) str (refs_in s))"

text \<open>
  The argument lists for procedure calls: an encoded argument is left out when it is empty
  or \<open>NONE\<close>, a value is appended as it is, or copied.
\<close>

definition appendArg :: "env \<Rightarrow> leftv list \<Rightarrow> bytes \<Rightarrow> shared_sys \<Rightarrow> (leftv list \<times> shared_sys) flow" where
  "appendArg E argv str s =
     (if str = [] then Done (argv, s)
      else map_flow_value (\<lambda>(v, s).
        (if typ_of E v = t_NONE (tok (interp E)) then argv else argv @ [v], s)) (decode_value E str s))"

definition appendArgValue :: "leftv list \<Rightarrow> leftv \<Rightarrow> leftv list" where
  "appendArgValue argv v = argv @ [v]"

definition appendArgCopy :: "leftv list \<Rightarrow> leftv \<Rightarrow> leftv list" where
  "appendArgCopy argv v = argv @ [v]"

text \<open>\<open>executeProc\<close> looks the procedure up and calls it with the arguments.\<close>

definition executeProc :: "env \<Rightarrow> bytes \<Rightarrow> leftv list \<Rightarrow> string + leftv" where
  "executeProc E procname argv =
     (if \<not> has_proc E procname then Inl ''procedure not found''
      else case call_proc E procname argv of
             None \<Rightarrow> Inl ''procedure call failed''
           | Some result \<Rightarrow> Inr result)"

end
