(* ===== verification/Shared_Commands.thy ===== *)
theory Shared_Commands
  imports Commands
begin

text \<open>
  shared.cc, the interpreter commands on shared objects: making, finding and binding
  objects by name, tables, lists, regions, channels and synchronisation variables.
\<close>

section \<open>Making and finding objects\<close>

text \<open>The constructors of the classes.\<close>

definition consTable :: payload where "consTable = P_table Tx_unset (\<lambda>_. None)"

definition consList :: payload where "consList = P_list Tx_unset []"

definition consChannel :: payload where "consChannel = P_channel new_channel"

definition consSyncVar :: payload where "consSyncVar = P_syncvar new_syncvar"

definition consRegion :: payload where "consRegion = P_region (new_lock False) (\<lambda>_. None)"

definition reply_shared :: "nat \<Rightarrow> addr \<Rightarrow> shared_sys \<Rightarrow> (reply \<times> shared_sys) flow" where
  "reply_shared ty p s = map_flow_value (\<lambda>(p, s). (Reply (L_blackbox ty p), s)) (new_shared p s)"

definition makeAtomicTable :: "env \<Rightarrow> thread \<Rightarrow> leftv list \<Rightarrow> shared_sys \<Rightarrow> (reply \<times> shared_sys) flow" where
  "makeAtomicTable E t args s =
     guard (wrong_num_args ''makeAtomicTable'' args 1) s (
     guard (not_a_uri E ''makeAtomicTable'' (args ! 0)) s (
     bind_flow (str_arg (args ! 0)) (\<lambda>uri.
     bind_flow (make_global t (type_atomic_table (types E)) uri consTable s) (\<lambda>(obj, s).
     bind_flow (set_region None obj s) (\<lambda>s.
     reply_shared (type_atomic_table (types E)) obj s)))))"

definition makeAtomicList :: "env \<Rightarrow> thread \<Rightarrow> leftv list \<Rightarrow> shared_sys \<Rightarrow> (reply \<times> shared_sys) flow" where
  "makeAtomicList E t args s =
     guard (wrong_num_args ''makeAtomicList'' args 1) s (
     guard (not_a_uri E ''makeAtomicList'' (args ! 0)) s (
     bind_flow (str_arg (args ! 0)) (\<lambda>uri.
     bind_flow (make_global t (type_atomic_list (types E)) uri consList s) (\<lambda>(obj, s).
     bind_flow (set_region None obj s) (\<lambda>s.
     reply_shared (type_atomic_list (types E)) obj s)))))"

definition makeSharedTable :: "env \<Rightarrow> thread \<Rightarrow> leftv list \<Rightarrow> shared_sys \<Rightarrow> (reply \<times> shared_sys) flow" where
  "makeSharedTable E t args s =
     guard (wrong_num_args ''makeSharedTable'' args 2) s (
     guard (not_a_region E ''makeSharedTable'' (args ! 0)) s (
     guard (not_a_uri E ''makeSharedTable'' (args ! 1)) s (
     bind_flow (shared_arg (args ! 0)) (\<lambda>region.
     bind_flow (str_arg (args ! 1)) (\<lambda>nm.
     bind_flow (make_in_region t region (type_shared_table (types E)) nm consTable s) (\<lambda>(obj, s).
     bind_flow (set_region (Some region) obj s) (\<lambda>s.
     reply_shared (type_shared_table (types E)) obj s)))))))"

definition makeSharedList :: "env \<Rightarrow> thread \<Rightarrow> leftv list \<Rightarrow> shared_sys \<Rightarrow> (reply \<times> shared_sys) flow" where
  "makeSharedList E t args s =
     guard (wrong_num_args ''makeSharedList'' args 2) s (
     guard (not_a_region E ''makeSharedList'' (args ! 0)) s (
     guard (not_a_uri E ''makeSharedList'' (args ! 1)) s (
     bind_flow (shared_arg (args ! 0)) (\<lambda>region.
     bind_flow (str_arg (args ! 1)) (\<lambda>nm.
     bind_flow (make_in_region t region (type_shared_list (types E)) nm consList s) (\<lambda>(obj, s).
     bind_flow (set_region (Some region) obj s) (\<lambda>s.
     reply_shared (type_shared_list (types E)) obj s)))))))"

text \<open>\<open>makeChannel\<close>, \<open>makeSyncVar\<close> and \<open>makeRegion\<close> differ in the type only.\<close>

definition make_named ::
    "string \<Rightarrow> (shared_types \<Rightarrow> nat) \<Rightarrow> payload \<Rightarrow> env \<Rightarrow> thread \<Rightarrow> leftv list \<Rightarrow> shared_sys \<Rightarrow>
      (reply \<times> shared_sys) flow" where
  "make_named name ty cons E t args s =
     guard (wrong_num_args name args 1) s (
     guard (not_a_uri E name (args ! 0)) s (
     bind_flow (str_arg (args ! 0)) (\<lambda>uri.
     bind_flow (make_global t (ty (types E)) uri cons s) (\<lambda>(obj, s).
     reply_shared (ty (types E)) obj s))))"

definition makeChannel :: "env \<Rightarrow> thread \<Rightarrow> leftv list \<Rightarrow> shared_sys \<Rightarrow> (reply \<times> shared_sys) flow" where
  "makeChannel = make_named ''makeChannel'' type_channel consChannel"

definition makeSyncVar :: "env \<Rightarrow> thread \<Rightarrow> leftv list \<Rightarrow> shared_sys \<Rightarrow> (reply \<times> shared_sys) flow" where
  "makeSyncVar = make_named ''makeSyncVar'' type_syncvar consSyncVar"

definition makeRegion :: "env \<Rightarrow> thread \<Rightarrow> leftv list \<Rightarrow> shared_sys \<Rightarrow> (reply \<times> shared_sys) flow" where
  "makeRegion = make_named ''makeRegion'' type_region consRegion"

definition findSharedObject :: "env \<Rightarrow> thread \<Rightarrow> leftv list \<Rightarrow> shared_sys \<Rightarrow> (reply \<times> shared_sys) flow" where
  "findSharedObject E t args s =
     guard (wrong_num_args ''findSharedObject'' args 1) s (
     guard (not_a_uri E ''findSharedObject'' (args ! 0)) s (
     bind_flow (str_arg (args ! 0)) (\<lambda>uri.
     map_flow_value (\<lambda>(obj, s). (Reply (L_int (if obj \<noteq> 0 then 1 else 0)), s)) (find_global t uri s))))"

text \<open>A string literal of the program as bytes.\<close>

definition text_bytes :: "string \<Rightarrow> bytes" where
  "text_bytes cs = map of_char cs"

definition object_type_name :: "shared_types \<Rightarrow> nat option \<Rightarrow> string" where
  "object_type_name T ty =
     (if ty = Some (type_channel T) then ''channel''
      else if ty = Some (type_atomic_table T) then ''atomic_table''
      else if ty = Some (type_shared_table T) then ''shared_table''
      else if ty = Some (type_atomic_list T) then ''atomic_list''
      else if ty = Some (type_shared_list T) then ''shared_list''
      else if ty = Some (type_syncvar T) then ''syncvar''
      else if ty = Some (type_region T) then ''region''
      else if ty = Some (type_regionlock T) then ''regionlock''
      else ''undefined'')"

definition typeSharedObject :: "env \<Rightarrow> thread \<Rightarrow> leftv list \<Rightarrow> shared_sys \<Rightarrow> (reply \<times> shared_sys) flow" where
  "typeSharedObject E t args s =
     guard (wrong_num_args ''findSharedObject'' args 1) s (
     guard (not_a_uri E ''findSharedObject'' (args ! 0)) s (
     bind_flow (str_arg (args ! 0)) (\<lambda>uri.
     bind_flow (find_global t uri s) (\<lambda>(obj, s).
     bind_flow (if obj \<noteq> 0 then map_flow_value (\<lambda>o'. Some (so_type o')) (deref obj s) else Done None) (\<lambda>ty.
     Done (Reply (L_string (text_bytes (object_type_name (types E) ty))), s))))))"

definition bindSharedObject :: "env \<Rightarrow> thread \<Rightarrow> leftv list \<Rightarrow> shared_sys \<Rightarrow> (reply \<times> shared_sys) flow" where
  "bindSharedObject E t args s =
     guard (wrong_num_args ''bindSharedObject'' args 1) s (
     guard (not_a_uri E ''bindSharedObject'' (args ! 0)) s (
     bind_flow (str_arg (args ! 0)) (\<lambda>uri.
     bind_flow (find_global t uri s) (\<lambda>(obj, s).
     guard (unless (obj \<noteq> 0) ''bindSharedObject: cannot find object'') s (
     bind_flow (deref obj s) (\<lambda>o'. reply_shared (so_type o') obj s))))))"

section \<open>Tables and lists\<close>

definition is_table :: "env \<Rightarrow> leftv \<Rightarrow> bool" where
  "is_table E v \<longleftrightarrow> typ_of E v = type_atomic_table (types E) \<or> typ_of E v = type_shared_table (types E)"

definition is_list :: "env \<Rightarrow> leftv \<Rightarrow> bool" where
  "is_list E v \<longleftrightarrow> typ_of E v = type_atomic_list (types E) \<or> typ_of E v = type_shared_list (types E)"

definition getTable :: "env \<Rightarrow> thread \<Rightarrow> leftv list \<Rightarrow> shared_sys \<Rightarrow> (reply \<times> shared_sys) flow" where
  "getTable E t args s =
     guard (wrong_num_args ''getTable'' args 2) s (
     guard (unless (is_table E (args ! 0)) ''getTable: not a valid table'') s (
     guard (unless (is_string E (args ! 1)) ''getTable: not a valid table key'') s (
     bind_flow (shared_arg (args ! 0)) (\<lambda>table.
     guard (unless (table \<noteq> 0) ''getTable: table has not been initialized'') s (
     bind_flow (str_arg (args ! 1)) (\<lambda>key.
     bind_flow (table_get t table key s) (\<lambda>((success, val), s).
     guard (unless (0 \<le> success) ''getTable: region not acquired'') s (
     guard (unless (success \<noteq> 0) ''getTable: key not found'') s (
     map_flow_value (apfst Reply) (decode_value E val s))))))))))"

definition inTable :: "env \<Rightarrow> thread \<Rightarrow> leftv list \<Rightarrow> shared_sys \<Rightarrow> (reply \<times> shared_sys) flow" where
  "inTable E t args s =
     guard (wrong_num_args ''inTable'' args 2) s (
     guard (unless (is_table E (args ! 0)) ''inTable: not a valid table'') s (
     guard (unless (is_string E (args ! 1)) ''inTable: not a valid table key'') s (
     bind_flow (shared_arg (args ! 0)) (\<lambda>table.
     guard (unless (table \<noteq> 0) ''inTable: table has not been initialized'') s (
     bind_flow (str_arg (args ! 1)) (\<lambda>key.
     bind_flow (table_check t table key s) (\<lambda>(success, s).
     guard (unless (0 \<le> success) ''inTable: region not acquired'') s (
     Done (Reply (L_int (word_of_int success)), s)))))))))"

definition putTable :: "env \<Rightarrow> thread \<Rightarrow> leftv list \<Rightarrow> shared_sys \<Rightarrow> (reply \<times> shared_sys) flow" where
  "putTable E t args s =
     guard (wrong_num_args ''putTable'' args 3) s (
     guard (unless (is_table E (args ! 0)) ''putTable: not a valid table'') s (
     guard (unless (is_string E (args ! 1)) ''putTable: not a valid table key'') s (
     bind_flow (shared_arg (args ! 0)) (\<lambda>table.
     guard (unless (table \<noteq> 0) ''putTable: table has not been initialized'') s (
     bind_flow (str_arg (args ! 1)) (\<lambda>key.
     bind_flow (encode_value E (args ! 2) s) (\<lambda>(val, s).
     bind_flow (table_put t table key val s) (\<lambda>(success, s).
     guard (unless (0 \<le> success) ''putTable: region not acquired'') s (
     Done (Reply L_none, s))))))))))"

definition getList :: "env \<Rightarrow> thread \<Rightarrow> leftv list \<Rightarrow> shared_sys \<Rightarrow> (reply \<times> shared_sys) flow" where
  "getList E t args s =
     guard (wrong_num_args ''getList'' args 2) s (
     guard (unless (is_list E (args ! 0)) ''getList: not a valid list (atomic or shared)'') s (
     guard (unless (is_int E (args ! 1)) ''getList: index must be an integer'') s (
     bind_flow (shared_arg (args ! 0)) (\<lambda>l.
     guard (unless (l \<noteq> 0) ''getList: list has not been initialized'') s (
     bind_flow (int_arg (args ! 1)) (\<lambda>index.
     bind_flow (list_get t l index s) (\<lambda>((success, val), s).
     guard (unless (0 \<le> success) ''getList: region not acquired'') s (
     guard (unless (success \<noteq> 0) ''getList: no value at position'') s (
     map_flow_value (apfst Reply) (decode_value E val s))))))))))"

definition putList :: "env \<Rightarrow> thread \<Rightarrow> leftv list \<Rightarrow> shared_sys \<Rightarrow> (reply \<times> shared_sys) flow" where
  "putList E t args s =
     guard (wrong_num_args ''putList'' args 3) s (
     guard (unless (is_list E (args ! 0)) ''putList: not a valid list (shared or atomic)'') s (
     guard (unless (is_int E (args ! 1)) ''putList: index must be an integer'') s (
     bind_flow (shared_arg (args ! 0)) (\<lambda>l.
     guard (unless (l \<noteq> 0) ''putList: list has not been initialized'') s (
     bind_flow (int_arg (args ! 1)) (\<lambda>index.
     bind_flow (encode_value E (args ! 2) s) (\<lambda>(val, s).
     bind_flow (list_put t l index val s) (\<lambda>(success, s).
     guard (unless (0 \<le> success) ''putList: region not acquired'') s (
     Done (Reply L_none, s))))))))))"

section \<open>Regions\<close>

definition lockRegion :: "env \<Rightarrow> thread \<Rightarrow> leftv list \<Rightarrow> shared_sys \<Rightarrow> (reply \<times> shared_sys) flow" where
  "lockRegion E t args s =
     guard (wrong_num_args ''lockRegion'' args 1) s (
     guard (not_a_region E ''lockRegion'' (args ! 0)) s (
     bind_flow (shared_arg (args ! 0)) (\<lambda>region.
     bind_flow (region_is_locked t region s) (\<lambda>held.
     guard (unless (\<not> held) ''lockRegion: region is already locked'') s (
     map_flow_value (\<lambda>s. (Reply L_none, s)) (lock_region t region s))))))"

definition regionLock :: "env \<Rightarrow> thread \<Rightarrow> leftv list \<Rightarrow> shared_sys \<Rightarrow> (reply \<times> shared_sys) flow" where
  "regionLock E t args s =
     guard (wrong_num_args ''lockRegion'' args 1) s (
     guard (not_a_region E ''lockRegion'' (args ! 0)) s (
     bind_flow (shared_arg (args ! 0)) (\<lambda>region.
     bind_flow (region_is_locked t region s) (\<lambda>held.
     guard (unless (\<not> held) ''lockRegion: region is already locked'') s (
     bind_flow (lock_region t region s) (reply_shared (type_regionlock (types E)) region))))))"

definition unlockRegion :: "env \<Rightarrow> thread \<Rightarrow> leftv list \<Rightarrow> shared_sys \<Rightarrow> (reply \<times> shared_sys) flow" where
  "unlockRegion E t args s =
     guard (wrong_num_args ''unlockRegion'' args 1) s (
     guard (not_a_region E ''unlockRegion'' (args ! 0)) s (
     bind_flow (shared_arg (args ! 0)) (\<lambda>region.
     bind_flow (region_is_locked t region s) (\<lambda>held.
     guard (unless held ''unlockRegion: region is not locked'') s (
     map_flow_value (\<lambda>s. (Reply L_none, s)) (unlock_region t region s))))))"

section \<open>Channels\<close>

definition on_channel :: "addr \<Rightarrow> (channel \<Rightarrow> ('r \<times> channel) flow) \<Rightarrow> shared_sys \<Rightarrow> ('r \<times> shared_sys) flow" where
  "on_channel p f s = bind_flow (deref p s) (\<lambda>obj.
     case so_data obj of
       P_channel c \<Rightarrow> map_flow_value (\<lambda>(r, c). (r, set_object p (obj\<lparr>so_data := P_channel c\<rparr>) s)) (f c)
     | _ \<Rightarrow> Crash Type_confusion)"

definition is_channel :: "env \<Rightarrow> leftv \<Rightarrow> bool" where
  "is_channel E v \<longleftrightarrow> typ_of E v = type_channel (types E)"

definition sendChannel :: "env \<Rightarrow> thread \<Rightarrow> leftv list \<Rightarrow> shared_sys \<Rightarrow> (reply \<times> shared_sys) flow" where
  "sendChannel E t args s =
     guard (wrong_num_args ''sendChannel'' args 2) s (
     guard (unless (is_channel E (args ! 0)) ''sendChannel: argument is not a channel'') s (
     bind_flow (shared_arg (args ! 0)) (\<lambda>channel.
     guard (unless (channel \<noteq> 0) ''sendChannel: channel has not been initialized'') s (
     bind_flow (encode_value E (args ! 1) s) (\<lambda>(item, s).
     map_flow_value (\<lambda>(_, s). (Reply L_none, s))
       (on_channel channel (\<lambda>c. map_flow_value (Pair ()) (channel_send (pick E) t item c)) s))))))"

text \<open>
  What \<open>receiveChannel\<close> does with the outcome of \<open>receive\<close>; a thread that was put to
  sleep gets there through \<open>receiveChannel_wake\<close>.
\<close>

definition received_item :: "env \<Rightarrow> bytes option \<times> shared_sys \<Rightarrow> (reply \<times> shared_sys) flow" where
  "received_item E r =
     (case r of
        (None, s) \<Rightarrow> Done (Asleep, s)
      | (Some item, s) \<Rightarrow> map_flow_value (apfst Reply) (decode_value E item s))"

definition receiveChannel :: "env \<Rightarrow> thread \<Rightarrow> leftv list \<Rightarrow> shared_sys \<Rightarrow> (reply \<times> shared_sys) flow" where
  "receiveChannel E t args s =
     guard (wrong_num_args ''receiveChannel'' args 1) s (
     guard (unless (is_channel E (args ! 0)) ''receiveChannel: argument is not a channel'') s (
     bind_flow (shared_arg (args ! 0)) (\<lambda>channel.
     guard (unless (channel \<noteq> 0) ''receiveChannel: channel has not been initialized'') s (
     bind_flow (on_channel channel (channel_receive (pick E) t) s) (received_item E)))))"

definition receiveChannel_wake :: "env \<Rightarrow> thread \<Rightarrow> addr \<Rightarrow> shared_sys \<Rightarrow> (reply \<times> shared_sys) flow" where
  "receiveChannel_wake E t channel s =
     bind_flow (on_channel channel (channel_receive_resume (pick E) t) s) (received_item E)"

definition statChannel :: "env \<Rightarrow> thread \<Rightarrow> leftv list \<Rightarrow> shared_sys \<Rightarrow> (reply \<times> shared_sys) flow" where
  "statChannel E t args s =
     guard (wrong_num_args ''statChannel'' args 1) s (
     guard (unless (is_channel E (args ! 0)) ''statChannel: argument is not a channel'') s (
     bind_flow (shared_arg (args ! 0)) (\<lambda>channel.
     guard (unless (channel \<noteq> 0) ''receiveChannel: channel has not been initialized'') s (
     map_flow_value (\<lambda>(n, s). (Reply (L_int (word_of_int n)), s)) (on_channel channel (channel_count t) s)))))"

section \<open>Synchronisation variables\<close>

definition on_syncvar ::
    "addr \<Rightarrow> (syncvar monitor \<Rightarrow> ('r \<times> syncvar monitor) flow) \<Rightarrow> shared_sys \<Rightarrow> ('r \<times> shared_sys) flow" where
  "on_syncvar p f s = bind_flow (deref p s) (\<lambda>obj.
     case so_data obj of
       P_syncvar v \<Rightarrow> map_flow_value (\<lambda>(r, v). (r, set_object p (obj\<lparr>so_data := P_syncvar v\<rparr>) s)) (f v)
     | _ \<Rightarrow> Crash Type_confusion)"

definition is_syncvar :: "env \<Rightarrow> leftv \<Rightarrow> bool" where
  "is_syncvar E v \<longleftrightarrow> typ_of E v = type_syncvar (types E)"

definition writeSyncVar :: "env \<Rightarrow> thread \<Rightarrow> leftv list \<Rightarrow> shared_sys \<Rightarrow> (reply \<times> shared_sys) flow" where
  "writeSyncVar E t args s =
     guard (wrong_num_args ''writeSyncVar'' args 2) s (
     guard (unless (is_syncvar E (args ! 0)) ''writeSyncVar: argument is not a syncvar'') s (
     bind_flow (shared_arg (args ! 0)) (\<lambda>syncvar.
     guard (unless (syncvar \<noteq> 0) ''writeSyncVar: syncvar has not been initialized'') s (
     bind_flow (encode_value E (args ! 1) s) (\<lambda>(item, s).
     bind_flow (on_syncvar syncvar (syncvar_write t item) s) (\<lambda>(ok, s).
     guard (unless ok ''writeSyncVar: variable already has a value'') s (
     Done (Reply L_none, s))))))))"

text \<open>\<open>SingularSyncVar::get\<close>: a null pointer (\<open>None\<close>) for the empty string.\<close>

definition syncvar_get :: "env \<Rightarrow> bytes \<Rightarrow> shared_sys \<Rightarrow> (leftv option \<times> shared_sys) flow" where
  "syncvar_get E val s =
     (if val = [] then Done (None, s) else map_flow_value (apfst Some) (decode_value E val s))"

text \<open>
  \<open>updateSyncVar\<close> once the variable has a value: the procedure is called with that value,
  also when it is \<open>NONE\<close>, and the other arguments, with the lock held; its result replaces the
  value. \<open>executeProc\<close> would follow a null pointer among the arguments once it has found the
  procedure.
\<close>

definition update_with_proc ::
    "env \<Rightarrow> thread \<Rightarrow> addr \<Rightarrow> bytes \<Rightarrow> leftv list \<Rightarrow> shared_sys \<Rightarrow> (reply \<times> shared_sys) flow" where
  "update_with_proc E t syncvar procname rest s =
     bind_flow (on_syncvar syncvar (\<lambda>v. Done (value_of (m_data v), v)) s) (\<lambda>(val, s).
     bind_flow (syncvar_get E val s) (\<lambda>(arg, s).
     if arg = None \<and> has_proc E procname then Crash Null_deref else
     case executeProc E procname
         (foldl appendArgCopy (case arg of Some v \<Rightarrow> appendArgValue [] v | None \<Rightarrow> []) rest) of
       Inl err \<Rightarrow> map_flow_value (\<lambda>(_, s). (Error err, s))
         (on_syncvar syncvar (\<lambda>v. map_flow_value (Pair ()) (syncvar_release t v)) s)
     | Inr result \<Rightarrow>
         bind_flow (encode_value E result s) (\<lambda>(item, s).
         map_flow_value (\<lambda>(_, s). (Reply result, s))
           (on_syncvar syncvar (\<lambda>v. map_flow_value (Pair ())
              (bind_flow (syncvar_update t item v) (syncvar_release t))) s))))"

definition updateSyncVar :: "env \<Rightarrow> thread \<Rightarrow> leftv list \<Rightarrow> shared_sys \<Rightarrow> (reply \<times> shared_sys) flow" where
  "updateSyncVar E t args s =
     run_command ''updateSyncVar''
       [check_argc_min 2,
        check_arg E 0 (type_syncvar (types E)) ''first argument must be a syncvar'',
        check_init 0 ''syncvar has not been initialized'',
        check_arg E 1 (t_STRING_CMD (tok (interp E))) ''second argument must be a string''] args s
       (bind_flow (shared_arg (args ! 0)) (\<lambda>syncvar. bind_flow (str_arg (args ! 1)) (\<lambda>procname.
        bind_flow (on_syncvar syncvar (\<lambda>v. bind_flow (syncvar_acquire t v) (syncvar_wait_init t)) s)
          (\<lambda>(ready, s).
             if ready then update_with_proc E t syncvar procname (drop 2 args) s else Done (Asleep, s)))))"

definition updateSyncVar_wake ::
    "env \<Rightarrow> thread \<Rightarrow> addr \<Rightarrow> bytes \<Rightarrow> leftv list \<Rightarrow> shared_sys \<Rightarrow> (reply \<times> shared_sys) flow" where
  "updateSyncVar_wake E t syncvar procname rest s =
     bind_flow (on_syncvar syncvar (syncvar_wait_init_resume t) s) (\<lambda>(ready, s).
       if ready then update_with_proc E t syncvar procname rest s else Done (Asleep, s))"

definition readSyncVar :: "env \<Rightarrow> thread \<Rightarrow> leftv list \<Rightarrow> shared_sys \<Rightarrow> (reply \<times> shared_sys) flow" where
  "readSyncVar E t args s =
     guard (wrong_num_args ''readSyncVar'' args 1) s (
     guard (unless (is_syncvar E (args ! 0)) ''readSyncVar: argument is not a syncvar'') s (
     bind_flow (shared_arg (args ! 0)) (\<lambda>syncvar.
     guard (unless (syncvar \<noteq> 0) ''readSyncVar: syncvar has not been initialized'') s (
     bind_flow (on_syncvar syncvar (syncvar_read t) s) (received_item E)))))"

definition readSyncVar_wake :: "env \<Rightarrow> thread \<Rightarrow> addr \<Rightarrow> shared_sys \<Rightarrow> (reply \<times> shared_sys) flow" where
  "readSyncVar_wake E t syncvar s =
     bind_flow (on_syncvar syncvar (syncvar_read_resume t) s) (received_item E)"

definition statSyncVar :: "env \<Rightarrow> thread \<Rightarrow> leftv list \<Rightarrow> shared_sys \<Rightarrow> (reply \<times> shared_sys) flow" where
  "statSyncVar E t args s =
     guard (wrong_num_args ''statSyncVar'' args 1) s (
     guard (unless (is_syncvar E (args ! 0)) ''statSyncVar: argument is not a syncvar'') s (
     bind_flow (shared_arg (args ! 0)) (\<lambda>syncvar.
     guard (unless (syncvar \<noteq> 0) ''statSyncVar: syncvar has not been initialized'') s (
     map_flow_value (\<lambda>(ok, s). (Reply (L_int (if ok then 1 else 0)), s)) (on_syncvar syncvar (syncvar_check t) s)))))"

section \<open>Names for printing\<close>

text \<open>
  \<open>shared_string\<close> formats into a buffer of 80 bytes; names are cut at 40 except for
  threads. \<open>hex\<close> is \<open>printf\<close>'s rendering of a pointer, \<open>dec\<close> of an int.
\<close>

definition quoted :: "string \<Rightarrow> bytes \<Rightarrow> bytes" where
  "quoted what nm = text_bytes (''<'' @ what @ '' '' @ [CHR 0x22]) @ take 40 (c_string nm) @ text_bytes [CHR 0x22]"

definition with_pointer :: "(addr \<Rightarrow> string) \<Rightarrow> string \<Rightarrow> addr \<Rightarrow> bytes \<Rightarrow> bytes" where
  "with_pointer hex what p nm =
     (if nm \<noteq> [] then quoted what nm @ text_bytes (''@'' @ hex p @ ''>'')
      else text_bytes (''<'' @ what @ '' @'' @ hex p @ ''>''))"

definition shared_string :: "(addr \<Rightarrow> string) \<Rightarrow> (nat \<Rightarrow> string) \<Rightarrow> shared_types \<Rightarrow> addr \<Rightarrow> shared_sys \<Rightarrow> bytes flow" where
  "shared_string hex dec T cell s =
     (if cell = 0 then Done (text_bytes ''<uninitialized shared object>'')
      else map_flow_value (\<lambda>obj.
        if so_type obj = type_channel T then quoted ''channel'' (so_name obj) @ text_bytes ''>''
        else if so_type obj = type_atomic_table T then quoted ''atomic_table'' (so_name obj) @ text_bytes ''>''
        else if so_type obj = type_shared_table T then quoted ''shared_table'' (so_name obj) @ text_bytes ''>''
        else if so_type obj = type_atomic_list T then quoted ''atomic_list'' (so_name obj) @ text_bytes ''>''
        else if so_type obj = type_shared_list T then quoted ''shared_list'' (so_name obj) @ text_bytes ''>''
        else if so_type obj = type_syncvar T then quoted ''syncvar'' (so_name obj) @ text_bytes ''>''
        else if so_type obj = type_region T then quoted ''region'' (so_name obj) @ text_bytes ''>''
        else if so_type obj = type_regionlock T then quoted ''regionlock'' (so_name obj) @ text_bytes ''>''
        else if so_type obj = type_thread T then text_bytes ''<thread #'' @ c_string (so_name obj) @ text_bytes ''>''
        else if so_type obj = type_threadpool T then with_pointer hex ''threadpool'' cell (so_name obj)
        else if so_type obj = type_job T then with_pointer hex ''job'' cell (so_name obj)
        else if so_type obj = type_trigger T then with_pointer hex ''trigger'' cell (so_name obj)
        else text_bytes (''<unknown type '' @ dec (so_type obj) @ ''>'')) (deref cell s))"

definition rlock_string :: "addr \<Rightarrow> shared_sys \<Rightarrow> bytes flow" where
  "rlock_string cell s =
     (if cell = 0 then Done (text_bytes ''<uninitialized region lock>'')
      else map_flow_value (\<lambda>obj. quoted ''region lock'' (so_name obj) @ text_bytes ''>'') (deref cell s))"

end
