(* ===== verification/Shared_Invariant.thy ===== *)
theory Shared_Invariant
  imports Shared_Commands
begin

text \<open>
  The state of the shared objects stays well formed under every command, every wake-up and
  every operation of the interpreter on shared values: addresses, names, types and contents
  agree, and no lock is left behind.
\<close>

declare lock_wf.simps [simp del]

section \<open>Well-formed states\<close>

text \<open>What never changes of an object: its name and its type.\<close>

definition kinds :: "shared_sys \<Rightarrow> addr \<Rightarrow> (bytes \<times> nat) option" where
  "kinds s p = map_option (\<lambda>obj. (so_name obj, so_type obj)) (objects s p)"

definition names_ok :: "(addr \<Rightarrow> (bytes \<times> nat) option) \<Rightarrow> (bytes \<Rightarrow> addr option) \<Rightarrow> bool" where
  "names_ok K tbl \<longleftrightarrow> (\<forall>nm p. tbl nm = Some p \<longrightarrow> p \<noteq> 0 \<and> (\<exists>ty. K p = Some (nm, ty)))"

definition tx_ok :: "shared_types \<Rightarrow> (addr \<Rightarrow> (bytes \<times> nat) option) \<Rightarrow> tx_lock \<Rightarrow> nat \<Rightarrow> nat \<Rightarrow> nat \<Rightarrow> bool" where
  "tx_ok T K k ty atomic shared =
     (case k of
        Tx_unset \<Rightarrow> False
      | Tx_own l \<Rightarrow> ty = atomic \<and> l = new_lock False
      | Tx_region r \<Rightarrow> ty = shared \<and> r \<noteq> 0 \<and> (\<exists>nm. K r = Some (nm, type_region T)))"

definition object_ok :: "shared_types \<Rightarrow> (addr \<Rightarrow> (bytes \<times> nat) option) \<Rightarrow> shared_object \<Rightarrow> bool" where
  "object_ok T K obj =
     (case so_data obj of
        P_region l tbl \<Rightarrow> so_type obj = type_region T \<and> lock_wf l \<and> \<not> recursive l \<and> names_ok K tbl
      | P_channel c \<Rightarrow> so_type obj = type_channel T \<and> channel_shape c
      | P_syncvar v \<Rightarrow> so_type obj = type_syncvar T \<and> syncvar_inv v
      | P_table k e \<Rightarrow> tx_ok T K k (so_type obj) (type_atomic_table T) (type_shared_table T)
      | P_list k e \<Rightarrow> tx_ok T K k (so_type obj) (type_atomic_list T) (type_shared_list T)
      | P_other \<Rightarrow> so_type obj \<in> {type_thread T, type_threadpool T, type_job T, type_trigger T})"

definition sys_wf :: "shared_types \<Rightarrow> shared_sys \<Rightarrow> bool" where
  "sys_wf T s \<longleftrightarrow> 0 < next_addr s \<and> global_objects_lock s = new_lock False \<and>
     names_ok (kinds s) (global_objects s) \<and>
     (\<forall>p obj. objects s p = Some obj \<longrightarrow>
        p \<noteq> 0 \<and> unat p < next_addr s \<and> object_ok T (kinds s) obj)"

lemma sys_wf_object:
  "sys_wf T s \<Longrightarrow> objects s p = Some obj \<Longrightarrow> object_ok T (kinds s) obj"
  by (simp add: sys_wf_def)

lemma names_ok_mono: "names_ok K tbl \<Longrightarrow> K \<subseteq>\<^sub>m K' \<Longrightarrow> names_ok K' tbl"
  unfolding names_ok_def map_le_def by (metis domI)

lemma tx_ok_mono: "tx_ok T K k ty a b \<Longrightarrow> K \<subseteq>\<^sub>m K' \<Longrightarrow> tx_ok T K' k ty a b"
  by (auto simp: tx_ok_def map_le_def dom_def split: tx_lock.splits)

lemma object_ok_mono: "object_ok T K obj \<Longrightarrow> K \<subseteq>\<^sub>m K' \<Longrightarrow> object_ok T K' obj"
  by (auto simp: object_ok_def split: payload.splits intro: names_ok_mono tx_ok_mono)

lemma object_ok_refs [simp]: "object_ok T K (obj\<lparr>so_refs := n\<rparr>) = object_ok T K obj"
  by (cases "so_data obj") (simp_all add: object_ok_def)

lemma initial_sys_wf: "0 < n \<Longrightarrow> sys_wf T (initial_sys n)"
  by (simp add: sys_wf_def initial_sys_def names_ok_def)

section \<open>The primitives keep states well formed\<close>

lemma kinds_set_object:
  "objects s p = Some obj \<Longrightarrow> so_name obj' = so_name obj \<Longrightarrow> so_type obj' = so_type obj \<Longrightarrow>
   kinds (set_object p obj' s) = kinds s"
  by (auto simp: kinds_def)

lemma set_object_wf:
  assumes "sys_wf T s" "objects s p = Some obj" "so_name obj' = so_name obj" "so_type obj' = so_type obj"
    and "object_ok T (kinds s) obj'"
  shows "sys_wf T (set_object p obj' s)"
  using assms kinds_set_object [OF assms(2-4)] by (auto simp: sys_wf_def)

lemma set_refs_wf: "sys_wf T s \<Longrightarrow> sys_wf T (set_refs rc s)"
proof -
  have k: "kinds (set_refs rc s) = kinds s"
    by (rule ext) (simp add: kinds_def set_refs_def option.map_comp comp_def)
  assume "sys_wf T s"
  then show ?thesis
    unfolding sys_wf_def k by (auto simp: set_refs_def)
qed

lemma incref_wf: "incref p by s = Done s' \<Longrightarrow> sys_wf T s \<Longrightarrow> sys_wf T s'"
  by (auto simp: incref_def map_flow_value_Done_iff deref_Done intro!: set_object_wf
      dest: sys_wf_object)

lemma decref_wf: "decref p s = Done (n, s') \<Longrightarrow> sys_wf T s \<Longrightarrow> sys_wf T s'"
  by (auto simp: decref_def map_flow_value_Done_iff deref_Done intro!: set_object_wf
      dest: sys_wf_object)

lemma new_shared_wf: "new_shared p s = Done (q, s') \<Longrightarrow> sys_wf T s \<Longrightarrow> sys_wf T s'"
  by (auto simp: new_shared_def acquireShared_def map_flow_value_Done_iff intro: incref_wf)

lemma shared_destroy_wf: "shared_destroy p s = Done s' \<Longrightarrow> sys_wf T s \<Longrightarrow> sys_wf T s'"
  by (auto simp: shared_destroy_def releaseShared_def map_flow_value_Done_iff split: if_splits
      intro: decref_wf)

lemma shared_copy_wf: "shared_copy p s = Done (q, s') \<Longrightarrow> sys_wf T s \<Longrightarrow> sys_wf T s'"
  by (auto simp: shared_copy_def acquireShared_def map_flow_value_Done_iff split: if_splits
      intro: incref_wf)

lemma encode_value_wf: "encode_value E v s = Done (str, s') \<Longrightarrow> sys_wf T s \<Longrightarrow> sys_wf T s'"
  by (auto simp: encode_value_def map_flow_value_Done_iff intro: set_refs_wf)

lemma decode_value_wf: "decode_value E str s = Done (v, s') \<Longrightarrow> sys_wf T s \<Longrightarrow> sys_wf T s'"
  by (auto simp: decode_value_def map_flow_value_Done_iff intro: set_refs_wf)

lemma allocate_fresh:
  assumes "allocate d ty nm s = Done (p, s')" and "sys_wf T s"
  shows "p \<noteq> 0" "objects s p = None" "unat p = next_addr s"
    "s' = set_object p \<lparr>so_type = ty, so_name = nm, so_refs = 0, so_data = d\<rparr> (s\<lparr>next_addr := next_addr s + 1\<rparr>)"
proof -
  from assms(1) have n: "next_addr s < 2 ^ 64" and p: "p = word_of_nat (next_addr s)"
    by (auto simp: allocate_def Let_def split: if_splits)
  then show u: "unat p = next_addr s" by (simp add: unat_of_nat)
  then show "p \<noteq> 0" using assms(2) by (auto simp: sys_wf_def)
  show "objects s p = None"
  proof (rule ccontr)
    assume "objects s p \<noteq> None"
    then have "unat p < next_addr s" using assms(2) unfolding sys_wf_def by blast
    then show False using u by simp
  qed
  show "s' = set_object p \<lparr>so_type = ty, so_name = nm, so_refs = 0, so_data = d\<rparr>
      (s\<lparr>next_addr := next_addr s + 1\<rparr>)"
    using assms(1) by (auto simp: allocate_def Let_def split: if_splits)
qed

lemma allocate_kinds:
  assumes "allocate d ty nm s = Done (p, s')" and "sys_wf T s"
  shows "kinds s' = (kinds s)(p \<mapsto> (nm, ty))" "kinds s \<subseteq>\<^sub>m kinds s'"
  using allocate_fresh [OF assms] by (auto simp: kinds_def map_le_def)

text \<open>A new object that is well formed in the extended state keeps the state well formed.\<close>

lemma allocate_wf:
  assumes "allocate d ty nm s = Done (p, s')" and "sys_wf T s"
    and "object_ok T (kinds s') \<lparr>so_type = ty, so_name = nm, so_refs = 0, so_data = d'\<rparr>"
  shows "sys_wf T (set_object p \<lparr>so_type = ty, so_name = nm, so_refs = 0, so_data = d'\<rparr> s')"
proof -
  note fresh = allocate_fresh [OF assms(1,2)] and k = allocate_kinds [OF assms(1,2)]
  let ?s = "set_object p \<lparr>so_type = ty, so_name = nm, so_refs = 0, so_data = d'\<rparr> s'"
  have "kinds ?s = kinds s'" using fresh by (intro kinds_set_object) auto
  moreover have "names_ok (kinds s') (global_objects s)"
    using assms(2) k(2) by (auto simp: sys_wf_def intro: names_ok_mono)
  ultimately show ?thesis
    using assms(2,3) fresh object_ok_mono [OF _ k(2)]
    unfolding sys_wf_def by (auto simp: less_Suc_eq)
qed

lemma idle_lock_cycle:
  assumes "lock_unless_held t (new_lock False) = Done l'"
    and "unlock_unless (is_locked t (new_lock False)) t l' = Done l''"
  shows "l'' = new_lock False"
  using assms
  by (auto simp: lock_unless_held_def unlock_unless_def is_locked_def lock_lock_def unlock_lock_def
      new_lock_def split: if_splits)

text \<open>
  Making an object: either the name is bound and nothing changes, or a new object gets the
  name.
\<close>

lemma make_shared_object_cases:
  assumes "make_shared_object t ty nm cons tbl l s = Done (p, tbl', l', s')"
  shows "(\<exists>q obj. tbl nm = Some q \<and> deref q s = Done obj \<and> p = (if so_type obj \<noteq> ty then 0 else q) \<and>
           tbl' = tbl \<and> s' = s) \<or>
         (tbl nm = None \<and> allocate cons ty nm s = Done (p, s') \<and> tbl' = tbl(nm \<mapsto> p))"
  using assms
  by (auto simp: make_shared_object_def bind_flow_Done_iff map_flow_value_Done_iff
      split: option.splits prod.splits)

lemma make_global_cases:
  assumes "make_global t ty nm cons s = Done (p, s')" and "sys_wf T s"
  shows "(\<exists>q obj. global_objects s nm = Some q \<and> objects s q = Some obj \<and> q \<noteq> 0 \<and>
           p = (if so_type obj \<noteq> ty then 0 else q) \<and> s' = s) \<or>
         (\<exists>s1. global_objects s nm = None \<and> allocate cons ty nm s = Done (p, s1) \<and>
           s' = s1\<lparr>global_objects := (global_objects s)(nm \<mapsto> p)\<rparr>)"
proof -
  from assms(1) obtain tbl l s1 where
    m: "make_shared_object t ty nm cons (global_objects s) (global_objects_lock s) s = Done (p, tbl, l, s1)"
    and s': "s' = s1\<lparr>global_objects := tbl, global_objects_lock := l\<rparr>"
    by (auto simp: make_global_def map_flow_value_Done_iff)
  have idle: "global_objects_lock s = new_lock False" using assms(2) by (simp add: sys_wf_def)
  have l: "l = new_lock False"
    using m unfolding idle
    by (auto simp: make_shared_object_def bind_flow_Done_iff map_flow_value_Done_iff
        dest: idle_lock_cycle)
  from make_shared_object_cases [OF m] show ?thesis
  proof
    assume "\<exists>q obj. global_objects s nm = Some q \<and> deref q s = Done obj \<and>
      p = (if so_type obj \<noteq> ty then 0 else q) \<and> tbl = global_objects s \<and> s1 = s"
    moreover have "s\<lparr>global_objects := global_objects s, global_objects_lock := new_lock False\<rparr> = s"
      using idle by (cases s) simp
    ultimately have "s' = s" and "\<exists>q obj. global_objects s nm = Some q \<and> objects s q = Some obj \<and>
        q \<noteq> 0 \<and> p = (if so_type obj \<noteq> ty then 0 else q)"
      using s' l by (auto simp: deref_Done)
    then show ?thesis by blast
  next
    assume a: "global_objects s nm = None \<and> allocate cons ty nm s = Done (p, s1) \<and>
      tbl = (global_objects s)(nm \<mapsto> p)"
    then have "global_objects_lock s1 = new_lock False"
      using allocate_fresh(4) [OF _ assms(2)] idle by force
    then have "s1\<lparr>global_objects := tbl, global_objects_lock := l\<rparr> = s1\<lparr>global_objects := tbl\<rparr>"
      using l by (cases s1) simp
    then show ?thesis using a s' by auto
  qed
qed

lemma global_bind_wf:
  assumes "sys_wf T s" and "kinds s p = Some (nm, ty)" and "p \<noteq> 0"
  shows "sys_wf T (s\<lparr>global_objects := (global_objects s)(nm \<mapsto> p)\<rparr>)"
proof -
  have "kinds (s\<lparr>global_objects := (global_objects s)(nm \<mapsto> p)\<rparr>) = kinds s"
    by (rule ext) (simp add: kinds_def)
  then show ?thesis using assms by (auto simp: sys_wf_def names_ok_def)
qed

text \<open>The objects that are well formed as they are constructed.\<close>

lemma make_global_wf:
  assumes "make_global t ty nm cons s = Done (p, s')" and "sys_wf T s"
    and "\<And>K. object_ok T K \<lparr>so_type = ty, so_name = nm, so_refs = 0, so_data = cons\<rparr>"
  shows "sys_wf T s'"
  using make_global_cases [OF assms(1,2)]
proof (elim disjE exE conjE)
  fix s1 assume a: "allocate cons ty nm s = Done (p, s1)"
    and s': "s' = s1\<lparr>global_objects := (global_objects s)(nm \<mapsto> p)\<rparr>"
  note fresh = allocate_fresh [OF a assms(2)]
  have "sys_wf T s1"
    using allocate_wf [OF a assms(2) assms(3)] fresh(4) by simp
  moreover have "global_objects s1 = global_objects s" using fresh(4) by simp
  moreover have "kinds s1 p = Some (nm, ty)" using allocate_kinds [OF a assms(2)] by simp
  ultimately show ?thesis using global_bind_wf fresh(1) s' by metis
qed (use assms in simp)

section \<open>Tables and lists\<close>

definition types_ok :: "shared_types \<Rightarrow> bool" where
  "types_ok T \<longleftrightarrow> distinct (shared_type_list T)"

text \<open>A lock of the right kind for the type of a transactional object.\<close>

definition tx_fits :: "shared_types \<Rightarrow> (addr \<Rightarrow> (bytes \<times> nat) option) \<Rightarrow> tx_lock \<Rightarrow> nat \<Rightarrow> bool" where
  "tx_fits T K k ty \<longleftrightarrow>
     (ty \<in> {type_atomic_table T, type_atomic_list T} \<and> k = Tx_own (new_lock False)) \<or>
     (ty \<in> {type_shared_table T, type_shared_list T} \<and>
      (\<exists>r nm. k = Tx_region r \<and> r \<noteq> 0 \<and> K r = Some (nm, type_region T)))"

lemma with_tx_lock_ok:
  assumes "types_ok T" and "object_ok T K obj" and "tx_fits T K k (so_type obj)"
  shows "object_ok T K (obj\<lparr>so_data := with_tx_lock k (so_data obj)\<rparr>)"
  using assms
  by (cases "so_data obj")
    (auto simp: object_ok_def tx_ok_def tx_fits_def types_ok_def shared_type_list_def
      split: tx_lock.splits)

lemma set_region_eq:
  assumes "set_region reg p s = Done s'"
  shows "\<exists>obj. p \<noteq> 0 \<and> objects s p = Some obj \<and>
    s' = set_object p (obj\<lparr>so_data := with_tx_lock
      (case reg of Some r \<Rightarrow> Tx_region r | None \<Rightarrow> Tx_own (new_lock False)) (so_data obj)\<rparr>) s"
  using assms
  by (auto simp: set_region_def bind_flow_Done_iff deref_Done Let_def split: option.splits)

text \<open>Making a transactional object and setting its lock.\<close>

lemma make_atomic_wf:
  assumes "make_global t ty nm cons s = Done (p, s1)" and "set_region None p s1 = Done s2"
    and "sys_wf T s" and "types_ok T"
    and "cons = consTable \<and> ty = type_atomic_table T \<or> cons = consList \<and> ty = type_atomic_list T"
  shows "sys_wf T s2"
  using make_global_cases [OF assms(1,3)]
proof (elim disjE exE conjE)
  fix q obj assume q: "objects s q = Some obj" "p = (if so_type obj \<noteq> ty then 0 else q)" "s1 = s"
  from set_region_eq [OF assms(2)] q have s2: "so_type obj = ty" "p = q"
    "s2 = set_object p (obj\<lparr>so_data := with_tx_lock (Tx_own (new_lock False)) (so_data obj)\<rparr>) s"
    by (auto split: if_splits)
  have "object_ok T (kinds s) (obj\<lparr>so_data := with_tx_lock (Tx_own (new_lock False)) (so_data obj)\<rparr>)"
    using assms(3-5) q(1) s2(1) by (intro with_tx_lock_ok) (auto simp: tx_fits_def dest: sys_wf_object)
  then show ?thesis unfolding s2 using assms(3) q(1) s2 by (intro set_object_wf) auto
next
  fix s0 assume a: "allocate cons ty nm s = Done (p, s0)"
    and s1: "s1 = s0\<lparr>global_objects := (global_objects s)(nm \<mapsto> p)\<rparr>"
  note fresh = allocate_fresh [OF a assms(3)]
  let ?d = "with_tx_lock (Tx_own (new_lock False)) cons"
  let ?obj = "\<lparr>so_type = ty, so_name = nm, so_refs = 0, so_data = ?d\<rparr>"
  have "object_ok T (kinds s0) ?obj"
    using assms(5) by (auto simp: object_ok_def tx_ok_def consTable_def consList_def)
  then have wf: "sys_wf T (set_object p ?obj s0)" by (rule allocate_wf [OF a assms(3)])
  have glob: "global_objects s0 = global_objects s" using fresh(4) by simp
  have "s2 = (set_object p ?obj s0)\<lparr>global_objects := (global_objects s)(nm \<mapsto> p)\<rparr>"
    using set_region_eq [OF assms(2)] fresh(4) by (auto simp: s1 set_object_def)
  moreover have "kinds (set_object p ?obj s0) p = Some (nm, ty)" by (simp add: kinds_def)
  ultimately show ?thesis using global_bind_wf [OF wf _ fresh(1)] glob by simp
qed

lemma region_bind_wf:
  assumes "sys_wf T s" and "objects s r = Some reg" and "so_data reg = P_region l tbl"
    and "names_ok (kinds s) tbl'" and "lock_wf l'" and "\<not> recursive l'"
  shows "sys_wf T (set_object r (reg\<lparr>so_data := P_region l' tbl'\<rparr>) s)"
  using assms sys_wf_object [OF assms(1,2)] by (intro set_object_wf) (auto simp: object_ok_def)

lemma lock_keeps_kind:
  "lock_lock t l = Done l' \<Longrightarrow> recursive l' = recursive l"
  "unlock_lock t l = Done l' \<Longrightarrow> recursive l' = recursive l"
  by (auto simp: lock_lock_def unlock_lock_def split: if_splits option.splits)

lemma lock_unless_ok:
  "lock_unless_held t l = Done l' \<Longrightarrow> unlock_unless was t l' = Done l'' \<Longrightarrow> lock_wf l \<Longrightarrow>
   lock_wf l'' \<and> recursive l'' = recursive l"
  by (auto simp: lock_unless_held_def unlock_unless_def split: if_splits
      dest: lock_lock_wf unlock_lock_wf lock_keeps_kind)

lemma make_in_region_cases:
  assumes "make_in_region t r ty nm cons s = Done (p, s')" and "sys_wf T s"
  shows "\<exists>reg l tbl l'. r \<noteq> 0 \<and> objects s r = Some reg \<and> so_data reg = P_region l tbl \<and>
    lock_wf l' \<and> \<not> recursive l' \<and>
    ((\<exists>q obj. tbl nm = Some q \<and> objects s q = Some obj \<and> q \<noteq> 0 \<and>
        p = (if so_type obj \<noteq> ty then 0 else q) \<and>
        s' = set_object r (reg\<lparr>so_data := P_region l' tbl\<rparr>) s) \<or>
     (\<exists>s1. allocate cons ty nm s = Done (p, s1) \<and>
        s' = set_object r (reg\<lparr>so_data := P_region l' (tbl(nm \<mapsto> p))\<rparr>) s1))"
proof -
  from assms(1) obtain reg where reg: "r \<noteq> 0" "objects s r = Some reg"
    and made: "(case so_data reg of
       P_region l tbl \<Rightarrow> bind_flow (make_shared_object t ty nm cons tbl l s) (\<lambda>(p, tbl, l, s).
         map_flow_value (Pair p) (set_data r (P_region l tbl) s))
     | _ \<Rightarrow> Crash Type_confusion) = Done (p, s')"
    by (auto simp: make_in_region_def bind_flow_Done_iff deref_Done)
  then obtain l tbl tbl' l' s1 where
    r: "r \<noteq> 0" "objects s r = Some reg" "so_data reg = P_region l tbl"
    and m: "make_shared_object t ty nm cons tbl l s = Done (p, tbl', l', s1)"
    and s': "set_data r (P_region l' tbl') s1 = Done s'"
    by (cases "so_data reg") (auto simp: bind_flow_Done_iff map_flow_value_Done_iff)
  have l: "lock_wf l" "\<not> recursive l"
    using sys_wf_object [OF assms(2) r(2)] r(3) by (simp_all add: object_ok_def)
  have l': "lock_wf l'" "\<not> recursive l'"
    using m l by (auto simp: make_shared_object_def bind_flow_Done_iff map_flow_value_Done_iff
        dest: lock_unless_ok)
  from make_shared_object_cases [OF m] show ?thesis
  proof
    assume "\<exists>q obj. tbl nm = Some q \<and> deref q s = Done obj \<and> p = (if so_type obj \<noteq> ty then 0 else q) \<and>
      tbl' = tbl \<and> s1 = s"
    then obtain q obj where "tbl nm = Some q" "objects s q = Some obj" "q \<noteq> 0"
      "p = (if so_type obj \<noteq> ty then 0 else q)" "s' = set_object r (reg\<lparr>so_data := P_region l' tbl\<rparr>) s"
      using r s' by (auto simp: set_data_def map_flow_value_Done_iff deref_Done simp del: if_not_P)
    then show ?thesis using r l' by blast
  next
    assume a: "tbl nm = None \<and> allocate cons ty nm s = Done (p, s1) \<and> tbl' = tbl(nm \<mapsto> p)"
    then have "objects s1 r = Some reg"
      using allocate_fresh [of cons ty nm s p s1, OF _ assms(2)] r(2) by auto
    then have "s' = set_object r (reg\<lparr>so_data := P_region l' (tbl(nm \<mapsto> p))\<rparr>) s1"
      using a r s' by (auto simp: set_data_def map_flow_value_Done_iff deref_Done)
    then show ?thesis using a r l' by blast
  qed
qed

lemma make_shared_wf:
  assumes "make_in_region t r ty nm cons s = Done (p, s1)" and "set_region (Some r) p s1 = Done s2"
    and "sys_wf T s" and "types_ok T"
    and "cons = consTable \<and> ty = type_shared_table T \<or> cons = consList \<and> ty = type_shared_list T"
  shows "sys_wf T s2"
proof -
  from make_in_region_cases [OF assms(1,3)] obtain reg l tbl l' where
    reg: "r \<noteq> 0" "objects s r = Some reg" "so_data reg = P_region l tbl" "lock_wf l'" "\<not> recursive l'"
    and made: "(\<exists>q obj. tbl nm = Some q \<and> objects s q = Some obj \<and> q \<noteq> 0 \<and>
        p = (if so_type obj \<noteq> ty then 0 else q) \<and> s1 = set_object r (reg\<lparr>so_data := P_region l' tbl\<rparr>) s) \<or>
     (\<exists>s0. allocate cons ty nm s = Done (p, s0) \<and>
        s1 = set_object r (reg\<lparr>so_data := P_region l' (tbl(nm \<mapsto> p))\<rparr>) s0)" by blast
  have ok: "so_type reg = type_region T" "names_ok (kinds s) tbl"
    using sys_wf_object [OF assms(3) reg(2)] reg(3) by (simp_all add: object_ok_def)
  have kr: "kinds s r = Some (so_name reg, type_region T)" using reg(2) ok(1) by (simp add: kinds_def)
  from set_region_eq [OF assms(2)] obtain obj where
    obj: "p \<noteq> 0" "objects s1 p = Some obj"
      "s2 = set_object p (obj\<lparr>so_data := with_tx_lock (Tx_region r) (so_data obj)\<rparr>) s1" by auto
  from made show ?thesis
  proof (elim disjE exE conjE)
    fix q ob assume q: "objects s q = Some ob" "p = (if so_type ob \<noteq> ty then 0 else q)"
      and s1: "s1 = set_object r (reg\<lparr>so_data := P_region l' tbl\<rparr>) s"
    have wf: "sys_wf T s1" unfolding s1 using region_bind_wf [OF assms(3) reg(2,3) ok(2) reg(4,5)] .
    have "so_type obj = ty" using obj(1,2) q s1 reg(2) by (auto split: if_splits)
    moreover have "kinds s1 = kinds s" unfolding s1 using reg(2) by (intro kinds_set_object) auto
    ultimately have "object_ok T (kinds s1) (obj\<lparr>so_data := with_tx_lock (Tx_region r) (so_data obj)\<rparr>)"
      using assms(4,5) kr reg(1) sys_wf_object [OF wf obj(2)]
      by (intro with_tx_lock_ok) (auto simp: tx_fits_def)
    then show ?thesis unfolding obj(3) using wf obj(2) by (intro set_object_wf) auto
  next
    fix s0 assume a: "allocate cons ty nm s = Done (p, s0)"
      and s1: "s1 = set_object r (reg\<lparr>so_data := P_region l' (tbl(nm \<mapsto> p))\<rparr>) s0"
    note fresh = allocate_fresh [OF a assms(3)] and k = allocate_kinds [OF a assms(3)]
    let ?o = "\<lparr>so_type = ty, so_name = nm, so_refs = 0, so_data = with_tx_lock (Tx_region r) cons\<rparr>"
    have pr: "p \<noteq> r" using fresh(2) reg(2) by auto
    have "kinds s0 r = Some (so_name reg, type_region T)" using k(1) kr pr by simp
    then have "object_ok T (kinds s0) ?o"
      using assms(5) reg(1) by (auto simp: object_ok_def tx_ok_def consTable_def consList_def)
    then have wf: "sys_wf T (set_object p ?o s0)" by (rule allocate_wf [OF a assms(3)])
    have kinds: "kinds (set_object p ?o s0) = kinds s0" using fresh by (intro kinds_set_object) auto
    have "names_ok (kinds s0) (tbl(nm \<mapsto> p))"
      using names_ok_mono [OF ok(2) k(2)] k(1) fresh(1) by (auto simp: names_ok_def)
    then have "sys_wf T (set_object r (reg\<lparr>so_data := P_region l' (tbl(nm \<mapsto> p))\<rparr>) (set_object p ?o s0))"
      using wf reg fresh pr kinds by (intro region_bind_wf) auto
    moreover have "s2 = set_object r (reg\<lparr>so_data := P_region l' (tbl(nm \<mapsto> p))\<rparr>) (set_object p ?o s0)"
      using obj pr fresh(4) by (auto simp: s1 set_object_def fun_upd_twist)
    ultimately show ?thesis by simp
  qed
qed

text \<open>
  The bodies work on the entries and leave the lock alone. A transaction with such a body
  gives the lock of the object back.
\<close>

definition entries_only :: "(payload \<Rightarrow> ('r \<times> payload) flow) \<Rightarrow> bool" where
  "entries_only body \<longleftrightarrow>
     (\<forall>k e res d. body (P_table k e) = Done (res, d) \<longrightarrow>
        (\<exists>e'. \<forall>k'. body (P_table k' e) = Done (res, P_table k' e'))) \<and>
     (\<forall>k e res d. body (P_list k e) = Done (res, d) \<longrightarrow>
        (\<exists>e'. \<forall>k'. body (P_list k' e) = Done (res, P_list k' e')))"

lemma entries_only_bodies:
  "entries_only (table_put_body key val)" "entries_only (table_get_body key)"
  "entries_only (table_check_body key)" "entries_only (list_put_body index val)"
  "entries_only (list_get_body index)" "entries_only list_size_body"
  by (auto simp: entries_only_def bind_flow_Done_iff map_flow_value_Done_iff split: if_splits)

lemma entries_only_keeps:
  assumes "entries_only body" and "body d = Done (res, d')" and "tx_lock_of d = Some k"
  shows "tx_lock_of d' = Some k" and "object_ok T K (obj\<lparr>so_data := d\<rparr>) \<Longrightarrow> object_ok T K (obj\<lparr>so_data := d'\<rparr>)"
    and "body (with_tx_lock k' d) = Done (res, with_tx_lock k' d')"
proof -
  consider e e' where "d = P_table k e" "\<forall>k'. body (P_table k' e) = Done (res, P_table k' e')"
    | e e' where "d = P_list k e" "\<forall>k'. body (P_list k' e) = Done (res, P_list k' e')"
    using assms unfolding entries_only_def by (cases d) (simp_all, blast+)
  then have *: "tx_lock_of d' = Some k \<and> (object_ok T K (obj\<lparr>so_data := d\<rparr>) \<longrightarrow> object_ok T K (obj\<lparr>so_data := d'\<rparr>)) \<and>
      body (with_tx_lock k' d) = Done (res, with_tx_lock k' d')"
    using assms(2) by cases (auto simp: object_ok_def)
  then show "tx_lock_of d' = Some k" "object_ok T K (obj\<lparr>so_data := d\<rparr>) \<Longrightarrow> object_ok T K (obj\<lparr>so_data := d'\<rparr>)"
    "body (with_tx_lock k' d) = Done (res, with_tx_lock k' d')" by auto
qed

lemma begun_usable:
  assumes "tx_begin t p s = Done (ok, s1)" and "sys_wf T s"
  obtains obj k where "has_data s p obj (so_data obj)" "tx_lock_of (so_data obj) = Some k" "tx_usable t k s"
proof -
  from assms(1) obtain obj k where obj: "p \<noteq> 0" "objects s p = Some obj" and k: "tx_lock_of (so_data obj) = Some k"
    by (auto simp: tx_begin_def bind_flow_Done_iff deref_Done split: option.splits)
  have "tx_usable t k s"
  proof (cases k)
    case (Tx_own l)
    with sys_wf_object [OF assms(2) obj(2)] k have "l = new_lock False"
      by (cases "so_data obj") (auto simp: object_ok_def tx_ok_def)
    then show ?thesis by (simp add: Tx_own tx_usable_def new_lock_def lock_wf.simps)
  qed (use assms(1) obj k in \<open>auto simp: tx_begin_def tx_usable_def deref_object map_flow_value_Done_iff\<close>)
  with obj k show thesis by (intro that) (auto simp: has_data_def)
qed

lemma transaction_wf:
  assumes "transaction t p body failed s = Done (res, s')" and "sys_wf T s" and "entries_only body"
  shows "sys_wf T s'"
proof -
  from assms(1) obtain ok s1 where b: "tx_begin t p s = Done (ok, s1)"
    by (auto simp: transaction_def bracketed_def bind_flow_Done_iff)
  then obtain obj k where obj: "has_data s p obj (so_data obj)" and k: "tx_lock_of (so_data obj) = Some k"
    and use: "tx_usable t k s" using assms(2) by (rule begun_usable)
  let ?d = "so_data obj"
  show ?thesis
  proof (cases "tx_access t k s")
    case Wait
    then show ?thesis using tx.enter_waits [OF obj k use] b by simp
  next
    case Turned_away
    then show ?thesis using tx.enter_refuses [OF obj k use] assms(1,2) by (simp add: transaction_def bracketed_def)
  next
    case Let_in
    have p: "p \<noteq> 0" "objects s p = Some obj" using obj by (simp_all add: has_data_def)
    from tx.enter_and_leave [OF obj k use Let_in] obtain k' where
      "tx_begin t p s = Done (True, set_object p (obj\<lparr>so_data := with_tx_lock k' ?d\<rparr>) s)" by blast
    with assms(1) p obtain d where d: "body (with_tx_lock k' ?d) = Done (res, d)"
      by (auto simp: transaction_def bracketed_def bind_flow_Done_iff map_flow_value_Done_iff deref_object)
    have lock: "tx_lock_of (with_tx_lock k' ?d) = Some k'" using k by simp
    note keep = entries_only_keeps [OF assms(3) d lock]
    have "body ?d = Done (res, with_tx_lock k d)" using keep(3) [of k] k by simp
    note keep0 = entries_only_keeps [OF assms(3) this k]
    have "transaction t p body failed s =
        when_let_in (tx_access t k s) failed s (Done (res, set_object p (obj\<lparr>so_data := with_tx_lock k d\<rparr>) s))"
      using keep(3) keep0(1) by (intro transaction_result [OF obj k use]) simp_all
    then have "s' = set_object p (obj\<lparr>so_data := with_tx_lock k d\<rparr>) s"
      using assms(1) Let_in by (simp add: when_let_in_def)
    then show ?thesis
      using keep0(2) [where K = "kinds s" and T = T and obj = obj] sys_wf_object [OF assms(2) p(2)] assms(2) p
      by (auto intro!: set_object_wf)
  qed
qed

lemma store_wf:
  "table_put t p key val s = Done (n, s') \<Longrightarrow> sys_wf T s \<Longrightarrow> sys_wf T s'"
  "table_get t p key s = Done (v, s') \<Longrightarrow> sys_wf T s \<Longrightarrow> sys_wf T s'"
  "table_check t p key s = Done (n, s') \<Longrightarrow> sys_wf T s \<Longrightarrow> sys_wf T s'"
  "list_put t p index val s = Done (n, s') \<Longrightarrow> sys_wf T s \<Longrightarrow> sys_wf T s'"
  "list_get t p index s = Done (v, s') \<Longrightarrow> sys_wf T s \<Longrightarrow> sys_wf T s'"
  unfolding table_put_def table_get_def table_check_def list_put_def list_get_def
  by (erule (1) transaction_wf, rule entries_only_bodies)+

section \<open>Regions, channels and synchronisation variables\<close>

lemma set_region_lock_wf:
  assumes "set_region_lock r l s = Done s'" and "sys_wf T s" and "lock_wf l" and "\<not> recursive l"
  shows "sys_wf T s'"
proof -
  from assms(1) obtain obj where obj: "objects s r = Some obj" and
    c: "(case so_data obj of P_region _ tbl \<Rightarrow> Done (set_object r (obj\<lparr>so_data := P_region l tbl\<rparr>) s)
      | _ \<Rightarrow> Crash Type_confusion) = Done s'"
    by (auto simp: set_region_lock_def bind_flow_Done_iff deref_Done)
  then obtain l0 tbl where d: "so_data obj = P_region l0 tbl" by (cases "so_data obj") auto
  with sys_wf_object [OF assms(2) obj] have "names_ok (kinds s) tbl" by (simp add: object_ok_def)
  from region_bind_wf [OF assms(2) obj d this assms(3,4)] c d show ?thesis by simp
qed

lemma region_lock_ok:
  assumes "region_lock r s = Done l" and "sys_wf T s"
  shows "lock_wf l" and "\<not> recursive l"
proof -
  from assms(1) obtain obj where obj: "objects s r = Some obj" and
    "(case so_data obj of P_region l tbl \<Rightarrow> Done l | _ \<Rightarrow> Crash Type_confusion) = Done l"
    by (auto simp: region_lock_def bind_flow_Done_iff deref_Done)
  moreover from this obtain tbl where "so_data obj = P_region l tbl" by (cases "so_data obj") auto
  ultimately show "lock_wf l" "\<not> recursive l"
    using sys_wf_object [OF assms(2) obj] by (simp_all add: object_ok_def)
qed

lemma lock_region_wf:
  assumes "lock_region t r s = Done s'" and "sys_wf T s"
  shows "sys_wf T s'"
proof -
  from assms(1) obtain l where l: "region_lock r s = Done l" and
    c: "s' = s \<or> (\<exists>l'. lock_lock t l = Done l' \<and> set_region_lock r l' s = Done s')"
    by (auto simp: lock_region_def bind_flow_Done_iff split: if_splits)
  show ?thesis
    using c region_lock_ok [OF l assms(2)] assms(2)
    by (auto intro: set_region_lock_wf lock_lock_wf simp: lock_keeps_kind(1))
qed

lemma unlock_region_wf:
  assumes "unlock_region t r s = Done s'" and "sys_wf T s"
  shows "sys_wf T s'"
proof -
  from assms(1) obtain l where l: "region_lock r s = Done l" and
    c: "s' = s \<or> (\<exists>l'. unlock_lock t l = Done l' \<and> set_region_lock r l' s = Done s')"
    by (auto simp: unlock_region_def bind_flow_Done_iff split: if_splits)
  show ?thesis
    using c region_lock_ok [OF l assms(2)] assms(2)
    by (auto intro: set_region_lock_wf unlock_lock_wf simp: lock_keeps_kind(2))
qed

lemma rlock_destroy_wf: "rlock_destroy t p s = Done s' \<Longrightarrow> sys_wf T s \<Longrightarrow> sys_wf T s'"
  by (auto simp: rlock_destroy_def bind_flow_Done_iff releaseShared_def map_flow_value_Done_iff
      split: if_splits intro: decref_wf unlock_region_wf)

lemma on_channel_wf:
  assumes "on_channel p f s = Done (r, s')" and "sys_wf T s"
    and "\<And>c c'. f c = Done (r, c') \<Longrightarrow> channel_shape c \<Longrightarrow> channel_shape c'"
  shows "sys_wf T s'"
proof -
  from assms(1) obtain obj where obj: "objects s p = Some obj" and
    c: "(case so_data obj of
       P_channel c \<Rightarrow> map_flow_value (\<lambda>(r, c). (r, set_object p (obj\<lparr>so_data := P_channel c\<rparr>) s)) (f c)
     | _ \<Rightarrow> Crash Type_confusion) = Done (r, s')"
    by (auto simp: on_channel_def bind_flow_Done_iff deref_Done)
  then obtain c c' where d: "so_data obj = P_channel c" "f c = Done (r, c')"
    "s' = set_object p (obj\<lparr>so_data := P_channel c'\<rparr>) s"
    by (cases "so_data obj") (auto simp: map_flow_value_Done_iff)
  with sys_wf_object [OF assms(2) obj] assms(2,3) obj show ?thesis
    by (auto simp: object_ok_def intro!: set_object_wf)
qed

lemma on_syncvar_wf:
  assumes "on_syncvar p f s = Done (r, s')" and "sys_wf T s"
    and "\<And>c c'. f c = Done (r, c') \<Longrightarrow> syncvar_inv c \<Longrightarrow> syncvar_inv c'"
  shows "sys_wf T s'"
proof -
  from assms(1) obtain obj where obj: "objects s p = Some obj" and
    c: "(case so_data obj of
       P_syncvar c \<Rightarrow> map_flow_value (\<lambda>(r, c). (r, set_object p (obj\<lparr>so_data := P_syncvar c\<rparr>) s)) (f c)
     | _ \<Rightarrow> Crash Type_confusion) = Done (r, s')"
    by (auto simp: on_syncvar_def bind_flow_Done_iff deref_Done)
  then obtain c c' where d: "so_data obj = P_syncvar c" "f c = Done (r, c')"
    "s' = set_object p (obj\<lparr>so_data := P_syncvar c'\<rparr>) s"
    by (cases "so_data obj") (auto simp: map_flow_value_Done_iff)
  with sys_wf_object [OF assms(2) obj] assms(2,3) obj show ?thesis
    by (auto simp: object_ok_def intro!: set_object_wf)
qed

lemma channel_shape_ops:
  assumes "channel_shape c"
  shows "channel_send i t x c = Done c' \<Longrightarrow> channel_shape c'"
    and "channel_receive i t c = Done (r, c') \<Longrightarrow> channel_shape c'"
    and "channel_receive_resume i t c = Done (r, c') \<Longrightarrow> channel_shape c'"
    and "channel_count t c = Done (n, c') \<Longrightarrow> channel_shape c'"
proof -
  from assms obtain S W q where "c = idle_monitor S W q" by (auto simp: channel_shape_def)
  then show "channel_send i t x c = Done c' \<Longrightarrow> channel_shape c'"
    "channel_receive i t c = Done (r, c') \<Longrightarrow> channel_shape c'"
    "channel_receive_resume i t c = Done (r, c') \<Longrightarrow> channel_shape c'"
    "channel_count t c = Done (n, c') \<Longrightarrow> channel_shape c'"
    by (auto simp: channel_idle lock_simps split: list.splits if_splits prod.splits)
qed

lemma held_again:
  "lock_lock t (m_lock (held_monitor t S W d)) = Crash (Fatal ''locking mutex twice'')"
  by (simp add: held_monitor_def lock_lock_def)

lemma not_held:
  "syncvar_release t (idle_monitor S W d) = Crash (Fatal ''unlocking unowned lock'')"
  "u \<noteq> t \<Longrightarrow> syncvar_release t (held_monitor u S W d) = Crash (Fatal ''unlocking unowned lock'')"
  "syncvar_update t x (idle_monitor S W d) = Crash (Fatal ''signaled condition without locked mutex'')"
  "u \<noteq> t \<Longrightarrow> syncvar_update t x (held_monitor u S W d) =
     Crash (Fatal ''signaled condition without locked mutex'')"
  by (simp_all add: syncvar_release_def syncvar_update_def leave_def mbroadcast_def cond_broadcast_def
      unlock_lock_def is_locked_def idle_monitor_def held_monitor_def new_lock_def)

lemma syncvar_inv_ops:
  assumes "syncvar_inv c"
  shows "syncvar_write t x c = Done (b, c') \<Longrightarrow> syncvar_inv c'"
    and "syncvar_read t c = Done (r, c') \<Longrightarrow> syncvar_inv c'"
    and "syncvar_read_resume t c = Done (r, c') \<Longrightarrow> syncvar_inv c'"
    and "syncvar_check t c = Done (b, c') \<Longrightarrow> syncvar_inv c'"
    and "bind_flow (syncvar_acquire t c) (syncvar_wait_init t) = Done (b, c') \<Longrightarrow> syncvar_inv c'"
    and "syncvar_wait_init_resume t c = Done (b, c') \<Longrightarrow> syncvar_inv c'"
    and "syncvar_release t c = Done c' \<Longrightarrow> syncvar_inv c'"
    and "bind_flow (syncvar_update t x c) (syncvar_release t) = Done c' \<Longrightarrow> syncvar_inv c'"
proof -
  consider S W d where "c = idle_monitor S W d" "init d \<longrightarrow> S = []"
    | u W d where "c = held_monitor u [] W d" "init d" "u \<noteq> t"
    | W d where "c = held_monitor t [] W d" "init d"
    using assms by (metis syncvar_invE)
  note cases = this
  note again = syncvar_write_def syncvar_read_def syncvar_check_def syncvar_acquire_def enter_def held_again
  show "syncvar_write t x c = Done (b, c') \<Longrightarrow> syncvar_inv c'"
    by (cases rule: cases)
      (auto simp: lock_simps syncvar_idle syncvar_held split: if_splits, simp add: again)
  show "syncvar_read t c = Done (r, c') \<Longrightarrow> syncvar_inv c'"
    by (cases rule: cases)
      (auto simp: lock_simps syncvar_idle syncvar_held split: if_splits, simp add: again)
  show "syncvar_read_resume t c = Done (r, c') \<Longrightarrow> syncvar_inv c'"
    by (cases rule: cases) (auto simp: lock_simps syncvar_idle syncvar_held split: if_splits)
  show "syncvar_check t c = Done (b, c') \<Longrightarrow> syncvar_inv c'"
    by (cases rule: cases)
      (auto simp: lock_simps syncvar_idle syncvar_held split: if_splits, simp add: again)
  show "bind_flow (syncvar_acquire t c) (syncvar_wait_init t) = Done (b, c') \<Longrightarrow> syncvar_inv c'"
    by (cases rule: cases)
      (auto simp: lock_simps syncvar_idle syncvar_held split: if_splits, simp add: again)
  show "syncvar_wait_init_resume t c = Done (b, c') \<Longrightarrow> syncvar_inv c'"
    by (cases rule: cases) (auto simp: lock_simps syncvar_idle syncvar_held split: if_splits)
  show "syncvar_release t c = Done c' \<Longrightarrow> syncvar_inv c'"
    by (cases rule: cases) (auto simp: lock_simps syncvar_idle not_held)
  show "bind_flow (syncvar_update t x c) (syncvar_release t) = Done c' \<Longrightarrow> syncvar_inv c'"
    by (cases rule: cases) (auto simp: lock_simps syncvar_idle not_held)
qed

end
