(* ===== verification/Shared_Library.thy ===== *)
theory Shared_Library
  imports Shared_Invariant
begin

text \<open>
  The commands on shared objects as the library registers them, the runs of a system of
  threads that use them, and what holds in every run.
\<close>

section \<open>The table of commands\<close>

text \<open>The part of \<open>mod_init\<close> that registers the commands on shared objects.\<close>

type_synonym shared_command = "env \<Rightarrow> thread \<Rightarrow> leftv list \<Rightarrow> shared_sys \<Rightarrow> (reply \<times> shared_sys) flow"

definition shared_commands :: "(string \<times> shared_command) list" where
  "shared_commands =
     [(''putTable'', putTable), (''getTable'', getTable), (''inTable'', inTable),
      (''putList'', putList), (''getList'', getList),
      (''lockRegion'', lockRegion), (''regionLock'', regionLock), (''unlockRegion'', unlockRegion),
      (''sendChannel'', sendChannel), (''receiveChannel'', receiveChannel), (''statChannel'', statChannel),
      (''writeSyncVar'', writeSyncVar), (''updateSyncVar'', updateSyncVar),
      (''readSyncVar'', readSyncVar), (''statSyncVar'', statSyncVar),
      (''makeAtomicTable'', makeAtomicTable), (''makeAtomicList'', makeAtomicList),
      (''makeSharedTable'', makeSharedTable), (''makeSharedList'', makeSharedList),
      (''makeChannel'', makeChannel), (''makeSyncVar'', makeSyncVar), (''makeRegion'', makeRegion),
      (''findSharedObject'', findSharedObject), (''bindSharedObject'', bindSharedObject),
      (''typeSharedObject'', typeSharedObject)]"

section \<open>Every command keeps the state well formed\<close>

lemma guard_Done:
  "guard err s body = Done (r, s') \<longleftrightarrow>
     (\<exists>msg. err = Some msg \<and> r = Error msg \<and> s' = s) \<or> (err = None \<and> body = Done (r, s'))"
  by (auto simp: guard_def split: option.splits)

lemmas outcome_simps = guard_Done bind_flow_Done_iff map_flow_value_Done_iff

text \<open>The next free address does not move except where objects are created.\<close>

lemma values_keep_next_addr:
  "encode_value E v h = Done (str, h') \<Longrightarrow> next_addr h' = next_addr h"
  "decode_value E str h = Done (v, h') \<Longrightarrow> next_addr h' = next_addr h"
  "reply_shared ty p h = Done (r, h') \<Longrightarrow> next_addr h' = next_addr h"
  by (auto simp: encode_value_def decode_value_def set_refs_def reply_shared_def new_shared_def
      acquireShared_def incref_def map_flow_value_Done_iff)

lemma next_addr_set_object [simp]: "next_addr (set_object p obj h) = next_addr h"
  by (simp add: set_object_def)

lemma region_keeps_next_addr:
  "set_region_lock p l h = Done h' \<Longrightarrow> next_addr h' = next_addr h"
  "unlock_region t p h = Done h' \<Longrightarrow> next_addr h' = next_addr h"
proof -
  show set: "next_addr h' = next_addr h" if "set_region_lock p l h = Done h'" for l
  proof -
    from that obtain obj where "deref p h = Done obj" by (auto simp: set_region_lock_def bind_flow_Done_iff)
    with that show ?thesis by (cases "so_data obj") (auto simp: set_region_lock_def)
  qed
  show "unlock_region t p h = Done h' \<Longrightarrow> next_addr h' = next_addr h"
    by (auto simp: unlock_region_def outcome_simps split: if_splits dest: set)
qed

lemma blackbox_keeps_next_addr:
  "acquireShared p h = Done h' \<Longrightarrow> next_addr h' = next_addr h"
  "releaseShared p h = Done h' \<Longrightarrow> next_addr h' = next_addr h"
  "incref p n h = Done h' \<Longrightarrow> next_addr h' = next_addr h"
  "shared_destroy p h = Done h' \<Longrightarrow> next_addr h' = next_addr h"
  "rlock_destroy t p h = Done h' \<Longrightarrow> next_addr h' = next_addr h"
  by (auto simp: acquireShared_def releaseShared_def incref_def decref_def shared_destroy_def rlock_destroy_def
      outcome_simps split: if_splits dest!: region_keeps_next_addr)

lemma reply_shared_wf: "reply_shared ty p s = Done (r, s') \<Longrightarrow> sys_wf T s \<Longrightarrow> sys_wf T s'"
  by (auto simp: reply_shared_def outcome_simps intro: new_shared_wf)

lemma find_global_same:
  assumes "find_global t nm s = Done (p, s')" and "sys_wf T s"
  shows "s' = s" and "p = (case global_objects s nm of Some q \<Rightarrow> q | None \<Rightarrow> 0)"
proof -
  have idle: "global_objects_lock s = new_lock False" using assms(2) by (simp add: sys_wf_def)
  from assms(1) obtain l where
    f: "find_shared_object t nm (global_objects s) (new_lock False) = Done (p, l)" and
    s': "s' = s\<lparr>global_objects_lock := l\<rparr>"
    by (auto simp: find_global_def outcome_simps idle)
  then have "l = new_lock False" "p = (case global_objects s nm of Some q \<Rightarrow> q | None \<Rightarrow> 0)"
    by (auto simp: find_shared_object_def outcome_simps dest: idle_lock_cycle)
  with s' idle show "s' = s" "p = (case global_objects s nm of Some q \<Rightarrow> q | None \<Rightarrow> 0)"
    by (cases s; simp)+
qed

lemmas make_atomic_table_wf = make_atomic_wf [OF _ _ _ _ disjI1 [OF conjI [OF refl refl]]]
lemmas make_atomic_list_wf = make_atomic_wf [OF _ _ _ _ disjI2 [OF conjI [OF refl refl]]]
lemmas make_shared_table_wf = make_shared_wf [OF _ _ _ _ disjI1 [OF conjI [OF refl refl]]]
lemmas make_shared_list_wf = make_shared_wf [OF _ _ _ _ disjI2 [OF conjI [OF refl refl]]]

lemma fresh_objects_ok:
  "object_ok T K \<lparr>so_type = type_channel T, so_name = nm, so_refs = 0, so_data = consChannel\<rparr>"
  "object_ok T K \<lparr>so_type = type_syncvar T, so_name = nm, so_refs = 0, so_data = consSyncVar\<rparr>"
  "object_ok T K \<lparr>so_type = type_region T, so_name = nm, so_refs = 0, so_data = consRegion\<rparr>"
  by (simp_all add: object_ok_def consChannel_def consSyncVar_def consRegion_def new_channel_def
      new_syncvar_def lock_simps names_ok_def new_lock_wf)
    (simp add: new_lock_def)

lemma make_commands_wf:
  assumes "sys_wf (types E) s" and "types_ok (types E)"
  shows "makeAtomicTable E t args s = Done (r, s') \<Longrightarrow> sys_wf (types E) s'"
    and "makeAtomicList E t args s = Done (r, s') \<Longrightarrow> sys_wf (types E) s'"
    and "makeSharedTable E t args s = Done (r, s') \<Longrightarrow> sys_wf (types E) s'"
    and "makeSharedList E t args s = Done (r, s') \<Longrightarrow> sys_wf (types E) s'"
  using assms
  by (auto simp: makeAtomicTable_def makeAtomicList_def makeSharedTable_def makeSharedList_def outcome_simps
      elim!: reply_shared_wf intro: make_atomic_table_wf make_atomic_list_wf make_shared_table_wf
        make_shared_list_wf)

lemma make_named_wf:
  assumes "make_named name ty cons E t args s = Done (r, s')" and "sys_wf (types E) s"
    and "\<And>K nm. object_ok (types E) K \<lparr>so_type = ty (types E), so_name = nm, so_refs = 0, so_data = cons\<rparr>"
  shows "sys_wf (types E) s'"
  using assms(1,2) make_global_wf [OF _ _ assms(3)]
  by (auto simp: make_named_def outcome_simps elim!: reply_shared_wf)

lemma find_commands_wf:
  assumes "sys_wf (types E) s"
  shows "findSharedObject E t args s = Done (r, s') \<Longrightarrow> sys_wf (types E) s'"
    and "typeSharedObject E t args s = Done (r, s') \<Longrightarrow> sys_wf (types E) s'"
    and "bindSharedObject E t args s = Done (r, s') \<Longrightarrow> sys_wf (types E) s'"
  using assms
  by (auto simp: findSharedObject_def typeSharedObject_def bindSharedObject_def outcome_simps
      split: if_splits dest!: find_global_same(1) [OF _ assms] elim!: reply_shared_wf)

lemma store_commands_wf:
  assumes "sys_wf (types E) s"
  shows "getTable E t args s = Done (r, s') \<Longrightarrow> sys_wf (types E) s'"
    and "inTable E t args s = Done (r, s') \<Longrightarrow> sys_wf (types E) s'"
    and "putTable E t args s = Done (r, s') \<Longrightarrow> sys_wf (types E) s'"
    and "getList E t args s = Done (r, s') \<Longrightarrow> sys_wf (types E) s'"
    and "putList E t args s = Done (r, s') \<Longrightarrow> sys_wf (types E) s'"
  using assms
  by (auto simp: getTable_def inTable_def putTable_def getList_def putList_def outcome_simps
      elim!: decode_value_wf store_wf encode_value_wf)

lemma region_commands_wf:
  assumes "sys_wf (types E) s"
  shows "lockRegion E t args s = Done (r, s') \<Longrightarrow> sys_wf (types E) s'"
    and "regionLock E t args s = Done (r, s') \<Longrightarrow> sys_wf (types E) s'"
    and "unlockRegion E t args s = Done (r, s') \<Longrightarrow> sys_wf (types E) s'"
  using assms
  by (auto simp: lockRegion_def regionLock_def unlockRegion_def outcome_simps
      elim!: reply_shared_wf lock_region_wf unlock_region_wf)

lemma received_item_wf:
  "received_item E (res, s) = Done (r, s') \<Longrightarrow> sys_wf (types E) s \<Longrightarrow> sys_wf (types E) s'"
  by (auto simp: received_item_def outcome_simps split: option.splits elim!: decode_value_wf)

lemma channel_commands_wf:
  assumes "sys_wf (types E) s"
  shows "sendChannel E t args s = Done (r, s') \<Longrightarrow> sys_wf (types E) s'"
    and "receiveChannel E t args s = Done (r, s') \<Longrightarrow> sys_wf (types E) s'"
    and "receiveChannel_wake E t p s = Done (r, s') \<Longrightarrow> sys_wf (types E) s'"
    and "statChannel E t args s = Done (r, s') \<Longrightarrow> sys_wf (types E) s'"
  using assms
  by (auto simp: sendChannel_def receiveChannel_def receiveChannel_wake_def statChannel_def outcome_simps
      elim!: received_item_wf on_channel_wf encode_value_wf intro: channel_shape_ops)

lemma update_with_proc_wf:
  assumes "update_with_proc E t p nm rest s = Done (r, s')" and "sys_wf (types E) s"
  shows "sys_wf (types E) s'"
proof -
  from assms(1) obtain val s1 arg s2 argv where
    1: "on_syncvar p (\<lambda>v. Done (value_of (m_data v), v)) s = Done (val, s1)" and
    2: "syncvar_get E val s1 = Done (arg, s2)" and
    3: "(case executeProc E nm argv of
       Inl err \<Rightarrow> map_flow_value (\<lambda>(_, s). (Error err, s))
         (on_syncvar p (\<lambda>v. map_flow_value (Pair ()) (syncvar_release t v)) s2)
     | Inr result \<Rightarrow>
         bind_flow (encode_value E result s2) (\<lambda>(item, s).
         map_flow_value (\<lambda>(_, s). (Reply result, s))
           (on_syncvar p (\<lambda>v. map_flow_value (Pair ())
              (bind_flow (syncvar_update t item v) (syncvar_release t))) s))) = Done (r, s')"
    unfolding update_with_proc_def by (auto simp: bind_flow_Done_iff split: prod.splits if_splits)
  have "sys_wf (types E) s1" using 1 assms(2) by (rule on_syncvar_wf) auto
  with 2 have "sys_wf (types E) s2"
    by (auto simp: syncvar_get_def map_flow_value_Done_iff split: if_splits intro: decode_value_wf)
  with 3 show ?thesis
    by (cases "executeProc E nm argv")
      (auto simp: outcome_simps elim!: on_syncvar_wf encode_value_wf intro: syncvar_inv_ops
        dest: syncvar_inv_ops(8) [unfolded bind_flow_Done_iff])
qed

lemma run_command_Done:
  "run_command name checks args s body = Done (r, s') \<longleftrightarrow>
     (\<exists>msg. run_checks checks args = Done (Some msg) \<and> r = Error (name @ '': '' @ msg) \<and> s' = s) \<or>
     (run_checks checks args = Done None \<and> body = Done (r, s'))"
  by (auto simp: run_command_def bind_flow_Done_iff split: option.splits)

lemma syncvar_commands_wf:
  assumes "sys_wf (types E) s"
  shows "writeSyncVar E t args s = Done (r, s') \<Longrightarrow> sys_wf (types E) s'"
    and "updateSyncVar E t args s = Done (r, s') \<Longrightarrow> sys_wf (types E) s'"
    and "updateSyncVar_wake E t p nm rest s = Done (r, s') \<Longrightarrow> sys_wf (types E) s'"
    and "readSyncVar E t args s = Done (r, s') \<Longrightarrow> sys_wf (types E) s'"
    and "readSyncVar_wake E t p s = Done (r, s') \<Longrightarrow> sys_wf (types E) s'"
    and "statSyncVar E t args s = Done (r, s') \<Longrightarrow> sys_wf (types E) s'"
proof -
  show "updateSyncVar E t args s = Done (r, s') \<Longrightarrow> sys_wf (types E) s'"
    "updateSyncVar_wake E t p nm rest s = Done (r, s') \<Longrightarrow> sys_wf (types E) s'"
    using assms
    by (auto simp: updateSyncVar_def updateSyncVar_wake_def run_command_Done outcome_simps split: if_splits
        simp del: run_checks.simps
        elim!: update_with_proc_wf on_syncvar_wf intro: syncvar_inv_ops)
  show "writeSyncVar E t args s = Done (r, s') \<Longrightarrow> sys_wf (types E) s'"
    "readSyncVar E t args s = Done (r, s') \<Longrightarrow> sys_wf (types E) s'"
    "readSyncVar_wake E t p s = Done (r, s') \<Longrightarrow> sys_wf (types E) s'"
    "statSyncVar E t args s = Done (r, s') \<Longrightarrow> sys_wf (types E) s'"
    using assms
    by (auto simp: writeSyncVar_def readSyncVar_def readSyncVar_wake_def statSyncVar_def outcome_simps
        elim!: received_item_wf on_syncvar_wf encode_value_wf intro: syncvar_inv_ops)
qed

section \<open>Runs\<close>

text \<open>
  A step of the system: a command, the end of a sleep, an operation of the interpreter on a
  shared value, or a spurious wake-up. The threads, their arguments and the interpreter are
  arbitrary; what the steps have in common is the numbering of the types.
\<close>

inductive shared_step :: "shared_types \<Rightarrow> shared_sys \<Rightarrow> shared_sys \<Rightarrow> bool" for T where
  sh_command: "(name, cmd) \<in> set shared_commands \<Longrightarrow> types E = T \<Longrightarrow>
    cmd E t args s = Done (r, s') \<Longrightarrow> shared_step T s s'"
| sh_receive_wake: "types E = T \<Longrightarrow> receiveChannel_wake E t p s = Done (r, s') \<Longrightarrow> shared_step T s s'"
| sh_read_wake: "types E = T \<Longrightarrow> readSyncVar_wake E t p s = Done (r, s') \<Longrightarrow> shared_step T s s'"
| sh_update_wake: "types E = T \<Longrightarrow> updateSyncVar_wake E t p nm rest s = Done (r, s') \<Longrightarrow> shared_step T s s'"
| sh_copy: "shared_copy p s = Done (q, s') \<Longrightarrow> shared_step T s s'"
| sh_destroy: "shared_destroy p s = Done s' \<Longrightarrow> shared_step T s s'"
| sh_assign: "shared_assign lty l rty p s = Done (res, s') \<Longrightarrow> shared_step T s s'"
| sh_rlock_destroy: "rlock_destroy t p s = Done s' \<Longrightarrow> shared_step T s s'"
| sh_rlock_assign: "rlock_assign t lty l rty p s = Done (res, s') \<Longrightarrow> shared_step T s s'"
| sh_spurious_channel: "on_channel p (\<lambda>c. Done ((), mspurious t c)) s = Done ((), s') \<Longrightarrow> shared_step T s s'"
| sh_spurious_syncvar: "on_syncvar p (\<lambda>v. Done ((), mspurious t v)) s = Done ((), s') \<Longrightarrow> shared_step T s s'"

lemma shared_command_wf:
  assumes "(name, cmd) \<in> set shared_commands" and "cmd E t args s = Done (r, s')"
    and "sys_wf (types E) s" and "types_ok (types E)"
  shows "sys_wf (types E) s'"
proof -
  note wf = make_commands_wf [OF assms(3,4)] find_commands_wf [OF assms(3)] store_commands_wf [OF assms(3)]
    region_commands_wf [OF assms(3)] channel_commands_wf [OF assms(3)] syncvar_commands_wf [OF assms(3)]
  have named: "sys_wf (types E) s'" if "cmd \<in> {makeChannel, makeSyncVar, makeRegion}"
    using that assms(2,3)
    by (auto simp: makeChannel_def makeSyncVar_def makeRegion_def fresh_objects_ok elim: make_named_wf)
  from assms(1) show ?thesis
    unfolding shared_commands_def list.set insert_iff empty_iff prod.inject
    using assms(2) named by (elim disjE conjE) (simp_all add: wf)
qed

lemma assign_wf:
  "shared_assign lty l rty p s = Done (res, s') \<Longrightarrow> sys_wf T s \<Longrightarrow> sys_wf T s'"
  "rlock_assign t lty l rty p s = Done (res, s') \<Longrightarrow> sys_wf T s \<Longrightarrow> sys_wf T s'"
  by (auto simp: shared_assign_def rlock_assign_def bind_flow_Done_iff map_flow_value_Done_iff
      split: if_splits lhs.splits option.splits
      elim!: shared_copy_wf shared_destroy_wf rlock_destroy_wf)

lemma mspurious_shapes:
  "channel_shape c \<Longrightarrow> channel_shape (mspurious t c)"
  "syncvar_inv v \<Longrightarrow> syncvar_inv (mspurious t v)"
  using channel_step_effect [OF ch_spurious] syncvar_step_inv [OF v_spurious] by blast+

lemma shared_step_wf:
  assumes "shared_step T s s'" and "sys_wf T s" and "types_ok T"
  shows "sys_wf T s'"
  using assms(1)
proof cases
  case (sh_command name cmd E t args r)
  then show ?thesis using shared_command_wf assms(2,3) by blast
qed (use assms(2) in \<open>auto intro: channel_commands_wf syncvar_commands_wf shared_copy_wf
    shared_destroy_wf assign_wf rlock_destroy_wf elim!: on_channel_wf on_syncvar_wf
    dest: mspurious_shapes\<close>)

text \<open>
  C29. In every run, from the empty system on, the shared objects stay well formed: every
  name in the global table and in the table of a region leads to an object of that name,
  every object's contents fit its type, tables and lists have the lock that belongs to their
  type, channels and synchronisation variables have consistent queues of waiting threads,
  no lock of a table or list or of the global names is left taken, and addresses are used
  once.
\<close>

theorem shared_objects_stay_wf:
  assumes "reach (\<lambda>s. \<exists>n>0. s = initial_sys n) (shared_step T) s" and "types_ok T"
  shows "sys_wf T s"
  using assms(1)
proof (induction rule: reach.induct)
  case (reach_init s)
  then show ?case using initial_sys_wf by blast
next
  case (reach_step s s')
  then show ?case using shared_step_wf assms(2) by blast
qed

section \<open>Examples\<close>

definition sample_shared_types :: shared_types where
  "sample_shared_types = \<lparr>type_region = 402, type_regionlock = 404, type_channel = 405,
     type_syncvar = 406, type_atomic_table = 401, type_shared_table = 407, type_atomic_list = 408,
     type_shared_list = 403, type_thread = 409, type_threadpool = 410, type_job = 411, type_trigger = 412\<rparr>"

definition sample_env :: env where
  "sample_env = \<lparr>interp = sample_singular, types = sample_shared_types,
     codecs = library_registry sample_tokens (shared_type_list sample_shared_types), fuel = 5, pick = 0,
     has_proc = (\<lambda>_. True), call_proc = (\<lambda>_ _. Some L_none)\<rparr>"

lemma sample_env_simps [simp]:
  "types sample_env = sample_shared_types" "interp sample_env = sample_singular"
  "tok sample_singular = sample_tokens"
  by (simp_all add: sample_env_def sample_singular_def)

lemma sample_types_ok: "types_ok sample_shared_types"
  by (simp add: types_ok_def shared_type_list_def sample_shared_types_def)

lemma find_bound:
  assumes "sys_wf T s"
  shows "find_global t nm s = Done (case global_objects s nm of Some p \<Rightarrow> p | None \<Rightarrow> 0, s)"
proof -
  have "global_objects_lock s = new_lock False" using assms by (simp add: sys_wf_def)
  then show ?thesis
    by (cases s) (simp add: find_global_def find_shared_object_def lock_unless_held_def unlock_unless_def
        lock_lock_def unlock_lock_def is_locked_def new_lock_def)
qed

text \<open>A run of two commands: thread 7 makes a channel, thread 8 finds it by its name.\<close>

definition sample_uri :: leftv where
  "sample_uri = L_string (text_bytes ''c'')"

definition sample_channel_sys :: "int \<Rightarrow> shared_sys" where
  "sample_channel_sys n = \<lparr>objects = [1 \<mapsto> \<lparr>so_type = 405, so_name = text_bytes ''c'', so_refs = n,
     so_data = consChannel\<rparr>], next_addr = 2, global_objects = [text_bytes ''c'' \<mapsto> 1],
     global_objects_lock = new_lock False\<rparr>"

lemma sample_makes_channel:
  "makeChannel sample_env 7 [sample_uri] (initial_sys 1) = Done (Reply (L_blackbox 405 1), sample_channel_sys 1)"
  by (simp add: makeChannel_def make_named_def guard_def not_a_uri_def is_string_def typ_of_def sample_uri_def
      c_string_def text_bytes_def make_global_def make_shared_object_def lock_unless_held_def unlock_unless_def
      initial_sys_def new_lock_def is_locked_def lock_lock_def unlock_lock_def allocate_def reply_shared_def
      new_shared_def acquireShared_def incref_def deref_def set_object_def sample_shared_types_def
      sample_channel_sys_def sample_tokens_def)

lemma sample_binds_channel:
  "bindSharedObject sample_env 8 [sample_uri] (sample_channel_sys 1) =
     Done (Reply (L_blackbox 405 1), sample_channel_sys 2)"
  by (simp add: bindSharedObject_def guard_def not_a_uri_def is_string_def typ_of_def sample_uri_def
      c_string_def text_bytes_def find_global_def find_shared_object_def lock_unless_held_def unlock_unless_def
      new_lock_def is_locked_def lock_lock_def unlock_lock_def reply_shared_def unless_def
      new_shared_def acquireShared_def incref_def deref_def set_object_def sample_shared_types_def
      sample_channel_sys_def sample_tokens_def)

theorem shared_objects_stay_wf_witness: "sys_wf sample_shared_types (sample_channel_sys 2)"
proof (rule shared_objects_stay_wf [OF _ sample_types_ok])
  let ?I = "\<lambda>s. \<exists>n>0. s = initial_sys n" and ?R = "shared_step sample_shared_types"
  have "reach ?I ?R (initial_sys 1)" by (rule reach_init) auto
  then have "reach ?I ?R (sample_channel_sys 1)"
    by (rule reach_step) (rule sh_command [where name = "''makeChannel''" and cmd = makeChannel, OF _ _ sample_makes_channel], simp_all add: shared_commands_def)
  then show "reach ?I ?R (sample_channel_sys 2)"
    by (rule reach_step) (rule sh_command [where name = "''bindSharedObject''" and cmd = bindSharedObject, OF _ _ sample_binds_channel], simp_all add: shared_commands_def)
qed

end
