(* ===== verification/Threads.thy ===== *)
theory Threads
  imports Shared_Library
begin

text \<open>
  shared.cc, threads: the array of \<open>ThreadState\<close>s, the messages between an interpreter
  thread and the thread that created it, and \<open>createThread\<close>, \<open>joinThread\<close>,
  \<open>threadEval\<close>, \<open>threadExec\<close>, \<open>threadResult\<close>, \<open>threadID\<close> and \<open>mainThread\<close>.
\<close>

section \<open>ThreadState\<close>

text \<open>What a thread runs: \<open>interpreter_thread\<close>, or another function (with its argument).\<close>

datatype thread_func = Interpreter_thread | Other_thread nat

text \<open>
  \<open>ts_phase\<close> is how far the thread of a \<open>ThreadState\<close> has got: not created, before it
  takes the lock, at the head of its loop, asleep on \<open>to_cond\<close>, or finished.
\<close>

datatype phase = Not_created | Created | At_loop | In_wait | Finished

record thread_state =
  ts_active :: bool
  ts_running :: bool
  ts_index :: int
  ts_func :: thread_func
  ts_id :: thread
  ts_parent :: thread
  ts_lock :: lock
  to_cond :: cond_var
  from_cond :: cond_var
  to_thread :: "bytes list"
  from_thread :: "bytes list"
  ts_phase :: phase

definition new_thread_state :: thread_state where
  "new_thread_state = \<lparr>ts_active = False, ts_running = False, ts_index = - 1, ts_func = Other_thread 0,
     ts_id = 0, ts_parent = 0, ts_lock = new_lock False, to_cond = new_cond, from_cond = new_cond,
     to_thread = [], from_thread = [], ts_phase = Not_created\<rparr>"

section \<open>Messages\<close>

text \<open>A command of the protocol is the first byte of a string; that of an empty one is 0.\<close>

definition first_char :: "bytes \<Rightarrow> byte" where
  "first_char str = (case str of [] \<Rightarrow> 0 | c # _ \<Rightarrow> c)"

definition is_quit :: "bytes \<Rightarrow> bool" where
  "is_quit str \<longleftrightarrow> first_char str = 0 \<or> first_char str = of_char CHR ''q''"

definition is_eval :: "bytes \<Rightarrow> bool" where
  "is_eval str \<longleftrightarrow> first_char str = of_char CHR ''e''"

text \<open>The parent: a command and its expression are pushed under the lock.\<close>

definition ts_lock_state :: "thread \<Rightarrow> thread_state \<Rightarrow> thread_state flow" where
  "ts_lock_state t ts = map_flow_value (\<lambda>l. ts\<lparr>ts_lock := l\<rparr>) (lock_lock t (ts_lock ts))"

definition ts_unlock :: "thread \<Rightarrow> thread_state \<Rightarrow> thread_state flow" where
  "ts_unlock t ts = map_flow_value (\<lambda>l. ts\<lparr>ts_lock := l\<rparr>) (unlock_lock t (ts_lock ts))"

definition signal_to :: "nat \<Rightarrow> thread \<Rightarrow> thread_state \<Rightarrow> thread_state flow" where
  "signal_to p t ts = map_flow_value (\<lambda>c. ts\<lparr>to_cond := c\<rparr>) (cond_signal p t (ts_lock ts) (to_cond ts))"

definition signal_from :: "nat \<Rightarrow> thread \<Rightarrow> thread_state \<Rightarrow> thread_state flow" where
  "signal_from p t ts = map_flow_value (\<lambda>c. ts\<lparr>from_cond := c\<rparr>) (cond_signal p t (ts_lock ts) (from_cond ts))"

definition ts_push :: "nat \<Rightarrow> thread \<Rightarrow> bytes list \<Rightarrow> thread_state \<Rightarrow> thread_state flow" where
  "ts_push p t msgs ts =
     bind_flow (signal_to p t (ts\<lparr>to_thread := to_thread ts @ msgs\<rparr>)) (ts_unlock t)"

text \<open>
  The interpreter thread. It keeps the lock from its start to its end, except while it
  waits. \<open>ev\<close> is the evaluation of an expression: it yields the encoded result and
  changes the rest of the system.
\<close>

definition interp_start :: "thread \<Rightarrow> thread_state \<Rightarrow> thread_state flow" where
  "interp_start t ts = map_flow_value (\<lambda>ts. ts\<lparr>ts_phase := At_loop\<rparr>) (ts_lock_state t ts)"

definition interp_pass ::
    "nat \<Rightarrow> (bytes \<Rightarrow> 'w \<Rightarrow> (bytes \<times> 'w) flow) \<Rightarrow> thread \<Rightarrow> thread_state \<Rightarrow> 'w \<Rightarrow> (thread_state \<times> 'w) flow" where
  "interp_pass p ev t ts w =
     (case to_thread ts of
        [] \<Rightarrow> map_flow_value (\<lambda>(l, c). (ts\<lparr>ts_lock := l, to_cond := c, ts_phase := In_wait\<rparr>, w))
                (cond_wait t (ts_lock ts) (to_cond ts))
      | cmd # rest \<Rightarrow>
          if is_quit cmd then map_flow_value (\<lambda>ts. (ts\<lparr>ts_phase := Finished\<rparr>, w)) (ts_unlock t ts)
          else (case rest of
              [] \<Rightarrow> Crash Out_of_bounds
            | expr # rest \<Rightarrow>
                bind_flow (ev expr w) (\<lambda>(res, w).
                map_flow_value (\<lambda>ts. (ts, w))
                  (signal_from p t (ts\<lparr>to_thread := rest,
                     from_thread := from_thread ts @ (if is_eval cmd then [res] else [])\<rparr>)))))"

definition interp_wake :: "thread \<Rightarrow> thread_state \<Rightarrow> thread_state flow" where
  "interp_wake t ts = map_flow_value (\<lambda>(l, c). ts\<lparr>ts_lock := l, to_cond := c, ts_phase := At_loop\<rparr>)
     (cond_wait_return t (ts_lock ts) (to_cond ts))"

text \<open>The loop of \<open>threadResult\<close>: the oldest result, or sleep on \<open>from_cond\<close>.\<close>

definition result_loop :: "thread \<Rightarrow> thread_state \<Rightarrow> (bytes option \<times> thread_state) flow" where
  "result_loop t ts =
     (case from_thread ts of
        [] \<Rightarrow> map_flow_value (\<lambda>(l, c). (None, ts\<lparr>ts_lock := l, from_cond := c\<rparr>))
                (cond_wait t (ts_lock ts) (from_cond ts))
      | res # rest \<Rightarrow> map_flow_value (Pair (Some res)) (ts_unlock t (ts\<lparr>from_thread := rest\<rparr>)))"

definition result_resume :: "thread \<Rightarrow> thread_state \<Rightarrow> (bytes option \<times> thread_state) flow" where
  "result_resume t ts = bind_flow (cond_wait_return t (ts_lock ts) (from_cond ts)) (\<lambda>(l, c).
     result_loop t (ts\<lparr>ts_lock := l, from_cond := c\<rparr>))"

section \<open>The array of threads\<close>

text \<open>
  \<open>th_of\<close> is the field \<open>ts\<close> of the \<open>InterpreterThread\<close> at an address, an index of the
  array, or nothing once \<open>clearThreadState\<close> has been called. \<open>th_ids\<close> is the
  thread-local \<open>thread_id\<close>, zero in the main thread. Identities of threads are not used
  twice.
\<close>

record thread_sys =
  th_slots :: "thread_state list"
  th_lock :: lock
  th_of :: "addr \<Rightarrow> nat option"
  th_ids :: "thread \<Rightarrow> int"
  th_counter :: int
  th_master :: lock
  th_next :: thread
  th_shared :: shared_sys

definition MAX_THREADS :: nat where
  "MAX_THREADS = 128"

text \<open>The state after \<open>mod_init\<close>, called by the main thread 0.\<close>

definition initial_threads :: "nat \<Rightarrow> thread_sys" where
  "initial_threads n = \<lparr>th_slots = replicate MAX_THREADS new_thread_state, th_lock = new_lock False,
     th_of = (\<lambda>_. None), th_ids = (\<lambda>_. 0), th_counter = 0, th_master = new_lock True, th_next = 1,
     th_shared = initial_sys n\<rparr>"

fun find_inactive :: "nat \<Rightarrow> thread_state list \<Rightarrow> nat option" where
  "find_inactive i [] = None"
| "find_inactive i (ts # rest) = (if \<not> ts_active ts then Some i else find_inactive (Suc i) rest)"

text \<open>
  \<open>newThread\<close>. \<open>created\<close> tells whether \<open>pthread_create\<close> creates a thread. It
  reports failure by a positive number, which the code takes for success.
\<close>

definition fresh_slot :: "thread_func \<Rightarrow> bool \<Rightarrow> thread \<Rightarrow> nat \<Rightarrow> thread \<Rightarrow> thread_state \<Rightarrow> thread_state" where
  "fresh_slot f created t i nid ts = ts\<lparr>ts_index := int i, ts_parent := t, ts_active := True,
     ts_running := True, to_thread := [], from_thread := [], ts_func := f,
     ts_id := (if created then nid else ts_id ts),
     ts_phase := (if created then Created else Not_created)\<rparr>"

definition newThread :: "thread_func \<Rightarrow> bool \<Rightarrow> thread \<Rightarrow> thread_sys \<Rightarrow> ((string + nat) \<times> thread_sys) flow" where
  "newThread f created t s =
     bind_flow (lock_lock t (th_lock s)) (\<lambda>l.
     let (res, s) =
       (case find_inactive 0 (th_slots s) of
          None \<Rightarrow> (Inl ''createThread: too many threads'', s)
        | Some i \<Rightarrow> (Inr i, s\<lparr>
            th_slots := (th_slots s)[i := fresh_slot f created t i (th_next s) (th_slots s ! i)],
            th_next := th_next s + 1\<rparr>))
     in map_flow_value (\<lambda>l. (res, s\<lparr>th_lock := l\<rparr>)) (unlock_lock t l))"

text \<open>\<open>thread_init\<close>, run first by every created thread.\<close>

definition thread_init :: "thread \<Rightarrow> thread_sys \<Rightarrow> thread_sys flow" where
  "thread_init t s =
     bind_flow (lock_lock t (th_master s)) (\<lambda>l.
     map_flow_value (\<lambda>l. s\<lparr>th_counter := th_counter s + 1,
         th_ids := (th_ids s)(t := th_counter s + 1), th_master := l\<rparr>)
       (unlock_lock t l))"

text \<open>The decimal digits of an index, \<open>sprintf(buf, "%d", ts->index)\<close>.\<close>

fun decimal :: "nat \<Rightarrow> bytes" where
  "decimal n = (if n < 10 then [of_nat (48 + n)] else decimal (n div 10) @ [of_nat (48 + n mod 10)])"

declare decimal.simps [simp del]

definition createInterpreterThread ::
    "env \<Rightarrow> bool \<Rightarrow> thread \<Rightarrow> thread_sys \<Rightarrow> ((string + addr) \<times> thread_sys) flow" where
  "createInterpreterThread E created t s =
     bind_flow (newThread Interpreter_thread created t s) (\<lambda>(res, s).
     case res of
       Inl err \<Rightarrow> Done (Inl err, s)
     | Inr i \<Rightarrow>
         map_flow_value (\<lambda>(p, h). (Inr p, s\<lparr>th_shared := h, th_of := (th_of s)(p \<mapsto> i)\<rparr>))
           (allocate P_other (type_thread (types E)) (decimal i) (th_shared s)))"

definition have_threads :: bool where
  "have_threads = True"

definition createThread :: "bool \<Rightarrow> env \<Rightarrow> thread \<Rightarrow> leftv list \<Rightarrow> thread_sys \<Rightarrow> (reply \<times> thread_sys) flow" where
  "createThread created E t args s =
     run_command ''createThread''
       [check_argc 0, \<lambda>_. Done (unless have_threads ''thread support not available'')] args s
       (bind_flow (createInterpreterThread E created t s) (\<lambda>(res, s).
          case res of
            Inl err \<Rightarrow> Done (Error (''createThread: '' @ err), s)
          | Inr p \<Rightarrow> map_flow_value (\<lambda>(r, h). (r, s\<lparr>th_shared := h\<rparr>))
              (reply_shared (type_thread (types E)) p (th_shared s))))"

section \<open>Sending, receiving, joining\<close>

text \<open>
  Following the argument to its \<open>ThreadState\<close>: a null pointer is dereferenced, and the
  result is null for a thread that has been joined.
\<close>

definition getThreadState :: "addr \<Rightarrow> thread_sys \<Rightarrow> (nat option) flow" where
  "getThreadState p s = map_flow_value (\<lambda>_. th_of s p) (deref p (th_shared s))"

definition slot :: "nat \<Rightarrow> thread_sys \<Rightarrow> thread_state" where
  "slot i s = th_slots s ! i"

definition set_slot :: "nat \<Rightarrow> thread_state \<Rightarrow> thread_sys \<Rightarrow> thread_sys" where
  "set_slot i ts s = s\<lparr>th_slots := (th_slots s)[i := ts]\<rparr>"

definition on_slot :: "nat \<Rightarrow> (thread_state \<Rightarrow> ('r \<times> thread_state) flow) \<Rightarrow> thread_sys \<Rightarrow> ('r \<times> thread_sys) flow" where
  "on_slot i f s =
     (if i < length (th_slots s) then map_flow_value (\<lambda>(r, ts). (r, set_slot i ts s)) (f (slot i s))
      else Crash Out_of_bounds)"

definition is_thread :: "env \<Rightarrow> leftv \<Rightarrow> bool" where
  "is_thread E v \<longleftrightarrow> typ_of E v = type_thread (types E)"

text \<open>
  \<open>threadEval\<close>, \<open>threadExec\<close> and \<open>threadResult\<close> begin in the same way: only the
  parent may go on, and only while the thread runs.
\<close>

definition with_running_thread ::
    "string \<Rightarrow> thread \<Rightarrow> addr \<Rightarrow> thread_sys \<Rightarrow>
      (nat \<Rightarrow> thread_sys \<Rightarrow> (reply \<times> thread_sys) flow) \<Rightarrow> (reply \<times> thread_sys) flow" where
  "with_running_thread name t p s body =
     bind_flow (getThreadState p s) (\<lambda>ts.
     guard (unless (case ts of Some i \<Rightarrow> ts_parent (slot i s) = t | None \<Rightarrow> True)
       (name @ '': can only be called from parent thread'')) s
     (case ts of
        None \<Rightarrow> Done (Error (name @ '': thread is no longer running''), s)
      | Some i \<Rightarrow>
          bind_flow (on_slot i (\<lambda>ts. map_flow_value (Pair ()) (ts_lock_state t ts)) s) (\<lambda>(_, s).
          if ts_running (slot i s) \<and> ts_active (slot i s) then body i s
          else map_flow_value (\<lambda>(_, s). (Error (name @ '': thread is no longer running''), s))
                 (on_slot i (\<lambda>ts. map_flow_value (Pair ()) (ts_unlock t ts)) s))))"

definition thread_send ::
    "string \<Rightarrow> string \<Rightarrow> env \<Rightarrow> thread \<Rightarrow> leftv list \<Rightarrow> thread_sys \<Rightarrow> (reply \<times> thread_sys) flow" where
  "thread_send name cmd E t args s =
     guard (wrong_num_args name args 2) s (
     guard (unless (is_thread E (args ! 0)) (name @ '': argument is not a thread'')) s (
     bind_flow (shared_arg (args ! 0)) (\<lambda>thread.
     bind_flow (encode_value E (args ! 1) (th_shared s)) (\<lambda>(expr, h).
     with_running_thread name t thread (s\<lparr>th_shared := h\<rparr>) (\<lambda>i s.
       map_flow_value (\<lambda>(_, s). (Reply L_none, s))
         (on_slot i (\<lambda>ts. map_flow_value (Pair ()) (ts_push (pick E) t [text_bytes cmd, expr] ts)) s))))))"

definition threadEval :: "env \<Rightarrow> thread \<Rightarrow> leftv list \<Rightarrow> thread_sys \<Rightarrow> (reply \<times> thread_sys) flow" where
  "threadEval = thread_send ''threadEval'' ''e''"

definition threadExec :: "env \<Rightarrow> thread \<Rightarrow> leftv list \<Rightarrow> thread_sys \<Rightarrow> (reply \<times> thread_sys) flow" where
  "threadExec = thread_send ''threadExec'' ''x''"

definition thread_result :: "env \<Rightarrow> bytes option \<times> thread_sys \<Rightarrow> (reply \<times> thread_sys) flow" where
  "thread_result E r =
     (case r of
        (None, s) \<Rightarrow> Done (Asleep, s)
      | (Some expr, s) \<Rightarrow> map_flow_value (\<lambda>(v, h). (Reply v, s\<lparr>th_shared := h\<rparr>))
          (decode_value E expr (th_shared s)))"

definition threadResult :: "env \<Rightarrow> thread \<Rightarrow> leftv list \<Rightarrow> thread_sys \<Rightarrow> (reply \<times> thread_sys) flow" where
  "threadResult E t args s =
     guard (wrong_num_args ''threadResult'' args 1) s (
     guard (unless (is_thread E (args ! 0)) ''threadResult: argument is not a thread'') s (
     bind_flow (shared_arg (args ! 0)) (\<lambda>thread.
     with_running_thread ''threadResult'' t thread s (\<lambda>i s.
       bind_flow (on_slot i (result_loop t) s) (thread_result E)))))"

definition threadResult_wake :: "env \<Rightarrow> thread \<Rightarrow> nat \<Rightarrow> thread_sys \<Rightarrow> (reply \<times> thread_sys) flow" where
  "threadResult_wake E t i s = bind_flow (on_slot i (result_resume t) s) (thread_result E)"

text \<open>
  \<open>joinThread\<close> up to \<open>pthread_join\<close>, which returns once the thread has finished, and
  the rest. There is no check that the \<open>ThreadState\<close> is still there.
\<close>

definition joinThread :: "env \<Rightarrow> thread \<Rightarrow> leftv list \<Rightarrow> thread_sys \<Rightarrow> (reply \<times> thread_sys) flow" where
  "joinThread E t args s =
     guard (wrong_num_args ''joinThread'' args 1) s (
     guard (unless (is_thread E (args ! 0)) ''joinThread: argument is not a thread'') s (
     bind_flow (shared_arg (args ! 0)) (\<lambda>thread.
     bind_flow (getThreadState thread s) (\<lambda>ts.
     guard (unless (case ts of Some i \<Rightarrow> ts_parent (slot i s) = t | None \<Rightarrow> True)
       ''joinThread: can only be called from parent thread'') s (
     case ts of
       None \<Rightarrow> Crash Null_deref
     | Some i \<Rightarrow> map_flow_value (\<lambda>(_, s). (Asleep, s))
         (on_slot i (\<lambda>ts. map_flow_value (Pair ())
            (bind_flow (ts_lock_state t ts) (ts_push (pick E) t [text_bytes ''q'']))) s))))))"

definition pthread_join :: "nat \<Rightarrow> thread_sys \<Rightarrow> unit flow" where
  "pthread_join i s =
     (case ts_phase (slot i s) of Finished \<Rightarrow> Done () | Not_created \<Rightarrow> Crash Uninitialized | _ \<Rightarrow> Block)"

definition stop_slot :: "thread_state \<Rightarrow> thread_state" where
  "stop_slot ts = ts\<lparr>ts_running := False, ts_active := False\<rparr>"

definition joinThread_wake :: "thread \<Rightarrow> addr \<Rightarrow> nat \<Rightarrow> thread_sys \<Rightarrow> (reply \<times> thread_sys) flow" where
  "joinThread_wake t thread i s =
     bind_flow (pthread_join i s) (\<lambda>_.
     bind_flow (lock_lock t (th_lock s)) (\<lambda>l.
     let s = set_slot i (stop_slot (slot i s)) (s\<lparr>th_of := (th_of s)(thread := None)\<rparr>)
     in map_flow_value (\<lambda>l. (Reply L_none, s\<lparr>th_lock := l\<rparr>)) (unlock_lock t l)))"

text \<open>
  The function \<open>joinThread\<close> for C++ callers does the same for a \<open>ThreadState\<close>, but
  reaches the end of its body without a \<open>return\<close>: what follows is undefined.
\<close>

definition join_thread_state :: "thread \<Rightarrow> nat \<Rightarrow> thread_sys \<Rightarrow> thread_sys flow" where
  "join_thread_state t i s =
     bind_flow (pthread_join i s) (\<lambda>_.
     bind_flow (lock_lock t (th_lock s)) (\<lambda>l.
     bind_flow (map_flow_value (\<lambda>l. (set_slot i (stop_slot (slot i s)) s)\<lparr>th_lock := l\<rparr>) (unlock_lock t l))
       (\<lambda>_. Crash Missing_return)))"

definition threadID :: "env \<Rightarrow> thread \<Rightarrow> leftv list \<Rightarrow> thread_sys \<Rightarrow> (reply \<times> thread_sys) flow" where
  "threadID E t args s = guard (wrong_num_args ''threadID'' args 0) s
     (Done (Reply (L_int (word_of_int (th_ids s t))), s))"

definition mainThread :: "env \<Rightarrow> thread \<Rightarrow> leftv list \<Rightarrow> thread_sys \<Rightarrow> (reply \<times> thread_sys) flow" where
  "mainThread E t args s = guard (wrong_num_args ''mainThread'' args 0) s
     (Done (Reply (L_int (if th_ids s t = 0 then 1 else 0)), s))"

text \<open>What a created thread does next.\<close>

definition evaluate :: "env \<Rightarrow> bytes \<Rightarrow> shared_sys \<Rightarrow> (bytes \<times> shared_sys) flow" where
  "evaluate E expr h = bind_flow (decode_value E expr h) (\<lambda>(v, h). encode_value E v h)"

definition interpreter_thread :: "env \<Rightarrow> nat \<Rightarrow> thread_sys \<Rightarrow> thread_sys flow" where
  "interpreter_thread E i s =
     (let ts = slot i s; t = ts_id ts in
      case ts_phase ts of
        Created \<Rightarrow> bind_flow (thread_init t s) (\<lambda>s.
          map_flow_value (\<lambda>ts. set_slot i ts s) (interp_start t (slot i s)))
      | At_loop \<Rightarrow> map_flow_value (\<lambda>(ts, h). set_slot i ts (s\<lparr>th_shared := h\<rparr>))
          (interp_pass (pick E) (evaluate E) t ts (th_shared s))
      | In_wait \<Rightarrow> map_flow_value (\<lambda>ts. set_slot i ts s) (interp_wake t ts)
      | _ \<Rightarrow> Block)"

end
