(* ===== verification/Jobs.thy ===== *)
theory Jobs
  imports Threads
begin

text \<open>
  shared.cc, jobs: the class \<open>Job\<close> with its subclasses, the order in which a pool runs
  them, the state of thread pools and schedulers, and the operations of \<open>Scheduler\<close> on
  its queues.
\<close>

section \<open>Jobs\<close>

text \<open>
  The subclasses of \<open>Job\<close> with their own fields; kernel functions are given by a number.
\<close>

datatype job_kind =
    EvalJob
  | ExecJob
  | ProcJob bytes
  | KernelJob nat
  | RawKernelJob nat
  | AccTrigger int
  | CountTrigger int
  | SetTrigger "bool list" int
  | ProcTrigger bytes bool

record job =
  jb_kind :: job_kind
  jb_pool :: addr
  jb_prio :: int
  jb_id :: "64 word"
  pending_index :: int
  jb_deps :: "addr list"
  jb_notify :: "addr list"
  jb_triggers :: "addr list"
  jb_args :: "bytes list"
  jb_result :: bytes
  jb_data :: nat
  jb_fast :: bool
  jb_done :: bool
  jb_queued :: bool
  jb_running :: bool
  jb_cancelled :: bool

fun is_trigger :: "job_kind \<Rightarrow> bool" where
  "is_trigger (AccTrigger _) = True"
| "is_trigger (CountTrigger _) = True"
| "is_trigger (SetTrigger _ _) = True"
| "is_trigger (ProcTrigger _ _) = True"
| "is_trigger _ = False"

definition new_job :: "job_kind \<Rightarrow> job" where
  "new_job k = \<lparr>jb_kind = k, jb_pool = 0, jb_prio = 0, jb_id = 0, pending_index = - 1, jb_deps = [],
     jb_notify = [], jb_triggers = [], jb_args = [], jb_result = [], jb_data = 0, jb_fast = is_trigger k,
     jb_done = False, jb_queued = False, jb_running = False, jb_cancelled = False\<rparr>"

text \<open>\<open>JobCompare\<close>: whether the first job comes after the second.\<close>

definition JobCompare :: "job \<Rightarrow> job \<Rightarrow> bool" where
  "JobCompare lhs rhs =
     (if \<not> jb_fast lhs \<and> jb_fast rhs then True
      else if jb_prio lhs < jb_prio rhs then True
      else if jb_prio lhs = jb_prio rhs then jb_id rhs < jb_id lhs
      else False)"

section \<open>Pools and schedulers\<close>

text \<open>
  What a worker of a scheduler does: it has not begun, it is at the head of its loop with
  the lock, it waits on \<open>cond\<close>, it executes a job without the lock, or it has left.
\<close>

datatype worker = W_start | W_loop | W_wait | W_run addr | W_exit

record scheduler =
  single_threaded :: bool
  next_jobid :: "64 word"
  sc_nthreads :: int
  shutting_down :: bool
  shutdown_counter :: int
  sc_threads :: "nat list"
  global_queue :: "addr list"
  thread_queues :: "addr list list"
  pending :: "addr list"
  sc_cond :: cond_var
  sc_response :: cond_var
  sc_lock :: lock
  sc_workers :: "(thread \<times> nat \<times> worker) list"

definition new_scheduler :: "int \<Rightarrow> scheduler" where
  "new_scheduler n = \<lparr>single_threaded = (n = 0), next_jobid = 0, sc_nthreads = (if n = 0 then 1 else n),
     shutting_down = False, shutdown_counter = 0, sc_threads = [], global_queue = [], thread_queues = [[]],
     pending = [], sc_cond = new_cond, sc_response = new_cond, sc_lock = new_lock True, sc_workers = []\<rparr>"

record pool =
  po_scheduler :: addr
  po_nthreads :: int

text \<open>
  The state of the library: threads with the heap of shared objects, what jobs, pools and
  schedulers there are, and \<open>currentThreadPoolRef\<close> and \<open>currentJobRef\<close> of every thread.
\<close>

record job_sys =
  js_threads :: thread_sys
  js_jobs :: "addr \<Rightarrow> job option"
  js_pools :: "addr \<Rightarrow> pool option"
  js_scheds :: "addr \<Rightarrow> scheduler option"
  currentThreadPoolRef :: "thread \<Rightarrow> addr"
  currentJobRef :: "thread \<Rightarrow> addr"
  js_name_lock :: lock

definition initial_jobs :: "nat \<Rightarrow> job_sys" where
  "initial_jobs n = \<lparr>js_threads = initial_threads n, js_jobs = (\<lambda>_. None), js_pools = (\<lambda>_. None),
     js_scheds = (\<lambda>_. None), currentThreadPoolRef = (\<lambda>_. 0), currentJobRef = (\<lambda>_. 0),
     js_name_lock = new_lock True\<rparr>"

text \<open>Operations on the heap of shared objects, and following pointers to the other tables.\<close>

definition heap :: "job_sys \<Rightarrow> shared_sys" where
  "heap s = th_shared (js_threads s)"

definition set_heap :: "shared_sys \<Rightarrow> job_sys \<Rightarrow> job_sys" where
  "set_heap h s = s\<lparr>js_threads := (js_threads s)\<lparr>th_shared := h\<rparr>\<rparr>"

definition on_heap :: "(shared_sys \<Rightarrow> ('r \<times> shared_sys) flow) \<Rightarrow> job_sys \<Rightarrow> ('r \<times> job_sys) flow" where
  "on_heap f s = map_flow_value (\<lambda>(r, h). (r, set_heap h s)) (f (heap s))"

definition acquire_in :: "addr \<Rightarrow> job_sys \<Rightarrow> job_sys flow" where
  "acquire_in p s = map_flow_value (\<lambda>h. set_heap h s) (acquireShared p (heap s))"

definition release_in :: "addr \<Rightarrow> job_sys \<Rightarrow> job_sys flow" where
  "release_in p s = map_flow_value (\<lambda>h. set_heap h s) (releaseShared p (heap s))"

definition lookup_ptr :: "(addr \<Rightarrow> 'a option) \<Rightarrow> addr \<Rightarrow> 'a flow" where
  "lookup_ptr m p =
     (if p = 0 then Crash Null_deref else case m p of None \<Rightarrow> Crash Type_confusion | Some x \<Rightarrow> Done x)"

definition the_job :: "addr \<Rightarrow> job_sys \<Rightarrow> job flow" where
  "the_job p s = lookup_ptr (js_jobs s) p"

definition update_job :: "addr \<Rightarrow> (job \<Rightarrow> job) \<Rightarrow> job_sys \<Rightarrow> job_sys flow" where
  "update_job p f s = map_flow_value (\<lambda>j. s\<lparr>js_jobs := (js_jobs s)(p \<mapsto> f j)\<rparr>) (the_job p s)"

definition the_sched :: "addr \<Rightarrow> job_sys \<Rightarrow> scheduler flow" where
  "the_sched sc s = lookup_ptr (js_scheds s) sc"

definition put_sched :: "addr \<Rightarrow> scheduler \<Rightarrow> job_sys \<Rightarrow> job_sys" where
  "put_sched sc S s = s\<lparr>js_scheds := (js_scheds s)(sc \<mapsto> S)\<rparr>"

definition update_sched :: "addr \<Rightarrow> (scheduler \<Rightarrow> scheduler) \<Rightarrow> job_sys \<Rightarrow> job_sys flow" where
  "update_sched sc f s = map_flow_value (\<lambda>S. put_sched sc (f S) s) (the_sched sc s)"

definition scheduler_of :: "addr \<Rightarrow> job_sys \<Rightarrow> addr flow" where
  "scheduler_of p s = map_flow_value po_scheduler (lookup_ptr (js_pools s) p)"

text \<open>The scheduler of the pool of a job: \<open>job->pool->scheduler\<close>.\<close>

definition scheduler_of_job :: "addr \<Rightarrow> job_sys \<Rightarrow> addr flow" where
  "scheduler_of_job p s = bind_flow (the_job p s) (\<lambda>j. scheduler_of (jb_pool j) s)"

section \<open>Whether a job is ready\<close>

fun all_done :: "addr list \<Rightarrow> job_sys \<Rightarrow> bool flow" where
  "all_done [] s = Done True"
| "all_done (p # ps) s = bind_flow (the_job p s) (\<lambda>j. if \<not> jb_done j then Done False else all_done ps s)"

text \<open>
  The condition a trigger adds in its \<open>ready\<close>; sizes and counts are compared as
  \<open>unsigned long\<close>.
\<close>

definition acc_ready :: "int \<Rightarrow> job \<Rightarrow> bool" where
  "acc_ready count j \<longleftrightarrow> unat (word_of_int count :: 64 word) \<le> length (jb_args j)"

definition count_ready :: "int \<Rightarrow> bool" where
  "count_ready count \<longleftrightarrow> count \<le> 0"

definition set_ready :: "bool list \<Rightarrow> int \<Rightarrow> bool" where
  "set_ready seen count \<longleftrightarrow> unat (word_of_int count :: 64 word) = length seen"

definition proc_ready :: "bool \<Rightarrow> bool" where
  "proc_ready success \<longleftrightarrow> success"

definition kind_ready :: "job \<Rightarrow> bool" where
  "kind_ready j =
     (case jb_kind j of
        AccTrigger count \<Rightarrow> acc_ready count j
      | CountTrigger count \<Rightarrow> count_ready count
      | SetTrigger seen count \<Rightarrow> set_ready seen count
      | ProcTrigger procname success \<Rightarrow> proc_ready success
      | _ \<Rightarrow> True)"

definition job_ready :: "addr \<Rightarrow> job_sys \<Rightarrow> bool flow" where
  "job_ready p s = bind_flow (the_job p s) (\<lambda>j.
     map_flow_value (\<lambda>ok. ok \<and> kind_ready j) (all_done (jb_deps j) s))"

section \<open>The scheduler's lock and conditions\<close>

definition sched_lock :: "thread \<Rightarrow> addr \<Rightarrow> job_sys \<Rightarrow> job_sys flow" where
  "sched_lock t sc s = bind_flow (the_sched sc s) (\<lambda>S.
     map_flow_value (\<lambda>l. put_sched sc (S\<lparr>sc_lock := l\<rparr>) s) (lock_lock t (sc_lock S)))"

definition sched_unlock :: "thread \<Rightarrow> addr \<Rightarrow> job_sys \<Rightarrow> job_sys flow" where
  "sched_unlock t sc s = bind_flow (the_sched sc s) (\<lambda>S.
     map_flow_value (\<lambda>l. put_sched sc (S\<lparr>sc_lock := l\<rparr>) s) (unlock_lock t (sc_lock S)))"

definition signal_cond :: "nat \<Rightarrow> thread \<Rightarrow> addr \<Rightarrow> job_sys \<Rightarrow> job_sys flow" where
  "signal_cond pk t sc s = bind_flow (the_sched sc s) (\<lambda>S.
     map_flow_value (\<lambda>c. put_sched sc (S\<lparr>sc_cond := c\<rparr>) s) (cond_signal pk t (sc_lock S) (sc_cond S)))"

definition broadcast_cond :: "thread \<Rightarrow> addr \<Rightarrow> job_sys \<Rightarrow> job_sys flow" where
  "broadcast_cond t sc s = bind_flow (the_sched sc s) (\<lambda>S.
     map_flow_value (\<lambda>c. put_sched sc (S\<lparr>sc_cond := c\<rparr>) s) (cond_broadcast t (sc_lock S) (sc_cond S)))"

definition signal_response :: "nat \<Rightarrow> thread \<Rightarrow> addr \<Rightarrow> job_sys \<Rightarrow> job_sys flow" where
  "signal_response pk t sc s = bind_flow (the_sched sc s) (\<lambda>S.
     map_flow_value (\<lambda>c. put_sched sc (S\<lparr>sc_response := c\<rparr>) s) (cond_signal pk t (sc_lock S) (sc_response S)))"

definition wait_response :: "thread \<Rightarrow> addr \<Rightarrow> job_sys \<Rightarrow> job_sys flow" where
  "wait_response t sc s = bind_flow (the_sched sc s) (\<lambda>S.
     map_flow_value (\<lambda>(l, c). put_sched sc (S\<lparr>sc_lock := l, sc_response := c\<rparr>) s)
       (cond_wait t (sc_lock S) (sc_response S)))"

definition resume_response :: "thread \<Rightarrow> addr \<Rightarrow> job_sys \<Rightarrow> job_sys flow" where
  "resume_response t sc s = bind_flow (the_sched sc s) (\<lambda>S.
     map_flow_value (\<lambda>(l, c). put_sched sc (S\<lparr>sc_lock := l, sc_response := c\<rparr>) s)
       (cond_wait_return t (sc_lock S) (sc_response S)))"

text \<open>An operation between \<open>lock.lock()\<close> and \<open>lock.unlock()\<close>.\<close>

definition locked_sched :: "thread \<Rightarrow> addr \<Rightarrow> (job_sys \<Rightarrow> job_sys flow) \<Rightarrow> job_sys \<Rightarrow> job_sys flow" where
  "locked_sched t sc body s =
     bind_flow (sched_lock t sc s) (\<lambda>s. bind_flow (body s) (sched_unlock t sc))"

section \<open>The queues\<close>

definition push_global :: "addr \<Rightarrow> addr \<Rightarrow> job_sys \<Rightarrow> job_sys flow" where
  "push_global sc p s = update_sched sc (\<lambda>S. S\<lparr>global_queue := global_queue S @ [p]\<rparr>) s"

definition queueJob :: "nat \<Rightarrow> thread \<Rightarrow> addr \<Rightarrow> addr \<Rightarrow> job_sys \<Rightarrow> job_sys flow" where
  "queueJob pk t sc p =
     locked_sched t sc (\<lambda>s. bind_flow (push_global sc p s) (signal_cond pk t sc))"

definition add_pending :: "addr \<Rightarrow> addr \<Rightarrow> addr \<Rightarrow> job_sys \<Rightarrow> job_sys flow" where
  "add_pending sc pool p s = bind_flow (the_sched sc s) (\<lambda>S.
     bind_flow (update_job p (\<lambda>j. j\<lparr>jb_pool := pool, pending_index := int (length (pending S))\<rparr>) s) (\<lambda>s.
     update_sched sc (\<lambda>S. S\<lparr>pending := pending S @ [p]\<rparr>) s))"

definition attachJob :: "nat \<Rightarrow> thread \<Rightarrow> addr \<Rightarrow> addr \<Rightarrow> addr \<Rightarrow> job_sys \<Rightarrow> job_sys flow" where
  "attachJob pk t sc pool p =
     locked_sched t sc (\<lambda>s.
       bind_flow (the_sched sc s) (\<lambda>S.
       bind_flow (update_job p (\<lambda>j. j\<lparr>jb_pool := pool, jb_id := next_jobid S\<rparr>) s) (\<lambda>s.
       bind_flow (update_sched sc (\<lambda>S. S\<lparr>next_jobid := next_jobid S + 1\<rparr>) s) (\<lambda>s.
       bind_flow (acquire_in p s) (\<lambda>s.
       bind_flow (job_ready p s) (\<lambda>ready.
       bind_flow (the_job p s) (\<lambda>j.
       if ready then bind_flow (push_global sc p s) (signal_cond pk t sc)
       else if pending_index j < 0 then add_pending sc pool p s
       else Done s)))))))"

text \<open>
  \<open>detachJob\<close>: the last pending job is to take the place of the detached one, but the
  vector is made shorter before that place is written.
\<close>

definition detachJob :: "thread \<Rightarrow> addr \<Rightarrow> addr \<Rightarrow> job_sys \<Rightarrow> job_sys flow" where
  "detachJob t sc p =
     locked_sched t sc (\<lambda>s.
       bind_flow (the_job p s) (\<lambda>j.
       bind_flow (update_job p (\<lambda>j. j\<lparr>pending_index := - 1\<rparr>) s) (\<lambda>s.
       if 0 \<le> pending_index j then
         bind_flow (the_sched sc s) (\<lambda>S.
         if pending S = [] then Crash Out_of_bounds
         else let last_job = last (pending S); rest = butlast (pending S); i = nat (pending_index j)
              in if length rest \<le> i then Crash Out_of_bounds
                 else bind_flow (update_sched sc (\<lambda>S. S\<lparr>pending := rest[i := last_job]\<rparr>) s)
                        (update_job last_job (\<lambda>j. j\<lparr>pending_index := int i\<rparr>)))
       else Done s)))"

fun push_queues :: "addr \<Rightarrow> addr \<Rightarrow> nat list \<Rightarrow> job_sys \<Rightarrow> job_sys flow" where
  "push_queues sc p [] s = Done s"
| "push_queues sc p (i # is) s =
     bind_flow (acquire_in p s) (\<lambda>s.
     bind_flow (update_sched sc (\<lambda>S. S\<lparr>thread_queues := (thread_queues S)[i := thread_queues S ! i @ [p]]\<rparr>) s)
       (push_queues sc p is))"

definition broadcastJob :: "thread \<Rightarrow> addr \<Rightarrow> addr \<Rightarrow> job_sys \<Rightarrow> job_sys flow" where
  "broadcastJob t sc p =
     locked_sched t sc (\<lambda>s. bind_flow (the_sched sc s) (\<lambda>S.
       push_queues sc p [0..<length (thread_queues S)] s))"

section \<open>Cancelling\<close>

text \<open>
  \<open>cancelJob\<close> and \<open>cancelDeps\<close> call each other; every level of the recursion cancels a
  job that was not cancelled before, so fuel for the jobs is enough.
\<close>

fun cancelJob :: "nat \<Rightarrow> thread \<Rightarrow> addr \<Rightarrow> addr \<Rightarrow> job_sys \<Rightarrow> job_sys flow"
  and cancelDeps :: "nat \<Rightarrow> thread \<Rightarrow> addr \<Rightarrow> addr list \<Rightarrow> job_sys \<Rightarrow> job_sys flow" where
  "cancelJob 0 t sc p s = Out_of_fuel"
| "cancelJob (Suc k) t sc p s =
     locked_sched t sc (\<lambda>s. bind_flow (the_job p s) (\<lambda>j.
       if \<not> jb_cancelled j then
         bind_flow (update_job p (\<lambda>j. j\<lparr>jb_cancelled := True\<rparr>) s) (\<lambda>s.
         if \<not> jb_running j \<and> \<not> jb_done j then
           bind_flow (update_job p (\<lambda>j. j\<lparr>jb_done := True\<rparr>) s) (cancelDeps k t sc (jb_notify j))
         else Done s)
       else Done s)) s"
| "cancelDeps k t sc [] s = Done s"
| "cancelDeps k t sc (next # notify) s =
     bind_flow (the_job next s) (\<lambda>j.
     bind_flow (if \<not> jb_cancelled j then cancelJob k t sc next s else Done s)
       (cancelDeps k t sc notify))"

end
