(* ===== verification/Scheduler.thy ===== *)
theory Scheduler
  imports Jobs "HOL-Library.AList"
begin

text \<open>
  shared.cc, how jobs run: the bodies of the job classes, triggers, the notification of
  dependent jobs, \<open>Job::run\<close>, the main loop of a scheduler's workers, \<open>waitJob\<close> and
  \<open>shutdown\<close>.
\<close>

section \<open>The surroundings of a job\<close>

text \<open>
  The environment of the commands, and what the functions of kernel jobs do; they are not
  part of the repository.
\<close>

record job_env =
  je_env :: env
  je_kernel :: "nat \<Rightarrow> leftv list \<Rightarrow> leftv"
  je_raw_kernel :: "nat \<Rightarrow> addr list \<Rightarrow> shared_sys \<Rightarrow> shared_sys"

definition encode_in :: "env \<Rightarrow> leftv \<Rightarrow> job_sys \<Rightarrow> (bytes \<times> job_sys) flow" where
  "encode_in E v = on_heap (encode_value E v)"

definition decode_in :: "env \<Rightarrow> bytes \<Rightarrow> job_sys \<Rightarrow> (leftv \<times> job_sys) flow" where
  "decode_in E str = on_heap (decode_value E str)"

text \<open>
  \<open>CleanUp\<close> of a value: Singular frees it, for a shared object by the function
  \<open>makeSharedType\<close> or \<open>makeRegionlockType\<close> registered.
\<close>

fun cleanup :: "env \<Rightarrow> thread \<Rightarrow> leftv \<Rightarrow> shared_sys \<Rightarrow> shared_sys flow" where
  "cleanup E t (L_blackbox ty p) h =
     (if ty = type_regionlock (types E) then rlock_destroy t p h else shared_destroy p h)"
| "cleanup E t (L_list vs) h = fold_flow (cleanup E t) vs h"
| "cleanup E t (L_command _ _ a b c) h =
     bind_flow (cleanup E t a h) (\<lambda>h. bind_flow (cleanup E t b h) (cleanup E t c))"
| "cleanup E t _ h = Done h"

definition cleanup_in :: "env \<Rightarrow> thread \<Rightarrow> leftv \<Rightarrow> job_sys \<Rightarrow> job_sys flow" where
  "cleanup_in E t v s = map_flow_value (\<lambda>h. set_heap h s) (cleanup E t v (heap s))"

section \<open>Executing\<close>

text \<open>The arguments of a procedure: the job's own, then the results of its dependencies.\<close>

definition append_args :: "env \<Rightarrow> bytes list \<Rightarrow> leftv list \<times> job_sys \<Rightarrow> (leftv list \<times> job_sys) flow" where
  "append_args E strs = fold_flow (\<lambda>str (argv, s). on_heap (appendArg E argv str) s) strs"

fun results_of :: "addr list \<Rightarrow> job_sys \<Rightarrow> (bytes list) flow" where
  "results_of [] s = Done []"
| "results_of (p # ps) s =
     bind_flow (the_job p s) (\<lambda>j. map_flow_value (\<lambda>rs. jb_result j # rs) (results_of ps s))"

definition job_argv :: "env \<Rightarrow> job \<Rightarrow> job_sys \<Rightarrow> (leftv list \<times> job_sys) flow" where
  "job_argv E j s = bind_flow (append_args E (jb_args j) ([], s)) (\<lambda>(argv, s).
     bind_flow (results_of (jb_deps j) s) (\<lambda>rs. append_args E rs (argv, s)))"

text \<open>Storing the encoded result and freeing the value.\<close>

definition set_job_result :: "env \<Rightarrow> thread \<Rightarrow> addr \<Rightarrow> leftv \<Rightarrow> job_sys \<Rightarrow> job_sys flow" where
  "set_job_result E t p v s = bind_flow (encode_in E v s) (\<lambda>(res, s).
     bind_flow (update_job p (\<lambda>j. j\<lparr>jb_result := res\<rparr>) s) (cleanup_in E t v))"

fun decode_all :: "env \<Rightarrow> bytes list \<Rightarrow> job_sys \<Rightarrow> (leftv list \<times> job_sys) flow" where
  "decode_all E [] s = Done ([], s)"
| "decode_all E (str # strs) s = bind_flow (decode_in E str s) (\<lambda>(v, s).
     map_flow_value (\<lambda>(vs, s). (v # vs, s)) (decode_all E strs s))"

definition acc_execute :: "env \<Rightarrow> addr \<Rightarrow> bytes list \<Rightarrow> job_sys \<Rightarrow> job_sys flow" where
  "acc_execute E p strs s = bind_flow (decode_all E strs s) (\<lambda>(vs, s).
     bind_flow (encode_in E (L_list vs) s) (\<lambda>(res, s).
     update_job p (\<lambda>j. j\<lparr>jb_result := res\<rparr>) s))"

definition execute :: "job_env \<Rightarrow> thread \<Rightarrow> addr \<Rightarrow> job_sys \<Rightarrow> job_sys flow" where
  "execute J t p s = bind_flow (the_job p s) (\<lambda>j. let E = je_env J in
     case jb_kind j of
       EvalJob \<Rightarrow>
         (case jb_args j of [] \<Rightarrow> Crash Out_of_bounds
          | str # _ \<Rightarrow> bind_flow (decode_in E str s) (\<lambda>(v, s). set_job_result E t p v s))
     | ExecJob \<Rightarrow>
         (case jb_args j of [] \<Rightarrow> Crash Out_of_bounds
          | str # _ \<Rightarrow> bind_flow (decode_in E str s) (\<lambda>(v, s). cleanup_in E t v s))
     | ProcJob procname \<Rightarrow>
         bind_flow (job_argv E j s) (\<lambda>(argv, s).
         case executeProc E procname argv of
           Inl err \<Rightarrow> Done s
         | Inr v \<Rightarrow> set_job_result E t p v s)
     | KernelJob f \<Rightarrow>
         bind_flow (job_argv E j s) (\<lambda>(argv, s).
         if argv = [] then Crash Out_of_bounds else set_job_result E t p (je_kernel J f argv) s)
     | RawKernelJob f \<Rightarrow> Done (set_heap (je_raw_kernel J f (jb_deps j) (heap s)) s)
     | AccTrigger _ \<Rightarrow> acc_execute E p (jb_args j) s
     | _ \<Rightarrow> Done s)"

section \<open>Triggers\<close>

text \<open>The arguments of a trigger are a linked list, empty for the null pointer.\<close>

definition count_accept :: "leftv list \<Rightarrow> bool" where
  "count_accept args \<longleftrightarrow> args = []"

definition set_accept :: "env \<Rightarrow> leftv list \<Rightarrow> bool flow" where
  "set_accept E args = (case args of [] \<Rightarrow> Crash Null_deref | v # _ \<Rightarrow> Done (is_int E v))"

definition accepts :: "env \<Rightarrow> addr \<Rightarrow> leftv list \<Rightarrow> job_sys \<Rightarrow> bool flow" where
  "accepts E p args s = bind_flow (the_job p s) (\<lambda>j.
     case jb_kind j of
       AccTrigger _ \<Rightarrow> Done True
     | CountTrigger _ \<Rightarrow> Done (count_accept args)
     | SetTrigger _ _ \<Rightarrow> set_accept E args
     | ProcTrigger _ _ \<Rightarrow> Done True
     | _ \<Rightarrow> Crash Type_confusion)"

fun acc_activate :: "env \<Rightarrow> addr \<Rightarrow> leftv list \<Rightarrow> job_sys \<Rightarrow> job_sys flow" where
  "acc_activate E p [] s = Done s"
| "acc_activate E p (v # vs) s = bind_flow (job_ready p s) (\<lambda>ready.
     if ready then Done s
     else bind_flow (encode_in E v s) (\<lambda>(str, s).
       bind_flow (update_job p (\<lambda>j. j\<lparr>jb_args := jb_args j @ [str]\<rparr>) s) (\<lambda>s.
       bind_flow (job_ready p s) (\<lambda>ready. if ready then Done s else acc_activate E p vs s))))"

definition count_activate :: "addr \<Rightarrow> int \<Rightarrow> job_sys \<Rightarrow> job_sys flow" where
  "count_activate p count s = bind_flow (job_ready p s) (\<lambda>ready.
     if ready then Done s else update_job p (\<lambda>j. j\<lparr>jb_kind := CountTrigger (count - 1)\<rparr>) s)"

text \<open>
  \<open>SetTrigger::activate\<close> compares the index with the number of elements seen so far, not
  with the size of the set.
\<close>

definition set_activate :: "addr \<Rightarrow> bool list \<Rightarrow> int \<Rightarrow> leftv list \<Rightarrow> job_sys \<Rightarrow> job_sys flow" where
  "set_activate p seen count args s = bind_flow (job_ready p s) (\<lambda>ready.
     if ready then Done s
     else case args of
        [] \<Rightarrow> Crash Null_deref
      | v # _ \<Rightarrow> bind_flow (int_arg v) (\<lambda>w. let i = sint w in
          if i < 0 \<or> count \<le> i then Done s
          else if length seen \<le> nat i then Crash Out_of_bounds
          else if seen ! nat i then Done s
          else update_job p (\<lambda>j. j\<lparr>jb_kind := SetTrigger (seen[nat i := True]) (count + 1)\<rparr>) s))"

text \<open>
  \<open>ProcTrigger::activate\<close> gives the lock back while the procedure runs. Here the call is
  one step: what other threads do in between comes before or after it.
\<close>

definition proc_activate ::
    "env \<Rightarrow> thread \<Rightarrow> addr \<Rightarrow> bytes \<Rightarrow> leftv list \<Rightarrow> job_sys \<Rightarrow> job_sys flow" where
  "proc_activate E t p procname args s = bind_flow (job_ready p s) (\<lambda>ready.
     if ready then Done s
     else bind_flow (scheduler_of_job p s) (\<lambda>sc.
     bind_flow (sched_unlock t sc s) (\<lambda>s.
     bind_flow (the_job p s) (\<lambda>j.
     bind_flow (append_args E (jb_args j) ([], s)) (\<lambda>(argv, s).
     bind_flow
       (case executeProc E procname (foldl appendArgCopy argv args) of
          Inl err \<Rightarrow> Done s
        | Inr v \<Rightarrow>
            bind_flow
              (if typ_of E v = t_NONE (tok (interp E)) \<or> (is_int E v \<and> v \<noteq> L_int 0)
               then update_job p (\<lambda>j. j\<lparr>jb_kind := ProcTrigger procname True\<rparr>) s else Done s)
              (cleanup_in E t v))
       (sched_lock t sc))))))"

definition activate :: "env \<Rightarrow> thread \<Rightarrow> addr \<Rightarrow> leftv list \<Rightarrow> job_sys \<Rightarrow> job_sys flow" where
  "activate E t p args s = bind_flow (the_job p s) (\<lambda>j.
     case jb_kind j of
       AccTrigger _ \<Rightarrow> acc_activate E p args s
     | CountTrigger count \<Rightarrow> count_activate p count s
     | SetTrigger seen count \<Rightarrow> set_activate p seen count args s
     | ProcTrigger procname _ \<Rightarrow> proc_activate E t p procname args s
     | _ \<Rightarrow> Crash Type_confusion)"

section \<open>Notifying dependent jobs\<close>

definition notify_job :: "nat \<Rightarrow> thread \<Rightarrow> addr \<Rightarrow> addr \<Rightarrow> job_sys \<Rightarrow> job_sys flow" where
  "notify_job pk t sc next s = bind_flow (the_job next s) (\<lambda>j.
     if jb_queued j then Done s
     else bind_flow (job_ready next s) (\<lambda>ready.
       if ready \<and> \<not> jb_cancelled j then
         bind_flow (update_job next (\<lambda>j. j\<lparr>jb_queued := True\<rparr>) s) (queueJob pk t sc next)
       else Done s))"

definition notify_trigger :: "env \<Rightarrow> thread \<Rightarrow> addr \<Rightarrow> leftv list \<Rightarrow> addr \<Rightarrow> job_sys \<Rightarrow> job_sys flow" where
  "notify_trigger E t sc args trigger s = bind_flow (accepts E trigger args s) (\<lambda>ok.
     if ok then
       bind_flow (activate E t trigger args s) (\<lambda>s.
       bind_flow (job_ready trigger s) (\<lambda>ready.
       if ready then queueJob (pick E) t sc trigger s else Done s))
     else Done s)"

definition notifyDeps :: "env \<Rightarrow> thread \<Rightarrow> addr \<Rightarrow> addr \<Rightarrow> job_sys \<Rightarrow> job_sys flow" where
  "notifyDeps E t sc p s = bind_flow (the_job p s) (\<lambda>j.
     bind_flow (map_flow_value (\<lambda>h. set_heap h s) (incref p (int (length (jb_notify j))) (heap s))) (\<lambda>s.
     bind_flow (fold_flow (notify_job (pick E) t sc) (jb_notify j) s) (\<lambda>s.
     bind_flow (the_job p s) (\<lambda>j.
     bind_flow
       (if jb_triggers j \<noteq> [] \<and> jb_result j \<noteq> [] then map_flow_value (apfst Some) (decode_in E (jb_result j) s)
        else Done (None, s)) (\<lambda>(arg, s).
     bind_flow (fold_flow (notify_trigger E t sc (case arg of Some v \<Rightarrow> [v] | None \<Rightarrow> [])) (jb_triggers j) s) (\<lambda>s.
     case arg of Some v \<Rightarrow> cleanup_in E t v s | None \<Rightarrow> Done s))))))"

text \<open>Adding jobs to be notified when a job is done; a job that is done notifies at once.\<close>

definition addDep :: "addr list \<Rightarrow> addr \<Rightarrow> job_sys \<Rightarrow> job_sys flow" where
  "addDep deps p = update_job p (\<lambda>j. j\<lparr>jb_deps := jb_deps j @ deps\<rparr>)"

definition addNotify :: "env \<Rightarrow> thread \<Rightarrow> addr list \<Rightarrow> addr \<Rightarrow> job_sys \<Rightarrow> job_sys flow" where
  "addNotify E t ps p s =
     bind_flow (update_job p (\<lambda>j. j\<lparr>jb_notify := jb_notify j @ ps\<rparr>) s) (\<lambda>s.
     bind_flow (the_job p s) (\<lambda>j.
     if jb_done j then bind_flow (scheduler_of_job p s) (\<lambda>sc. notifyDeps E t sc p s) else Done s))"

section \<open>Running a job\<close>

text \<open>
  \<open>Job::run\<close> up to the execution, which happens without the lock, and the rest. The first
  part tells whether the job is executed; a cancelled job is just done.
\<close>

definition run_begin :: "thread \<Rightarrow> addr \<Rightarrow> job_sys \<Rightarrow> (bool \<times> job_sys) flow" where
  "run_begin t p s = bind_flow (the_job p s) (\<lambda>j.
     if \<not> jb_cancelled j then
       bind_flow (update_job p (\<lambda>j. j\<lparr>jb_running := True\<rparr>) s) (\<lambda>s.
       bind_flow (scheduler_of_job p s) (\<lambda>sc. map_flow_value (Pair True) (sched_unlock t sc s)))
     else map_flow_value (Pair False) (update_job p (\<lambda>j. j\<lparr>jb_done := True\<rparr>) s))"

definition run_end :: "job_env \<Rightarrow> thread \<Rightarrow> addr \<Rightarrow> job_sys \<Rightarrow> job_sys flow" where
  "run_end J t p s = bind_flow (execute J t p s) (\<lambda>s.
     bind_flow (scheduler_of_job p s) (\<lambda>sc.
     bind_flow (sched_lock t sc s)
       (update_job p (\<lambda>j. j\<lparr>jb_running := False, jb_done := True\<rparr>))))"

definition job_run :: "job_env \<Rightarrow> thread \<Rightarrow> addr \<Rightarrow> job_sys \<Rightarrow> job_sys flow" where
  "job_run J t p s = bind_flow (run_begin t p s) (\<lambda>(executes, s).
     if executes then run_end J t p s else Done s)"

section \<open>The main loop\<close>

text \<open>
  \<open>priority_queue::top\<close>: a job after which no other comes. Where \<open>JobCompare\<close> does not order
  the queue so, the precondition of the standard class is violated and it may yield any of
  its elements: which one is a parameter, and no theorem relies on it.
\<close>

definition job_after :: "job_sys \<Rightarrow> addr \<Rightarrow> addr \<Rightarrow> bool" where
  "job_after s p q = (case (js_jobs s p, js_jobs s q) of (Some a, Some b) \<Rightarrow> JobCompare a b | _ \<Rightarrow> False)"

definition queue_top :: "nat \<Rightarrow> (addr \<Rightarrow> addr \<Rightarrow> bool) \<Rightarrow> addr list \<Rightarrow> nat" where
  "queue_top pk after q =
     (case find (\<lambda>i. list_all (\<lambda>y. \<not> after (q ! i) y) q) [0..<length q] of
        Some i \<Rightarrow> i
      | None \<Rightarrow> pk mod length q)"

text \<open>What follows the execution of a job, with the lock held again.\<close>

definition main_after :: "env \<Rightarrow> thread \<Rightarrow> addr \<Rightarrow> addr \<Rightarrow> job_sys \<Rightarrow> job_sys flow" where
  "main_after E t sc p s =
     bind_flow (notifyDeps E t sc p (s\<lparr>currentJobRef := (currentJobRef s)(t := 0)\<rparr>)) (\<lambda>s.
     bind_flow (release_in p s) (signal_response (pick E) t sc))"

definition main_run :: "env \<Rightarrow> thread \<Rightarrow> addr \<Rightarrow> addr \<Rightarrow> job_sys \<Rightarrow> (worker \<times> job_sys) flow" where
  "main_run E t sc p s =
     bind_flow (the_sched sc s) (\<lambda>S.
     bind_flow (if global_queue S \<noteq> [] then signal_cond (pick E) t sc s else Done s) (\<lambda>s.
     bind_flow (run_begin t p (s\<lparr>currentJobRef := (currentJobRef s)(t := p)\<rparr>)) (\<lambda>(executes, s).
     if executes then Done (W_run p, s) else map_flow_value (Pair W_loop) (main_after E t sc p s))))"

definition main_pass :: "env \<Rightarrow> thread \<Rightarrow> addr \<Rightarrow> nat \<Rightarrow> addr \<Rightarrow> job_sys \<Rightarrow> (worker \<times> job_sys) flow" where
  "main_pass E t sc num target s =
     bind_flow (the_sched sc s) (\<lambda>S.
     bind_flow (if target \<noteq> 0 then map_flow_value jb_done (the_job target s) else Done False) (\<lambda>finished.
     if finished then map_flow_value (Pair W_exit) (sched_unlock t sc s)
     else if shutting_down S then
       bind_flow (update_sched sc (\<lambda>S. S\<lparr>shutdown_counter := shutdown_counter S + 1\<rparr>) s) (\<lambda>s.
       bind_flow (signal_response (pick E) t sc s) (\<lambda>s.
       map_flow_value (Pair W_exit) (sched_unlock t sc s)))
     else if length (thread_queues S) \<le> num then Crash Out_of_bounds
     else case thread_queues S ! num of
       p # rest \<Rightarrow>
         bind_flow (update_sched sc (\<lambda>S. S\<lparr>thread_queues := (thread_queues S)[num := rest]\<rparr>) s)
           (main_run E t sc p)
     | [] \<Rightarrow>
         (case global_queue S of
            _ # _ \<Rightarrow>
              let i = queue_top (pick E) (job_after s) (global_queue S); p = global_queue S ! i
              in bind_flow (update_sched sc (\<lambda>S. S\<lparr>global_queue := remove_nth i (global_queue S)\<rparr>) s)
                   (main_run E t sc p)
          | [] \<Rightarrow>
              if single_threaded S then map_flow_value (Pair W_exit) (sched_unlock t sc s)
              else map_flow_value (\<lambda>(l, c). (W_wait, put_sched sc (S\<lparr>sc_lock := l, sc_cond := c\<rparr>) s))
                     (cond_wait t (sc_lock S) (sc_cond S)))))"

definition main_wake :: "thread \<Rightarrow> addr \<Rightarrow> job_sys \<Rightarrow> (worker \<times> job_sys) flow" where
  "main_wake t sc s = bind_flow (the_sched sc s) (\<lambda>S.
     map_flow_value (\<lambda>(l, c). (W_loop, put_sched sc (S\<lparr>sc_lock := l, sc_cond := c\<rparr>) s))
       (cond_wait_return t (sc_lock S) (sc_cond S)))"

definition main_start :: "thread \<Rightarrow> addr \<Rightarrow> job_sys \<Rightarrow> (worker \<times> job_sys) flow" where
  "main_start t sc s =
     bind_flow (the_sched sc s) (\<lambda>S.
     bind_flow
       (if \<not> single_threaded S then map_flow_value (\<lambda>h. s\<lparr>js_threads := h\<rparr>) (thread_init t (js_threads s))
        else Done s) (\<lambda>s.
     map_flow_value (Pair W_loop) (sched_lock t sc s)))"

definition main_finish :: "job_env \<Rightarrow> thread \<Rightarrow> addr \<Rightarrow> addr \<Rightarrow> job_sys \<Rightarrow> (worker \<times> job_sys) flow" where
  "main_finish J t sc p s = bind_flow (run_end J t p s) (\<lambda>s.
     map_flow_value (Pair W_loop) (main_after (je_env J) t sc p s))"

text \<open>
  A worker of a pool: \<open>sc_workers\<close> holds how far it has got. When it leaves the loop its
  thread ends.
\<close>

definition set_worker :: "addr \<Rightarrow> thread \<Rightarrow> nat \<Rightarrow> worker \<Rightarrow> job_sys \<Rightarrow> job_sys flow" where
  "set_worker sc t num w s =
     bind_flow (update_sched sc (\<lambda>S. S\<lparr>sc_workers := AList.update t (num, w) (sc_workers S)\<rparr>) s) (\<lambda>s.
     if w = W_exit then
       bind_flow (the_sched sc s) (\<lambda>S. let i = sc_threads S ! num; T = js_threads s in
         Done (s\<lparr>js_threads := set_slot i ((slot i T)\<lparr>ts_phase := Finished\<rparr>) T\<rparr>))
     else Done s)"

definition worker_step :: "job_env \<Rightarrow> thread \<Rightarrow> addr \<Rightarrow> job_sys \<Rightarrow> job_sys flow" where
  "worker_step J t sc s = bind_flow (the_sched sc s) (\<lambda>S.
     case map_of (sc_workers S) t of
       None \<Rightarrow> Block
     | Some (num, w) \<Rightarrow>
         bind_flow
           (case w of
              W_start \<Rightarrow> main_start t sc s
            | W_loop \<Rightarrow> main_pass (je_env J) t sc num 0 s
            | W_wait \<Rightarrow> main_wake t sc s
            | W_run p \<Rightarrow> main_finish J t sc p s
            | W_exit \<Rightarrow> Block)
           (\<lambda>(w, s). set_worker sc t num w s))"

text \<open>A pool without threads runs its jobs in the thread that waits for one of them.\<close>

fun main_loop :: "nat \<Rightarrow> job_env \<Rightarrow> thread \<Rightarrow> addr \<Rightarrow> addr \<Rightarrow> job_sys \<Rightarrow> job_sys flow" where
  "main_loop 0 J t sc target s = Out_of_fuel"
| "main_loop (Suc k) J t sc target s =
     bind_flow (main_pass (je_env J) t sc 0 target s) (\<lambda>(w, s).
       case w of
         W_loop \<Rightarrow> main_loop k J t sc target s
       | W_run p \<Rightarrow> bind_flow (main_finish J t sc p s) (\<lambda>(_, s). main_loop k J t sc target s)
       | W_exit \<Rightarrow> Done s
       | _ \<Rightarrow> Block)"

definition main_single :: "nat \<Rightarrow> job_env \<Rightarrow> thread \<Rightarrow> addr \<Rightarrow> addr \<Rightarrow> job_sys \<Rightarrow> job_sys flow" where
  "main_single k J t sc target s =
     bind_flow (acquire_in sc s) (\<lambda>s.
     bind_flow (main_start t sc s) (\<lambda>(_, s). main_loop k J t sc target s))"

section \<open>Waiting for a job\<close>

text \<open>The loop of \<open>Scheduler::waitJob\<close>: whether the job is over, else asleep.\<close>

definition wait_loop :: "nat \<Rightarrow> thread \<Rightarrow> addr \<Rightarrow> addr \<Rightarrow> job_sys \<Rightarrow> (bool \<times> job_sys) flow" where
  "wait_loop pk t sc p s = bind_flow (the_job p s) (\<lambda>j.
     if jb_done j \<or> jb_cancelled j then
       bind_flow (signal_response pk t sc s) (\<lambda>s. map_flow_value (Pair True) (sched_unlock t sc s))
     else map_flow_value (Pair False) (wait_response t sc s))"

definition sched_waitJob :: "nat \<Rightarrow> job_env \<Rightarrow> thread \<Rightarrow> addr \<Rightarrow> addr \<Rightarrow> job_sys \<Rightarrow> (bool \<times> job_sys) flow" where
  "sched_waitJob k J t sc p s = bind_flow (the_sched sc s) (\<lambda>S.
     if single_threaded S then map_flow_value (Pair True) (main_single k J t sc p s)
     else bind_flow (sched_lock t sc s) (wait_loop (pick (je_env J)) t sc p))"

definition sched_waitJob_wake :: "nat \<Rightarrow> thread \<Rightarrow> addr \<Rightarrow> addr \<Rightarrow> job_sys \<Rightarrow> (bool \<times> job_sys) flow" where
  "sched_waitJob_wake pk t sc p s = bind_flow (resume_response t sc s) (wait_loop pk t sc p)"

section \<open>Shutting down\<close>

text \<open>
  \<open>shutdown\<close> sleeps in two loops, then joins the threads of the pool one by one. A
  sleeping \<open>shutdown\<close> is in the first or second loop.
\<close>

datatype shutdown_phase = Sh_drain | Sh_stop | Sh_join nat | Sh_done

definition shutdown_stop :: "thread \<Rightarrow> addr \<Rightarrow> job_sys \<Rightarrow> (shutdown_phase \<times> job_sys) flow" where
  "shutdown_stop t sc s = bind_flow (the_sched sc s) (\<lambda>S.
     if shutdown_counter S < sc_nthreads S then
       bind_flow (broadcast_cond t sc s) (\<lambda>s. map_flow_value (Pair Sh_stop) (wait_response t sc s))
     else map_flow_value (Pair (Sh_join 0)) (sched_unlock t sc s))"

definition shutdown_drain :: "bool \<Rightarrow> thread \<Rightarrow> addr \<Rightarrow> job_sys \<Rightarrow> (shutdown_phase \<times> job_sys) flow" where
  "shutdown_drain wait t sc s = bind_flow (the_sched sc s) (\<lambda>S.
     if wait \<and> global_queue S \<noteq> [] then map_flow_value (Pair Sh_drain) (wait_response t sc s)
     else bind_flow (update_sched sc (\<lambda>S. S\<lparr>shutting_down := True\<rparr>) s) (shutdown_stop t sc))"

definition sched_shutdown :: "nat \<Rightarrow> job_env \<Rightarrow> bool \<Rightarrow> thread \<Rightarrow> addr \<Rightarrow> job_sys \<Rightarrow> (shutdown_phase \<times> job_sys) flow" where
  "sched_shutdown k J wait t sc s = bind_flow (the_sched sc s) (\<lambda>S.
     if single_threaded S then map_flow_value (Pair Sh_done) (main_single k J t sc 0 s)
     else bind_flow (sched_lock t sc s) (shutdown_drain wait t sc))"

definition shutdown_wake :: "thread \<Rightarrow> addr \<Rightarrow> shutdown_phase \<Rightarrow> job_sys \<Rightarrow> (shutdown_phase \<times> job_sys) flow" where
  "shutdown_wake t sc ph s =
     (case ph of
        Sh_drain \<Rightarrow> bind_flow (resume_response t sc s) (shutdown_drain True t sc)
      | Sh_stop \<Rightarrow> bind_flow (resume_response t sc s) (shutdown_stop t sc)
      | Sh_join i \<Rightarrow> bind_flow (the_sched sc s) (\<lambda>S.
          if i < length (sc_threads S) then
            map_flow_value (\<lambda>T. (Sh_join (Suc i), s\<lparr>js_threads := T\<rparr>))
              (join_thread_state t (sc_threads S ! i) (js_threads s))
          else Done (Sh_done, s))
      | Sh_done \<Rightarrow> Block)"

end
