(* ===== verification/Job_Commands.thy ===== *)
theory Job_Commands
  imports Scheduler
begin

text \<open>
  shared.cc, the interpreter commands on thread pools, jobs and triggers, and the functions
  of the library for C++ callers.
\<close>

section \<open>Objects\<close>

definition new_object :: "nat \<Rightarrow> bytes \<Rightarrow> job_sys \<Rightarrow> (addr \<times> job_sys) flow" where
  "new_object ty nm = on_heap (allocate P_other ty nm)"

definition alloc_job :: "env \<Rightarrow> job_kind \<Rightarrow> job_sys \<Rightarrow> (addr \<times> job_sys) flow" where
  "alloc_job E k s = map_flow_value (\<lambda>(p, s). (p, s\<lparr>js_jobs := (js_jobs s)(p \<mapsto> new_job k)\<rparr>))
     (new_object (if is_trigger k then type_trigger (types E) else type_job (types E))
        (case k of ProcJob nm \<Rightarrow> nm | _ \<Rightarrow> []) s)"

text \<open>A new pool and its scheduler, which the pool holds a reference to.\<close>

definition new_ThreadPool :: "env \<Rightarrow> int \<Rightarrow> job_sys \<Rightarrow> (addr \<times> addr \<times> job_sys) flow" where
  "new_ThreadPool E n s =
     bind_flow (new_object (type_threadpool (types E)) [] s) (\<lambda>(pool, s).
     bind_flow (new_object 0 [] s) (\<lambda>(sc, s).
     map_flow_value (\<lambda>s. (pool, sc, s))
       (acquire_in sc (s\<lparr>js_scheds := (js_scheds s)(sc \<mapsto> new_scheduler n),
          js_pools := (js_pools s)(pool \<mapsto> \<lparr>po_scheduler = sc, po_nthreads = n\<rparr>)\<rparr>))))"

definition reply_object :: "nat \<Rightarrow> addr \<Rightarrow> job_sys \<Rightarrow> (reply \<times> job_sys) flow" where
  "reply_object ty p = on_heap (reply_shared ty p)"

definition fails :: "string \<Rightarrow> string \<Rightarrow> 's \<Rightarrow> (reply \<times> 's) flow" where
  "fails name msg s = Done (Error (name @ '': '' @ msg), s)"

section \<open>Thread pools\<close>

text \<open>
  The threads of a pool. Every worker's \<open>SchedInfo\<close> holds a reference, to the scheduler
  in the command and to the pool in the C++ function; \<open>created\<close> is as for \<open>newThread\<close>.
\<close>

definition addThread :: "addr \<Rightarrow> nat \<Rightarrow> job_sys \<Rightarrow> job_sys flow" where
  "addThread sc i = update_sched sc
     (\<lambda>S. S\<lparr>sc_threads := sc_threads S @ [i], thread_queues := thread_queues S @ [[]]\<rparr>)"

fun create_workers :: "(nat \<Rightarrow> bool) \<Rightarrow> thread \<Rightarrow> addr \<Rightarrow> addr \<Rightarrow> nat list \<Rightarrow> job_sys \<Rightarrow> (string option \<times> job_sys) flow" where
  "create_workers created t ref sc [] s = Done (None, s)"
| "create_workers created t ref sc (num # nums) s =
     bind_flow (acquire_in ref s) (\<lambda>s.
     bind_flow (newThread (Other_thread num) (created num) t (js_threads s)) (\<lambda>(res, T).
     case res of
       Inl err \<Rightarrow> Done (Some err, s\<lparr>js_threads := T\<rparr>)
     | Inr i \<Rightarrow>
         bind_flow (addThread sc i (s\<lparr>js_threads := T\<rparr>)) (\<lambda>s.
         bind_flow (update_sched sc (\<lambda>S. S\<lparr>sc_workers := sc_workers S @
             (if created num then [(ts_id (slot i T), num, W_start)] else [])\<rparr>) s)
           (create_workers created t ref sc nums))))"

definition createThreadPool :: "(nat \<Rightarrow> bool) \<Rightarrow> job_env \<Rightarrow> thread \<Rightarrow> leftv list \<Rightarrow> job_sys \<Rightarrow> (reply \<times> job_sys) flow" where
  "createThreadPool created J t args s = (let E = je_env J in
     run_command ''createThreadPool''
       [check_argc_between 1 2,
        check_arg E 0 (t_INT_CMD (tok (interp E))) ''first argument must be an integer'',
        \<lambda>args. map_flow_value (\<lambda>w. unless (0 \<le> sint w) ''number of threads must be non-negative'')
          (bind_flow (nth_arg 0 args) int_arg),
        \<lambda>args. map_flow_value (\<lambda>w. unless (sint w < 256) ''number of threads too large'')
          (bind_flow (nth_arg 0 args) int_arg),
        \<lambda>args. map_flow_value (\<lambda>w. unless (have_threads \<or> w = 0)
            ''in single-threaded mode, number of threads must be zero'')
          (bind_flow (nth_arg 0 args) int_arg)] args s
       (bind_flow (int_arg (args ! 0)) (\<lambda>n.
        bind_flow (new_ThreadPool E (sint n) s) (\<lambda>(pool, sc, s).
        bind_flow (create_workers created t sc sc [0..<nat (sint n)] s) (\<lambda>(err, s).
        case err of
          Some msg \<Rightarrow> fails ''createThreadPool'' msg s
        | None \<Rightarrow> reply_object (type_threadpool (types E)) pool s)))))"

definition createThreadPool_cpp :: "(nat \<Rightarrow> bool) \<Rightarrow> env \<Rightarrow> thread \<Rightarrow> int \<Rightarrow> job_sys \<Rightarrow> (addr \<times> job_sys) flow" where
  "createThreadPool_cpp created E t n s =
     bind_flow (new_ThreadPool E n s) (\<lambda>(pool, sc, s).
     map_flow_value (\<lambda>(err, s). (if err = None then pool else 0, s))
       (create_workers created t pool sc [0..<nat n] s))"

text \<open>\<open>closeThreadPool\<close>: what the command returns, once its \<open>shutdown\<close> is over.\<close>

definition shutdown_reply :: "shutdown_phase \<times> job_sys \<Rightarrow> (reply \<times> job_sys) flow" where
  "shutdown_reply r = (case r of (ph, s) \<Rightarrow> Done (if ph = Sh_done then Reply L_none else Asleep, s))"

definition closeThreadPool :: "nat \<Rightarrow> job_env \<Rightarrow> thread \<Rightarrow> leftv list \<Rightarrow> job_sys \<Rightarrow> (reply \<times> job_sys) flow" where
  "closeThreadPool k J t args s = (let E = je_env J in
     run_command ''closeThreadPool''
       ([check_argc_between 1 2,
         check_arg E 0 (type_threadpool (types E)) ''first argument must be a threadpool'',
         check_init 0 ''threadpool not initialized''] @
        (if 1 < length args
         then [check_arg E 1 (t_INT_CMD (tok (interp E))) ''optional argument must be an integer''] else []))
       args s
       (bind_flow (shared_arg (args ! 0)) (\<lambda>pool.
        bind_flow (if length args = 2 then map_flow_value (\<lambda>w. w \<noteq> 0) (int_arg (args ! 1)) else Done True) (\<lambda>wait.
        bind_flow (scheduler_of pool s) (\<lambda>sc.
        bind_flow (sched_shutdown k J wait t sc s) shutdown_reply)))))"

definition closeThreadPool_wake :: "thread \<Rightarrow> addr \<Rightarrow> shutdown_phase \<Rightarrow> job_sys \<Rightarrow> (reply \<times> job_sys) flow" where
  "closeThreadPool_wake t sc ph s = bind_flow (shutdown_wake t sc ph s) shutdown_reply"

definition currentThreadPool :: "job_env \<Rightarrow> thread \<Rightarrow> leftv list \<Rightarrow> job_sys \<Rightarrow> (reply \<times> job_sys) flow" where
  "currentThreadPool J t args s =
     run_command ''currentThreadPool'' [check_argc 0] args s
       (if currentThreadPoolRef s t \<noteq> 0
        then reply_object (type_threadpool (types (je_env J))) (currentThreadPoolRef s t) s
        else fails ''currentThreadPool'' ''no current threadpool'' s)"

text \<open>\<open>setCurrentThreadPool\<close> checks that its argument is initialised, not that it is a pool.\<close>

definition setCurrentThreadPool :: "job_env \<Rightarrow> thread \<Rightarrow> leftv list \<Rightarrow> job_sys \<Rightarrow> (reply \<times> job_sys) flow" where
  "setCurrentThreadPool J t args s =
     run_command ''setCurrentThreadPool'' [check_argc 1, check_init 0 ''threadpool not initialized''] args s
       (bind_flow (shared_arg (args ! 0)) (\<lambda>pool.
        bind_flow (acquire_in pool s) (\<lambda>s.
        bind_flow (if currentThreadPoolRef s t \<noteq> 0 then release_in (currentThreadPoolRef s t) s else Done s) (\<lambda>s.
        Done (Reply L_none, s\<lparr>currentThreadPoolRef := (currentThreadPoolRef s)(t := pool)\<rparr>)))))"

section \<open>Creating and starting jobs\<close>

text \<open>\<open>LinTree::to_string\<close> of further arguments, appended to a job's.\<close>

definition addJobArgs_unlocked :: "env \<Rightarrow> addr \<Rightarrow> leftv list \<Rightarrow> job_sys \<Rightarrow> job_sys flow" where
  "addJobArgs_unlocked E p = fold_flow (\<lambda>v s. bind_flow (encode_in E v s) (\<lambda>(str, s).
     update_job p (\<lambda>j. j\<lparr>jb_args := jb_args j @ [str]\<rparr>) s))"

definition createJob :: "job_env \<Rightarrow> thread \<Rightarrow> leftv list \<Rightarrow> job_sys \<Rightarrow> (reply \<times> job_sys) flow" where
  "createJob J t args s = (let E = je_env J in
     run_command ''createJob''
       [check_argc_min 1,
        check_arg_either E 0 (t_STRING_CMD (tok (interp E))) (t_COMMAND (tok (interp E)))
          ''job name must be a string or quote expression''] args s
       (if is_string E (args ! 0) then
          bind_flow (str_arg (args ! 0)) (\<lambda>nm.
          bind_flow (alloc_job E (ProcJob nm) s) (\<lambda>(p, s).
          bind_flow (addJobArgs_unlocked E p (tl args) s) (reply_object (type_job (types E)) p)))
        else
          bind_flow (alloc_job E EvalJob s) (\<lambda>(p, s).
          bind_flow (addJobArgs_unlocked E p [args ! 0] s) (\<lambda>s.
          bind_flow (reply_object (type_job (types E)) p s) (\<lambda>(r, s).
          if length args = 1 then Done (r, s) else fails ''createJob'' ''wrong number of arguments'' s)))))"

text \<open>The pool of a command: its first argument if that is a pool, else the current one.\<close>

definition has_pool :: "env \<Rightarrow> leftv list \<Rightarrow> nat" where
  "has_pool E args = (if test_arg E 0 (type_threadpool (types E)) args then 1 else 0)"

definition has_prio :: "env \<Rightarrow> leftv list \<Rightarrow> nat" where
  "has_prio E args = (if test_arg E (has_pool E args) (t_INT_CMD (tok (interp E))) args then 1 else 0)"

definition prio_arg :: "env \<Rightarrow> leftv list \<Rightarrow> int flow" where
  "prio_arg E args = (if has_prio E args = 1 then map_flow_value sint (int_arg (args ! has_pool E args)) else Done 0)"

definition pool_arg :: "env \<Rightarrow> thread \<Rightarrow> leftv list \<Rightarrow> job_sys \<Rightarrow> addr flow" where
  "pool_arg E t args s = (if has_pool E args = 1 then shared_arg (args ! 0) else Done (currentThreadPoolRef s t))"

definition start_job :: "env \<Rightarrow> thread \<Rightarrow> addr \<Rightarrow> int \<Rightarrow> leftv list \<Rightarrow> addr \<times> job_sys \<Rightarrow> (reply \<times> job_sys) flow" where
  "start_job E t pool prio extra = (\<lambda>(p, s).
     bind_flow (addJobArgs_unlocked E p extra s) (\<lambda>s.
     bind_flow (the_job p s) (\<lambda>j.
     if jb_pool j \<noteq> 0 then fails ''startJob'' ''job has already been scheduled'' s
     else
       bind_flow (update_job p (\<lambda>j. j\<lparr>jb_prio := prio\<rparr>) s) (\<lambda>s.
       bind_flow (scheduler_of pool s) (\<lambda>sc.
       bind_flow (attachJob (pick E) t sc pool p s) (reply_object (type_job (types E)) p))))))"

definition startJob :: "job_env \<Rightarrow> thread \<Rightarrow> leftv list \<Rightarrow> job_sys \<Rightarrow> (reply \<times> job_sys) flow" where
  "startJob J t args s =
     (let E = je_env J; np = has_pool E args; first_arg = np + has_prio E args;
          T_job = type_job (types E); T_string = t_STRING_CMD (tok (interp E)) in
      run_command ''startJob''
        ([check_argc_min 1, check_argc_min (1 + np)] @
         (if np = 1 then [check_init 0 ''threadpool not initialized''] else []) @
         [check_arg_either E first_arg T_job T_string ''job argument must be a job or string''] @
         (if test_arg E first_arg T_job args then [check_init first_arg ''job not initialized''] else []))
        args s
        (bind_flow (prio_arg E args) (\<lambda>prio.
         bind_flow (pool_arg E t args s) (\<lambda>pool.
         if pool = 0 then fails ''startJob'' ''no current threadpool defined'' s
         else
           bind_flow
             (if typ_of E (args ! first_arg) = T_job
              then map_flow_value (\<lambda>p. (p, s)) (shared_arg (args ! first_arg))
              else bind_flow (str_arg (args ! first_arg)) (\<lambda>nm. alloc_job E (ProcJob nm) s))
             (start_job E t pool prio (drop (first_arg + 1) args))))))"

text \<open>
  \<open>waitJob\<close> after the wait: the job may have been cancelled; an empty result is none.
\<close>

definition wait_reply :: "job_env \<Rightarrow> addr \<Rightarrow> bool \<times> job_sys \<Rightarrow> (reply \<times> job_sys) flow" where
  "wait_reply J p r = (case r of (over, s) \<Rightarrow>
     if \<not> over then Done (Asleep, s)
     else bind_flow (the_job p s) (\<lambda>j.
       if jb_cancelled j then fails ''waitJob'' ''job has been cancelled'' s
       else if jb_result j = [] then Done (Reply L_none, s)
       else map_flow_value (apfst Reply) (decode_in (je_env J) (jb_result j) s)))"

definition waitJob :: "nat \<Rightarrow> job_env \<Rightarrow> thread \<Rightarrow> leftv list \<Rightarrow> job_sys \<Rightarrow> (reply \<times> job_sys) flow" where
  "waitJob k J t args s =
     run_command ''waitJob''
       [check_argc 1, check_arg (je_env J) 0 (type_job (types (je_env J))) ''argument must be a job'',
        check_init 0 ''job not initialized''] args s
       (bind_flow (shared_arg (args ! 0)) (\<lambda>p.
        bind_flow (the_job p s) (\<lambda>j.
        if jb_pool j = 0 then fails ''waitJob'' ''job has not yet been started or scheduled'' s
        else bind_flow (scheduler_of (jb_pool j) s) (\<lambda>sc.
          bind_flow (sched_waitJob k J t sc p s) (wait_reply J p)))))"

definition waitJob_wake :: "job_env \<Rightarrow> thread \<Rightarrow> addr \<Rightarrow> addr \<Rightarrow> job_sys \<Rightarrow> (reply \<times> job_sys) flow" where
  "waitJob_wake J t sc p s =
     bind_flow (sched_waitJob_wake (pick (je_env J)) t sc p s) (wait_reply J p)"

definition cancelJob_command :: "nat \<Rightarrow> job_env \<Rightarrow> thread \<Rightarrow> leftv list \<Rightarrow> job_sys \<Rightarrow> (reply \<times> job_sys) flow" where
  "cancelJob_command k J t args s =
     run_command ''cancelJob''
       [check_argc 1, check_arg (je_env J) 0 (type_job (types (je_env J))) ''argument must be a job'',
        check_init 0 ''job not initialized''] args s
       (bind_flow (shared_arg (args ! 0)) (\<lambda>p.
        bind_flow (the_job p s) (\<lambda>j.
        if jb_pool j = 0 then fails ''cancelJob'' ''job has not yet been started or scheduled'' s
        else bind_flow (scheduler_of (jb_pool j) s) (\<lambda>sc.
          map_flow_value (Pair (Reply L_none)) (cancelJob k t sc p s)))))"

text \<open>
  \<open>jobCancelled\<close> follows its argument even when the checks have failed.
\<close>

definition jobCancelled :: "job_env \<Rightarrow> thread \<Rightarrow> leftv list \<Rightarrow> job_sys \<Rightarrow> (reply \<times> job_sys) flow" where
  "jobCancelled J t args s =
     bind_flow (if length args = 1 then shared_arg (args ! 0) else Done (currentJobRef s t)) (\<lambda>p.
     run_command ''jobCancelled''
       (check_argc_between 0 1 #
        (if length args = 1
         then [check_arg (je_env J) 0 (type_job (types (je_env J))) ''argument must be a job'',
               check_init 0 ''job not initialized'']
         else [\<lambda>_. Done (unless (p \<noteq> 0) ''no current job'')])) args s
       (bind_flow (the_job p s) (\<lambda>j.
        if jb_pool j = 0 then fails ''jobCancelled'' ''job has not yet been started or scheduled'' s
        else bind_flow (scheduler_of (jb_pool j) s) (\<lambda>sc.
          bind_flow (sched_lock t sc s) (\<lambda>s.
          bind_flow (the_job p s) (\<lambda>j.
          map_flow_value (Pair (Reply (L_int (if jb_cancelled j then 1 else 0)))) (sched_unlock t sc s)))))))"

definition currentJob :: "job_env \<Rightarrow> thread \<Rightarrow> leftv list \<Rightarrow> job_sys \<Rightarrow> (reply \<times> job_sys) flow" where
  "currentJob J t args s =
     run_command ''currentJob'' [check_argc 0] args s
       (if currentJobRef s t \<noteq> 0 then reply_object (type_job (types (je_env J))) (currentJobRef s t) s
        else fails ''currentJob'' ''no current job'' s)"

definition threadPoolExec :: "job_env \<Rightarrow> thread \<Rightarrow> leftv list \<Rightarrow> job_sys \<Rightarrow> (reply \<times> job_sys) flow" where
  "threadPoolExec J t args s = (let E = je_env J; with_pool = (length args = 2) in
     bind_flow (if with_pool then shared_arg (args ! 0) else Done (currentThreadPoolRef s t)) (\<lambda>pool.
     if \<not> with_pool \<and> pool = 0 then fails ''threadPoolExec'' ''no current threadpool'' s
     else run_command ''threadPoolExec''
       (check_argc_between 1 2 #
        (if with_pool
         then [check_arg E 0 (type_threadpool (types E)) ''first argument must be a threadpool'',
               check_init 0 ''threadpool not initialized'']
         else [])) args s
       (bind_flow (encode_in E (last args) s) (\<lambda>(expr, s).
        bind_flow (alloc_job E ExecJob s) (\<lambda>(p, s).
        bind_flow (update_job p (\<lambda>j. j\<lparr>jb_args := [expr], jb_pool := pool\<rparr>) s) (\<lambda>s.
        bind_flow (scheduler_of pool s) (\<lambda>sc.
        map_flow_value (Pair (Reply L_none)) (broadcastJob t sc p s))))))))"

section \<open>Scheduling jobs with dependencies\<close>

text \<open>A list in the arguments is walked up to, but not including, \<open>lSize\<close>.\<close>

definition list_items :: "env \<Rightarrow> leftv list \<Rightarrow> leftv list" where
  "list_items E l = take (nat (lSize (interp E) l)) l"

fun job_pointers :: "leftv list \<Rightarrow> (addr list) flow" where
  "job_pointers [] = Done []"
| "job_pointers (v # vs) = bind_flow (shared_arg v) (\<lambda>p. map_flow_value (\<lambda>ps. p # ps) (job_pointers vs))"

text \<open>The first part of \<open>scheduleJob\<close>: the jobs to schedule, or a complaint.\<close>

definition jobs_arg :: "env \<Rightarrow> leftv \<Rightarrow> job_sys \<Rightarrow> ((string + addr list) \<times> job_sys) flow" where
  "jobs_arg E v s =
     (case v of
        L_list l \<Rightarrow>
          if \<not> list_all (\<lambda>v. typ_of E v = type_job (types E)) (list_items E l)
          then Done (Inl ''job argument must be a job, string, or list of jobs'', s)
          else map_flow_value (\<lambda>ps. (if 0 \<in> set ps then Inl ''job not initialized'' else Inr ps, s))
                 (job_pointers (list_items E l))
      | _ \<Rightarrow>
          if typ_of E v = type_job (types E) then map_flow_value (\<lambda>p. (Inr [p], s)) (shared_arg v)
          else if is_string E v then
            bind_flow (str_arg v) (\<lambda>nm. map_flow_value (apfst (\<lambda>p. Inr [p])) (alloc_job E (ProcJob nm) s))
          else Done (Inl ''job argument must be a job, string, or list of jobs'', s))"

text \<open>The dependencies; an argument that is no job, trigger or list is passed over.\<close>

definition is_dependency :: "env \<Rightarrow> leftv \<Rightarrow> bool" where
  "is_dependency E v \<longleftrightarrow> typ_of E v = type_job (types E) \<or> typ_of E v = type_trigger (types E)"

fun deps_arg :: "env \<Rightarrow> leftv list \<Rightarrow> (string + addr list) flow" where
  "deps_arg E [] = Done (Inr [])"
| "deps_arg E (v # vs) =
     (let more = (\<lambda>ps. map_flow_value (map_sum id (\<lambda>qs. ps @ qs)) (deps_arg E vs)) in
      if is_dependency E v then bind_flow (shared_arg v) (\<lambda>p. more [p])
      else case v of
        L_list l \<Rightarrow>
          if list_all (is_dependency E) (list_items E l) then bind_flow (job_pointers (list_items E l)) more
          else Done (Inl ''illegal dependency'')
      | _ \<Rightarrow> more [])"

fun check_jobs :: "int \<Rightarrow> addr list \<Rightarrow> job_sys \<Rightarrow> (bool \<times> job_sys) flow" where
  "check_jobs prio [] s = Done (True, s)"
| "check_jobs prio (p # ps) s = bind_flow (the_job p s) (\<lambda>j.
     if jb_pool j \<noteq> 0 then Done (False, s)
     else bind_flow (update_job p (\<lambda>j. j\<lparr>jb_prio := prio\<rparr>) s) (check_jobs prio ps))"

fun check_deps :: "addr \<Rightarrow> addr list \<Rightarrow> job_sys \<Rightarrow> (string option) flow" where
  "check_deps pool [] s = Done None"
| "check_deps pool (p # ps) s = bind_flow (the_job p s) (\<lambda>j.
     if jb_pool j = 0 then Done (Some ''dependency has not yet been scheduled'')
     else if jb_pool j \<noteq> pool then Done (Some ''dependency has been scheduled on a different threadpool'')
     else check_deps pool ps s)"

text \<open>The part under the lock, for the command and for the C++ function.\<close>

fun notify_of_deps :: "env \<Rightarrow> thread \<Rightarrow> addr list \<Rightarrow> addr list \<Rightarrow> bool \<times> job_sys \<Rightarrow> (bool \<times> job_sys) flow" where
  "notify_of_deps E t ps [] (cancelled, s) = Done (cancelled, s)"
| "notify_of_deps E t ps (d # ds) (cancelled, s) =
     bind_flow (addNotify E t ps d s) (\<lambda>s.
     bind_flow (the_job d s) (\<lambda>j. notify_of_deps E t ps ds (cancelled \<or> jb_cancelled j, s)))"

definition attach_or_cancel :: "nat \<Rightarrow> env \<Rightarrow> thread \<Rightarrow> addr \<Rightarrow> addr \<Rightarrow> bool \<Rightarrow> addr \<Rightarrow> job_sys \<Rightarrow> job_sys flow" where
  "attach_or_cancel k E t sc pool cancelled p s =
     (if cancelled then
        bind_flow (update_job p (\<lambda>j. j\<lparr>jb_pool := pool\<rparr>) s) (cancelJob k t sc p)
      else attachJob (pick E) t sc pool p s)"

definition schedule_jobs ::
    "nat \<Rightarrow> env \<Rightarrow> thread \<Rightarrow> addr \<Rightarrow> addr list \<Rightarrow> addr list \<Rightarrow> job_sys \<Rightarrow> job_sys flow" where
  "schedule_jobs k E t pool ps deps s =
     bind_flow (scheduler_of pool s) (\<lambda>sc.
     locked_sched t sc (\<lambda>s.
       bind_flow (fold_flow (addDep deps) ps s) (\<lambda>s.
       bind_flow (notify_of_deps E t ps deps (False, s)) (\<lambda>(cancelled, s).
       fold_flow (attach_or_cancel k E t sc pool cancelled) ps s))) s)"

text \<open>The second part of \<open>scheduleJob\<close>, once the jobs and dependencies are known.\<close>

definition schedule_checked ::
    "nat \<Rightarrow> env \<Rightarrow> thread \<Rightarrow> addr \<Rightarrow> int \<Rightarrow> addr list \<Rightarrow> addr list \<Rightarrow> job_sys \<Rightarrow> (reply \<times> job_sys) flow" where
  "schedule_checked k E t pool prio ps deps s =
     bind_flow (check_jobs prio ps s) (\<lambda>(ok, s).
     if \<not> ok then fails ''scheduleJob'' ''job has already been scheduled'' s
     else bind_flow (check_deps pool deps s) (\<lambda>err.
     case err of Some msg \<Rightarrow> fails ''scheduleJob'' msg s | None \<Rightarrow>
     bind_flow (schedule_jobs k E t pool ps deps s) (\<lambda>s.
     case ps of [] \<Rightarrow> Done (Reply L_none, s) | p # _ \<Rightarrow> reply_object (type_job (types E)) p s)))"

definition scheduleJob :: "nat \<Rightarrow> job_env \<Rightarrow> thread \<Rightarrow> leftv list \<Rightarrow> job_sys \<Rightarrow> (reply \<times> job_sys) flow" where
  "scheduleJob k J t args s =
     (let E = je_env J; np = has_pool E args; first_arg = np + has_prio E args; nm = ''scheduleJob'' in
      bind_flow (pool_arg E t args s) (\<lambda>pool.
      if np = 0 \<and> pool = 0 then fails nm ''no current threadpool defined'' s
      else bind_flow (prio_arg E args) (\<lambda>prio.
      if length args \<le> first_arg then fails nm ''job argument must be a job, string, or list of jobs'' s
      else bind_flow (jobs_arg E (args ! first_arg) s) (\<lambda>(jobs, s).
      case jobs of Inl err \<Rightarrow> fails nm err s | Inr ps \<Rightarrow>
      bind_flow (deps_arg E (drop (first_arg + 1) args)) (\<lambda>ds.
      case ds of Inl err \<Rightarrow> fails nm err s
        | Inr deps \<Rightarrow> schedule_checked k E t pool prio ps deps s)))))"

end
