(* ===== verification/Trigger_Commands.thy ===== *)
theory Trigger_Commands
  imports Job_Commands
begin

text \<open>
  shared.cc, the commands on triggers and names, the functions for C++ callers, and the
  table of all commands of the library.
\<close>

section \<open>Triggers\<close>

text \<open>
  \<open>createTrigger\<close> reads the kind of the trigger before it looks at whether the checks
  have passed.
\<close>

definition trigger_kind :: "bytes \<Rightarrow> leftv \<Rightarrow> (string + job_kind) flow" where
  "trigger_kind kind v =
     (if c_string kind = text_bytes ''proc''
      then map_flow_value (\<lambda>nm. Inr (ProcTrigger nm False)) (str_arg v)
      else map_flow_value (\<lambda>w. let n = sint w in
        if n < 0 then Inl ''trigger argument must be a non-negative integer''
        else if c_string kind = text_bytes ''acc'' then Inr (AccTrigger n)
        else if c_string kind = text_bytes ''count'' then Inr (CountTrigger n)
        else if c_string kind = text_bytes ''set'' then Inr (SetTrigger (replicate (nat n) False) 0)
        else Inl ''unknown trigger subtype'') (int_arg v))"

definition createTrigger :: "job_env \<Rightarrow> thread \<Rightarrow> leftv list \<Rightarrow> job_sys \<Rightarrow> (reply \<times> job_sys) flow" where
  "createTrigger J t args s =
     (let E = je_env J; np = has_pool E args; T_string = t_STRING_CMD (tok (interp E)); nm = ''createTrigger'' in
      bind_flow (pool_arg E t args s) (\<lambda>pool.
      if np = 0 \<and> pool = 0 then fails nm ''no default threadpool'' s
      else
        bind_flow (bind_flow (nth_arg np args) str_arg) (\<lambda>kind.
        run_command nm
          ([check_argc_min 1] @
           (if np = 1 then [check_init 0 ''threadpool not initialized''] else []) @
           [check_argc (np + 2),
            check_arg E np T_string ''trigger subtype must be a string'',
            (if c_string kind = text_bytes ''proc''
             then check_arg E (np + 1) T_string ''proc trigger argument must be a string''
             else check_arg E (np + 1) (t_INT_CMD (tok (interp E))) ''trigger argument must be an integer'')])
          args s
          (bind_flow (trigger_kind kind (args ! (np + 1))) (\<lambda>k.
           case k of
             Inl err \<Rightarrow> fails nm err s
           | Inr k \<Rightarrow>
               bind_flow (alloc_job E k s) (\<lambda>(p, s).
               bind_flow (scheduler_of pool s) (\<lambda>sc.
               bind_flow (attachJob (pick E) t sc pool p s) (reply_object (type_trigger (types E)) p))))))))"

definition updateTrigger :: "job_env \<Rightarrow> thread \<Rightarrow> leftv list \<Rightarrow> job_sys \<Rightarrow> (reply \<times> job_sys) flow" where
  "updateTrigger J t args s =
     (let E = je_env J in
      run_command ''updateTrigger''
        [check_argc_min 1, check_arg E 0 (type_trigger (types E)) ''first argument must be a trigger'',
         check_init 0 ''trigger not initialized''] args s
        (bind_flow (shared_arg (args ! 0)) (\<lambda>p.
         bind_flow (scheduler_of_job p s) (\<lambda>sc.
         bind_flow (sched_lock t sc s) (\<lambda>s.
         bind_flow (accepts E p (tl args) s) (\<lambda>ok.
         bind_flow
           (if \<not> ok then fails ''updateTrigger'' ''incompatible argument type(s) for this trigger'' s
            else
              bind_flow (activate E t p (tl args) s) (\<lambda>s.
              bind_flow (job_ready p s) (\<lambda>ready.
              if ready then
                bind_flow (job_run J t p s) (\<lambda>s.
                map_flow_value (Pair (Reply L_none)) (notifyDeps E t sc p s))
              else Done (Reply L_none, s)))) (\<lambda>(r, s).
         map_flow_value (Pair r) (sched_unlock t sc s))))))))"

definition chainTrigger :: "job_env \<Rightarrow> thread \<Rightarrow> leftv list \<Rightarrow> job_sys \<Rightarrow> (reply \<times> job_sys) flow" where
  "chainTrigger J t args s =
     (let E = je_env J; T_trigger = type_trigger (types E) in
      run_command ''chainTrigger''
        [check_argc 2, check_arg E 0 T_trigger ''first argument must be a trigger'',
         check_arg_either E 1 T_trigger (type_job (types E)) ''second argument must be a trigger or job'',
         check_init 0 ''trigger not initialized'', check_init 1 ''trigger/job not initialized''] args s
        (bind_flow (shared_arg (args ! 0)) (\<lambda>trigger.
         bind_flow (shared_arg (args ! 1)) (\<lambda>p.
         bind_flow (the_job trigger s) (\<lambda>j.
         bind_flow (the_job p s) (\<lambda>j'.
         if jb_pool j \<noteq> jb_pool j' then fails ''chainTrigger'' ''arguments use different threadpools'' s
         else bind_flow (scheduler_of (jb_pool j) s) (\<lambda>sc.
           map_flow_value (Pair (Reply L_none))
             (locked_sched t sc (update_job p (\<lambda>j. j\<lparr>jb_triggers := jb_triggers j @ [trigger]\<rparr>)) s))))))))"

definition testTrigger :: "job_env \<Rightarrow> thread \<Rightarrow> leftv list \<Rightarrow> job_sys \<Rightarrow> (reply \<times> job_sys) flow" where
  "testTrigger J t args s =
     (let E = je_env J in
      run_command ''testTrigger''
        [check_argc 1, check_arg E 0 (type_trigger (types E)) ''argument must be a trigger'',
         check_init 0 ''trigger not initialized''] args s
        (bind_flow (shared_arg (args ! 0)) (\<lambda>trigger.
         bind_flow (scheduler_of_job trigger s) (\<lambda>sc.
         bind_flow (sched_lock t sc s) (\<lambda>s.
         bind_flow (job_ready trigger s) (\<lambda>ready.
         map_flow_value (Pair (Reply (L_int (if ready then 1 else 0)))) (sched_unlock t sc s)))))))"

section \<open>Names\<close>

text \<open>The type of the first argument is read before the number of arguments is known to be right.\<close>

definition check_named :: "env \<Rightarrow> check" where
  "check_named E args = map_flow_value (\<lambda>v. unless
     (typ_of E v \<in> {type_job (types E), type_trigger (types E), type_threadpool (types E)})
     ''first argument must be a job, trigger, or threadpool'') (nth_arg 0 args)"

definition with_name_lock :: "thread \<Rightarrow> (job_sys \<Rightarrow> ('r \<times> job_sys) flow) \<Rightarrow> job_sys \<Rightarrow> ('r \<times> job_sys) flow" where
  "with_name_lock t body s =
     bind_flow (lock_lock t (js_name_lock s)) (\<lambda>l.
     bind_flow (body (s\<lparr>js_name_lock := l\<rparr>)) (\<lambda>(r, s).
     map_flow_value (\<lambda>l. (r, s\<lparr>js_name_lock := l\<rparr>)) (unlock_lock t (js_name_lock s))))"

definition setSharedName :: "job_env \<Rightarrow> thread \<Rightarrow> leftv list \<Rightarrow> job_sys \<Rightarrow> (reply \<times> job_sys) flow" where
  "setSharedName J t args s =
     (let E = je_env J in
      bind_flow (nth_arg 0 args) (\<lambda>v.
      bind_flow (run_checks [check_argc 2, check_init 0 ''first argument is not initialized''] args) (\<lambda>err.
      bind_flow (check_named E args) (\<lambda>err'.
      case (if err' = None then err else err') of
        Some msg \<Rightarrow> fails ''setSharedName'' msg s
      | None \<Rightarrow>
          run_command ''setSharedName''
            [check_arg E 1 (t_STRING_CMD (tok (interp E))) ''second argument must be a string''] args s
            (bind_flow (shared_arg v) (\<lambda>p.
             bind_flow (str_arg (args ! 1)) (\<lambda>nm.
             with_name_lock t (on_heap (\<lambda>h. bind_flow (deref p h) (\<lambda>obj.
               Done (Reply L_none, set_object p (obj\<lparr>so_name := nm\<rparr>) h)))) s)))))))"

definition getSharedName :: "job_env \<Rightarrow> thread \<Rightarrow> leftv list \<Rightarrow> job_sys \<Rightarrow> (reply \<times> job_sys) flow" where
  "getSharedName J t args s =
     (let E = je_env J in
      bind_flow (nth_arg 0 args) (\<lambda>v.
      bind_flow (run_checks [check_argc 1, check_init 0 ''first argument is not initialized''] args) (\<lambda>err.
      bind_flow (check_named E args) (\<lambda>err'.
      case (if err' = None then err else err') of
        Some msg \<Rightarrow> fails ''getSharedName'' msg s
      | None \<Rightarrow>
          bind_flow (shared_arg v) (\<lambda>p.
          with_name_lock t (on_heap (\<lambda>h. bind_flow (deref p h) (\<lambda>obj.
            Done (Reply (L_string (c_string (so_name obj))), h)))) s)))))"

section \<open>Functions for C++ callers\<close>

definition startJob_cpp :: "env \<Rightarrow> thread \<Rightarrow> addr \<Rightarrow> addr \<Rightarrow> leftv list \<Rightarrow> job_sys \<Rightarrow> (addr \<times> job_sys) flow" where
  "startJob_cpp E t pool p args s = bind_flow (the_job p s) (\<lambda>j.
     if jb_pool j \<noteq> 0 then Done (0, s)
     else bind_flow (addJobArgs_unlocked E p args s) (\<lambda>s.
       bind_flow (scheduler_of pool s) (\<lambda>sc.
       map_flow_value (Pair p) (attachJob (pick E) t sc pool p s))))"

text \<open>\<open>scheduleJob\<close> for C++ callers returns nothing where a job is promised.\<close>

definition scheduleJob_cpp ::
    "nat \<Rightarrow> env \<Rightarrow> thread \<Rightarrow> addr \<Rightarrow> addr \<Rightarrow> addr list \<Rightarrow> job_sys \<Rightarrow> (addr \<times> job_sys) flow" where
  "scheduleJob_cpp k E t pool p deps s = bind_flow (the_job p s) (\<lambda>j.
     if jb_pool j \<noteq> 0 then Done (0, s)
     else bind_flow (schedule_jobs k E t pool [p] deps s) (\<lambda>_. Crash Missing_return))"

definition cancelJob_cpp :: "nat \<Rightarrow> thread \<Rightarrow> addr \<Rightarrow> job_sys \<Rightarrow> job_sys flow" where
  "cancelJob_cpp k t p s = bind_flow (the_job p s) (\<lambda>j.
     if jb_pool j \<noteq> 0 then bind_flow (scheduler_of (jb_pool j) s) (\<lambda>sc. cancelJob k t sc p s) else Done s)"

definition waitJob_cpp :: "nat \<Rightarrow> job_env \<Rightarrow> thread \<Rightarrow> addr \<Rightarrow> job_sys \<Rightarrow> (bool \<times> job_sys) flow" where
  "waitJob_cpp k J t p s = bind_flow (the_job p s) (\<lambda>j.
     if jb_pool j = 0 then Crash Aborted
     else bind_flow (scheduler_of (jb_pool j) s) (\<lambda>sc. sched_waitJob k J t sc p s))"

definition retain :: "addr \<Rightarrow> job_sys \<Rightarrow> job_sys flow" where
  "retain = acquire_in"

definition release :: "addr \<Rightarrow> job_sys \<Rightarrow> job_sys flow" where
  "release = release_in"

definition getCurrentThreadPool :: "thread \<Rightarrow> job_sys \<Rightarrow> addr" where
  "getCurrentThreadPool t s = currentThreadPoolRef s t"

definition getCurrentJob :: "thread \<Rightarrow> job_sys \<Rightarrow> addr" where
  "getCurrentJob t s = currentJobRef s t"

text \<open>The getters and setters run under the lock of the job's scheduler, if it has one.\<close>

definition with_job_lock :: "thread \<Rightarrow> addr \<Rightarrow> (job_sys \<Rightarrow> ('r \<times> job_sys) flow) \<Rightarrow> job_sys \<Rightarrow> ('r \<times> job_sys) flow" where
  "with_job_lock t p body s = bind_flow (the_job p s) (\<lambda>j.
     if jb_pool j = 0 then body s
     else bind_flow (scheduler_of (jb_pool j) s) (\<lambda>sc.
       bind_flow (sched_lock t sc s) (\<lambda>s.
       bind_flow (body s) (\<lambda>(r, s). map_flow_value (Pair r) (sched_unlock t sc s)))))"

definition getJobCancelled :: "thread \<Rightarrow> addr \<Rightarrow> job_sys \<Rightarrow> (bool \<times> job_sys) flow" where
  "getJobCancelled t p = with_job_lock t p (\<lambda>s. map_flow_value (\<lambda>j. (jb_cancelled j, s)) (the_job p s))"

definition getCurrentJobCancelled :: "thread \<Rightarrow> job_sys \<Rightarrow> (bool \<times> job_sys) flow" where
  "getCurrentJobCancelled t s = getJobCancelled t (currentJobRef s t) s"

definition setJobData :: "thread \<Rightarrow> addr \<Rightarrow> nat \<Rightarrow> job_sys \<Rightarrow> (unit \<times> job_sys) flow" where
  "setJobData t p d = with_job_lock t p (\<lambda>s.
     map_flow_value (Pair ()) (update_job p (\<lambda>j. j\<lparr>jb_data := d\<rparr>) s))"

definition getJobData :: "thread \<Rightarrow> addr \<Rightarrow> job_sys \<Rightarrow> (nat \<times> job_sys) flow" where
  "getJobData t p = with_job_lock t p (\<lambda>s. map_flow_value (\<lambda>j. (jb_data j, s)) (the_job p s))"

definition addJobArgs :: "env \<Rightarrow> thread \<Rightarrow> addr \<Rightarrow> leftv list \<Rightarrow> job_sys \<Rightarrow> (unit \<times> job_sys) flow" where
  "addJobArgs E t p args = with_job_lock t p (\<lambda>s. map_flow_value (Pair ()) (addJobArgs_unlocked E p args s))"

definition getJobResult :: "env \<Rightarrow> thread \<Rightarrow> addr \<Rightarrow> job_sys \<Rightarrow> (leftv \<times> job_sys) flow" where
  "getJobResult E t p = with_job_lock t p (\<lambda>s. bind_flow (the_job p s) (\<lambda>j. decode_in E (jb_result j) s))"

section \<open>All commands\<close>

text \<open>
  The commands on shared objects and on threads act on their part of the state.
\<close>

type_synonym command = "job_env \<Rightarrow> thread \<Rightarrow> leftv list \<Rightarrow> job_sys \<Rightarrow> (reply \<times> job_sys) flow"

definition lift_shared :: "shared_command \<Rightarrow> command" where
  "lift_shared cmd J t args = on_heap (cmd (je_env J) t args)"

definition lift_thread :: "(env \<Rightarrow> thread \<Rightarrow> leftv list \<Rightarrow> thread_sys \<Rightarrow> (reply \<times> thread_sys) flow) \<Rightarrow> command" where
  "lift_thread cmd J t args s = map_flow_value (\<lambda>(r, T). (r, s\<lparr>js_threads := T\<rparr>))
     (cmd (je_env J) t args (js_threads s))"

text \<open>
  What \<open>mod_init\<close> registers; \<open>fuel\<close> is for the commands that may run jobs or cancel
  them, \<open>created\<close> for those that create threads.
\<close>

definition library_commands :: "nat \<Rightarrow> (nat \<Rightarrow> bool) \<Rightarrow> (string \<times> command) list" where
  "library_commands k created =
     map (\<lambda>(name, cmd). (name, lift_shared cmd)) shared_commands @
     [(''createThread'', lift_thread (createThread (created 0))), (''joinThread'', lift_thread joinThread),
      (''createThreadPool'', createThreadPool created), (''closeThreadPool'', closeThreadPool k),
      (''currentThreadPool'', currentThreadPool), (''setCurrentThreadPool'', setCurrentThreadPool),
      (''threadPoolExec'', threadPoolExec), (''threadID'', lift_thread threadID),
      (''mainThread'', lift_thread mainThread), (''threadEval'', lift_thread threadEval),
      (''threadExec'', lift_thread threadExec), (''threadResult'', lift_thread threadResult),
      (''createJob'', createJob), (''currentJob'', currentJob),
      (''setSharedName'', setSharedName), (''getSharedName'', getSharedName),
      (''startJob'', startJob), (''waitJob'', waitJob k), (''cancelJob'', cancelJob_command k),
      (''jobCancelled'', jobCancelled), (''scheduleJob'', scheduleJob k), (''scheduleJobs'', scheduleJob k),
      (''createTrigger'', createTrigger), (''updateTrigger'', updateTrigger),
      (''testTrigger'', testTrigger), (''chainTrigger'', chainTrigger)]"

end
