(* ===== verification/Value_Transfer.thy ===== *)
theory Value_Transfer
  imports Shared_Library
begin

text \<open>
  What travels through shared objects: values put into tables and channels by one thread
  and taken out by another, and objects that threads find by their names.
\<close>

section \<open>Values\<close>

text \<open>An environment set up by the library: the codecs are those of \<open>init\<close>.\<close>

definition env_ok :: "env \<Rightarrow> bool" where
  "env_ok E \<longleftrightarrow> tokens_ok (tok (interp E)) \<and> fresh_types (tok (interp E)) (shared_type_list (types E)) \<and>
     gmp_ok (interp E) \<and> codecs E = library_registry (tok (interp E)) (shared_type_list (types E))"

definition transferable :: "env \<Rightarrow> leftv \<Rightarrow> bool" where
  "transferable E v \<longleftrightarrow> value_ok (interp E) (shared_type_list (types E)) v \<and> value_depth v \<le> fuel E"

text \<open>One more reference for every occurrence of a shared object in a value.\<close>

definition add_refs :: "env \<Rightarrow> leftv \<Rightarrow> shared_sys \<Rightarrow> shared_sys" where
  "add_refs E v s = set_refs (\<lambda>p. refs_in s p + int (count_list (value_objects (interp E) v) p)) s"

lemma value_encoding:
  assumes "env_ok E" and "transferable E v"
  obtains str where "\<And>s. encode_value E v s = Done (str, add_refs E v s)"
    and "\<And>s. decode_value E str s = Done (value_image (interp E) v, add_refs E v s)"
proof -
  let ?S = "interp E" and ?sh = "shared_type_list (types E)"
  have "tokens_ok (tok ?S)" "fresh_types (tok ?S) ?sh" "gmp_ok ?S" "value_ok ?S ?sh v" "value_depth v \<le> fuel E"
    using assms by (simp_all add: env_ok_def transferable_def)
  from value_strings [OF this] obtain str where
    "\<And>rc. to_string ?S (library_registry (tok ?S) ?sh) v rc =
      Done (str, \<lambda>p. rc p + int (count_list (value_objects ?S v) p))"
    "\<And>rc. from_string (fuel E) ?S (library_registry (tok ?S) ?sh) str rc =
      Done (value_image ?S v, \<lambda>p. rc p + int (count_list (value_objects ?S v) p))" by blast
  moreover have "codecs E = library_registry (tok ?S) ?sh" using assms by (simp add: env_ok_def)
  ultimately show ?thesis
    by (intro that [of str]) (simp_all add: encode_value_def decode_value_def add_refs_def)
qed

lemma add_refs_simps [simp]:
  "objects (add_refs E v s) p =
     map_option (\<lambda>obj. obj\<lparr>so_refs := so_refs obj + int (count_list (value_objects (interp E) v) p)\<rparr>) (objects s p)"
  "next_addr (add_refs E v s) = next_addr s" "global_objects (add_refs E v s) = global_objects s"
  "global_objects_lock (add_refs E v s) = global_objects_lock s"
  by (simp_all add: add_refs_def set_refs_def refs_in_def option.map_comp comp_def cong: map_option_cong)

lemma refs_in_add [simp]:
  "objects s p = Some obj \<Longrightarrow>
   refs_in (add_refs E v s) p = refs_in s p + int (count_list (value_objects (interp E) v) p)"
  by (simp add: refs_in_def)

section \<open>Channels\<close>

text \<open>
  C30. What one thread sends through a channel, another one receives: on a channel with no
  messages and no waiting threads, \<open>sendChannel\<close> succeeds, and \<open>receiveChannel\<close> by any
  thread then returns the value itself (up to what \<open>value_image\<close> says), leaves the channel
  empty, and both together add two references for each shared object in the value: one is
  held by the message, one by the receiver's copy.
\<close>

theorem channel_transports_values:
  assumes "env_ok E" and "transferable E v" and "p \<noteq> 0" and "objects s p = Some obj"
    and "so_data obj = P_channel (idle_monitor [] [] [])"
  shows "\<exists>s1 s2. sendChannel E t [L_blackbox (type_channel (types E)) p, v] s = Done (Reply L_none, s1) \<and>
    receiveChannel E u [L_blackbox (type_channel (types E)) p] s1 = Done (Reply (value_image (interp E) v), s2) \<and>
    objects s2 = objects (add_refs E v (add_refs E v s))"
proof -
  from value_encoding [OF assms(1,2)] obtain str where
    str: "\<And>s. encode_value E v s = Done (str, add_refs E v s)"
    "\<And>s. decode_value E str s = Done (value_image (interp E) v, add_refs E v s)" by blast
  let ?n = "int (count_list (value_objects (interp E) v) p)"
  let ?c = "type_channel (types E)"
  let ?obj = "\<lambda>q. obj\<lparr>so_refs := so_refs obj + ?n, so_data := P_channel (idle_monitor [] [] q)\<rparr>"
  let ?s1 = "set_object p (?obj [str]) (add_refs E v s)"
  let ?s2 = "add_refs E v (set_object p (?obj []) ?s1)"
  have "sendChannel E t [L_blackbox ?c p, v] s = Done (Reply L_none, ?s1)"
    using assms(3-5)
    by (simp add: sendChannel_def guard_def unless_def is_channel_def typ_of_def numeral_2_eq_2 str
        on_channel_def deref_def channel_idle lock_simps wake_one_def)
  moreover have "receiveChannel E u [L_blackbox ?c p] ?s1 = Done (Reply (value_image (interp E) v), ?s2)"
    using assms(3)
    by (simp add: receiveChannel_def guard_def unless_def is_channel_def typ_of_def on_channel_def deref_def
        channel_idle received_item_def str)
  moreover have "objects ?s2 = objects (add_refs E v (add_refs E v s))"
    using assms(4,5) by (auto simp: fun_eq_iff)
  ultimately show ?thesis by blast
qed

section \<open>Tables\<close>

lemma region_is_locked_cong:
  assumes "\<And>q. map_option so_data (objects s' q) = map_option so_data (objects s q) \<or>
    (\<exists>a b. objects s q = Some a \<and> objects s' q = Some b \<and> tx_lock_of (so_data a) \<noteq> None \<and>
      tx_lock_of (so_data b) \<noteq> None)"
  shows "region_is_locked t r s' = region_is_locked t r s"
proof (cases "r = 0")
  case False
  consider "map_option so_data (objects s' r) = map_option so_data (objects s r)"
    | a b where "objects s r = Some a" "objects s' r = Some b" "tx_lock_of (so_data a) \<noteq> None"
      "tx_lock_of (so_data b) \<noteq> None"
    using assms [of r] by blast
  then show ?thesis
  proof cases
    case 1
    then show ?thesis using False
      by (cases "objects s r"; cases "objects s' r")
        (simp_all add: region_is_locked_def region_lock_def deref_def)
  next
    case (2 a b)
    then show ?thesis using False
      by (cases "so_data a"; cases "so_data b") (simp_all add: region_is_locked_def region_lock_def deref_def)
  qed
qed (simp add: region_is_locked_def region_lock_def deref_def)

lemma access_add_refs [simp]:
  "tx_usable t k (add_refs E v s) = tx_usable t k s" "tx_access t k (add_refs E v s) = tx_access t k s"
proof -
  have "region_is_locked t r (add_refs E v s) = region_is_locked t r s" for r
    by (rule region_is_locked_cong) (simp add: option.map_comp comp_def)
  then show "tx_usable t k (add_refs E v s) = tx_usable t k s" "tx_access t k (add_refs E v s) = tx_access t k s"
    by (simp_all add: tx_usable_def tx_access_def split: tx_lock.split)
qed

lemma access_set_data:
  assumes "objects s p = Some obj" and "tx_lock_of (so_data obj) \<noteq> None" and "tx_lock_of d \<noteq> None"
  shows "tx_usable t k (set_object p (obj'\<lparr>so_data := d\<rparr>) s) = tx_usable t k s"
    and "tx_access t k (set_object p (obj'\<lparr>so_data := d\<rparr>) s) = tx_access t k s"
proof -
  have "region_is_locked t r (set_object p (obj'\<lparr>so_data := d\<rparr>) s) = region_is_locked t r s" for r
    by (rule region_is_locked_cong) (use assms in auto)
  then show "tx_usable t k (set_object p (obj'\<lparr>so_data := d\<rparr>) s) = tx_usable t k s"
    "tx_access t k (set_object p (obj'\<lparr>so_data := d\<rparr>) s) = tx_access t k s"
    by (simp_all add: tx_usable_def tx_access_def split: tx_lock.split)
qed

text \<open>
  C31. What is put into a table is what is got out of it: \<open>putTable\<close> by a thread that the
  table's lock lets in succeeds, and \<open>getTable\<close> of the same key by any such thread then
  returns the value itself, and changes nothing but the reference counts of the objects in
  the value.
\<close>

theorem table_stores_values:
  assumes "env_ok E" and "transferable E v" and "has_data s p obj (P_table k e)"
    and "ty \<in> {type_atomic_table (types E), type_shared_table (types E)}"
    and "tx_usable t k s" and "tx_access t k s = Let_in" and "tx_usable u k s" and "tx_access u k s = Let_in"
  shows "\<exists>s1. putTable E t [L_blackbox ty p, L_string key, v] s = Done (Reply L_none, s1) \<and>
    getTable E u [L_blackbox ty p, L_string key] s1 = Done (Reply (value_image (interp E) v), add_refs E v s1)"
proof -
  from value_encoding [OF assms(1,2)] obtain str where
    str: "\<And>s. encode_value E v s = Done (str, add_refs E v s)"
    "\<And>s. decode_value E str s = Done (value_image (interp E) v, add_refs E v s)" by blast
  have p: "p \<noteq> 0" "objects s p = Some obj" "so_data obj = P_table k e" using assms(3) by (auto simp: has_data_def)
  let ?s = "add_refs E v s" and ?e = "e(c_string key \<mapsto> str)"
  let ?obj = "obj\<lparr>so_refs := so_refs obj + int (count_list (value_objects (interp E) v) p)\<rparr>"
  let ?s1 = "set_object p (?obj\<lparr>so_data := P_table k ?e\<rparr>) ?s"
  have "has_data ?s p ?obj (P_table k e)" using p by (simp add: has_data_def)
  then have put: "table_put t p (c_string key) str ?s = Done (if e (c_string key) = None then 1 else 0, ?s1)"
    using table_body_eqs(1) [of ?s p ?obj k e t "c_string key" str] assms(5,6) by (simp add: when_let_in_def)
  have same: "tx_usable u k ?s1" "tx_access u k ?s1 = Let_in"
    using access_set_data [of ?s p ?obj "P_table k ?e" u k ?obj] p assms(7,8) by simp_all
  have "has_data ?s1 p (?obj\<lparr>so_data := P_table k ?e\<rparr>) (P_table k ?e)" using p by (simp add: has_data_def)
  then have get: "table_get u p (c_string key) ?s1 = Done ((1, str), ?s1)"
    using table_body_eqs(2) [OF _ same(1), of p _ ?e "c_string key"] same(2) by (simp add: when_let_in_def)
  have "putTable E t [L_blackbox ty p, L_string key, v] s = Done (Reply L_none, ?s1)"
    using assms(4) p put
    by (auto simp: putTable_def guard_def unless_def is_table_def is_string_def typ_of_def eval_nat_numeral str)
  moreover have "getTable E u [L_blackbox ty p, L_string key] ?s1 =
      Done (Reply (value_image (interp E) v), add_refs E v ?s1)"
    using assms(4) p get
    by (auto simp: getTable_def guard_def unless_def is_table_def is_string_def typ_of_def eval_nat_numeral str)
  ultimately show ?thesis by blast
qed

section \<open>Names\<close>

text \<open>
  C32. A name leads every thread to the same object: when no object has the name,
  \<open>typeSharedObject\<close> says that it is undefined and \<open>makeChannel\<close> makes an object; after that
  \<open>makeChannel\<close> and \<open>bindSharedObject\<close> by any thread find that object and no other, adding one
  reference for each value returned, and \<open>typeSharedObject\<close> finds a channel and changes
  nothing.
\<close>

theorem name_finds_object:
  assumes "sys_wf (types E) s" and "global_objects s (c_string nm) = None" and "next_addr s < 2 ^ 64"
  shows "\<exists>p s1 s2 s3. objects s p = None \<and>
    typeSharedObject E w [L_string nm] s = Done (Reply (L_string (text_bytes ''undefined'')), s) \<and>
    makeChannel E t [L_string nm] s = Done (Reply (L_blackbox (type_channel (types E)) p), s1) \<and>
    makeChannel E u [L_string nm] s1 = Done (Reply (L_blackbox (type_channel (types E)) p), s2) \<and>
    bindSharedObject E v [L_string nm] s2 = Done (Reply (L_blackbox (type_channel (types E)) p), s3) \<and>
    refs_in s3 p = 3 \<and>
    typeSharedObject E w [L_string nm] s3 = Done (Reply (L_string (text_bytes ''channel'')), s3)"
proof -
  let ?p = "word_of_nat (next_addr s) :: addr" and ?n = "c_string nm" and ?ty = "type_channel (types E)"
  have idle: "global_objects_lock s = new_lock False" using assms(1) by (simp add: sys_wf_def)
  obtain s' where "allocate consChannel ?ty ?n s = Done (?p, s')" using assms(3) by (simp add: allocate_def Let_def)
  from allocate_fresh [OF this assms(1)] have p: "?p \<noteq> 0" and fresh: "objects s ?p = None" by blast+
  define obj where "obj n = \<lparr>so_type = ?ty, so_name = ?n, so_refs = n, so_data = consChannel\<rparr>" for n
  define st where "st n = s\<lparr>next_addr := next_addr s + 1, objects := (objects s)(?p \<mapsto> obj n),
    global_objects := (global_objects s)(?n \<mapsto> ?p)\<rparr>" for n
  note defs = make_named_def guard_def not_a_uri_def is_string_def typ_of_def makeChannel_def make_global_def
    make_shared_object_def find_global_def find_shared_object_def lock_unless_held_def unlock_unless_def
    reply_shared_def new_shared_def acquireShared_def incref_def deref_def set_object_def is_locked_def
    new_lock_def lock_lock_def unlock_lock_def allocate_def bindSharedObject_def typeSharedObject_def object_type_name_def unless_def Let_def
  have "makeChannel E t [L_string nm] s = Done (Reply (L_blackbox ?ty ?p), st 1)"
    using assms(2,3) idle p by (cases s) (simp add: defs st_def obj_def)
  moreover have "makeChannel E u [L_string nm] (st 1) = Done (Reply (L_blackbox ?ty ?p), st 2)"
    using idle p by (cases s) (simp add: defs st_def obj_def)
  moreover have "bindSharedObject E v [L_string nm] (st 2) = Done (Reply (L_blackbox ?ty ?p), st 3)"
    using idle p by (cases s) (simp add: defs st_def obj_def)
  moreover have "refs_in (st 3) ?p = 3" by (simp add: refs_in_def st_def obj_def)
  moreover have "typeSharedObject E w [L_string nm] s = Done (Reply (L_string (text_bytes ''undefined'')), s)"
    using assms(2) idle by (cases s) (simp add: defs)
  moreover have "typeSharedObject E w [L_string nm] (st 3) = Done (Reply (L_string (text_bytes ''channel'')), st 3)"
    using idle p by (cases s) (simp add: defs st_def obj_def)
  ultimately show ?thesis using fresh by blast
qed

text \<open>
  C33. Making an object under a name that is bound to an object of another type
  dereferences a null pointer: \<open>makeSharedObject\<close> returns null then, and the commands do
  not check it.
\<close>

theorem name_of_other_type_faults:
  assumes "sys_wf (types E) s" and "global_objects s (c_string nm) = Some p" and "p \<noteq> 0"
    and "objects s p = Some obj"
  shows "(so_type obj \<noteq> type_channel (types E) \<longrightarrow> makeChannel E t [L_string nm] s = Crash Null_deref) \<and>
    (so_type obj \<noteq> type_syncvar (types E) \<longrightarrow> makeSyncVar E t [L_string nm] s = Crash Null_deref) \<and>
    (so_type obj \<noteq> type_region (types E) \<longrightarrow> makeRegion E t [L_string nm] s = Crash Null_deref) \<and>
    (so_type obj \<noteq> type_atomic_table (types E) \<longrightarrow> makeAtomicTable E t [L_string nm] s = Crash Null_deref) \<and>
    (so_type obj \<noteq> type_atomic_list (types E) \<longrightarrow> makeAtomicList E t [L_string nm] s = Crash Null_deref)"
proof -
  have idle: "global_objects_lock s = new_lock False" using assms(1) by (simp add: sys_wf_def)
  note defs = make_named_def guard_def not_a_uri_def is_string_def typ_of_def make_global_def
    make_shared_object_def lock_unless_held_def unlock_unless_def set_region_def
    reply_shared_def new_shared_def acquireShared_def incref_def deref_def is_locked_def
    new_lock_def lock_lock_def unlock_lock_def
  show ?thesis
    using assms(2-4) idle
    by (auto simp: makeChannel_def makeSyncVar_def makeRegion_def makeAtomicTable_def makeAtomicList_def defs)
qed

section \<open>Examples\<close>

lemma sample_env_ok: "env_ok sample_env"
proof -
  have "fresh_types sample_tokens (shared_type_list sample_shared_types)"
    by (simp add: fresh_types_def shared_type_list_def sample_shared_types_def sample_tokens_def token_list_def)
  moreover have "codecs sample_env = library_registry sample_tokens (shared_type_list sample_shared_types)"
    by (simp add: sample_env_def)
  ultimately show ?thesis using sample_gmp_ok by (simp add: env_ok_def sample_tokens_ok)
qed

text \<open>A list of an integer, a string and the channel at address 1.\<close>

definition sample_message :: leftv where
  "sample_message = L_list [L_int 5, L_string [104, 105], L_blackbox 405 1]"

lemma sample_message_ok:
  "transferable sample_env sample_message" "value_image sample_singular sample_message = sample_message"
  by (simp_all add: transferable_def sample_message_def shared_type_list_def sample_shared_types_def c_string_def)
    (simp_all add: sample_singular_def sample_env_def)

theorem channel_transports_values_witness:
  "\<exists>s1 s2. sendChannel sample_env 7 [L_blackbox 405 1, sample_message] (sample_channel_sys 1) = Done (Reply L_none, s1) \<and>
     receiveChannel sample_env 8 [L_blackbox 405 1] s1 = Done (Reply sample_message, s2) \<and>
     map_option so_refs (objects s2 1) = Some 3"
proof -
  have ch: "objects (sample_channel_sys 1) 1 = Some \<lparr>so_type = 405, so_name = text_bytes ''c'', so_refs = 1,
      so_data = consChannel\<rparr>" by (simp add: sample_channel_sys_def)
  have "value_objects sample_singular sample_message = [1]" by (simp add: sample_message_def sample_singular_def)
  with channel_transports_values [OF sample_env_ok sample_message_ok(1) _ ch, of 7 8] show ?thesis
    by (auto simp: consChannel_def new_channel_def lock_simps sample_shared_types_def sample_message_ok(2) ch)
qed

theorem table_stores_values_witness:
  "\<exists>s1. putTable sample_env 7 [L_blackbox 401 1, L_string [9], sample_message] sample_sys = Done (Reply L_none, s1) \<and>
     getTable sample_env 8 [L_blackbox 401 1, L_string [9]] s1 = Done (Reply sample_message, add_refs sample_env sample_message s1)"
proof -
  have "has_data sample_sys 1 \<lparr>so_type = 401, so_name = [65], so_refs = 1,
      so_data = P_table (Tx_own (new_lock False)) [[1] \<mapsto> [2]]\<rparr> (P_table (Tx_own (new_lock False)) [[1] \<mapsto> [2]])"
    by (simp add: has_data_def sample_sys_def)
  from table_stores_values [OF sample_env_ok sample_message_ok(1) this, of 401 7 8 "[9]"] show ?thesis
    using new_lock_wf by (simp add: sample_shared_types_def sample_message_ok(2) tx_usable_def tx_access_def)
      (simp add: new_lock_def lock_abs_def)
qed

theorem name_finds_object_witness:
  "\<exists>p s1 s2 s3. typeSharedObject sample_env 9 [sample_uri] (initial_sys 1) = Done (Reply (L_string (text_bytes ''undefined'')), initial_sys 1) \<and>
     makeChannel sample_env 7 [sample_uri] (initial_sys 1) = Done (Reply (L_blackbox 405 p), s1) \<and>
     makeChannel sample_env 8 [sample_uri] s1 = Done (Reply (L_blackbox 405 p), s2) \<and>
     bindSharedObject sample_env 9 [sample_uri] s2 = Done (Reply (L_blackbox 405 p), s3) \<and> refs_in s3 p = 3 \<and>
     typeSharedObject sample_env 9 [sample_uri] s3 = Done (Reply (L_string (text_bytes ''channel'')), s3)"
  using name_finds_object [of sample_env "initial_sys 1" "text_bytes ''c''" 9 7 8 9]
    initial_sys_wf [of 1 sample_shared_types]
  by (auto simp: sample_uri_def sample_shared_types_def initial_sys_def)

theorem name_of_other_type_faults_witness:
  "makeRegion sample_env 8 [sample_uri] (sample_channel_sys 1) = Crash Null_deref"
proof -
  have "sys_wf (types sample_env) (sample_channel_sys 1)"
    by (rule shared_command_wf [of "''makeChannel''" makeChannel, OF _ sample_makes_channel])
      (simp_all add: shared_commands_def initial_sys_wf sample_types_ok)
  moreover have "c_string (text_bytes ''c'') = text_bytes ''c''" by (simp add: c_string_def text_bytes_def)
  ultimately show ?thesis
    using name_of_other_type_faults [of sample_env "sample_channel_sys 1" "text_bytes ''c''" 1 _ 8]
    by (simp add: sample_uri_def sample_channel_sys_def sample_shared_types_def)
qed

end
