(* ===== verification/Thread_Messages.thy ===== *)
theory Thread_Messages
  imports Threads
begin

text \<open>
  The protocol between an interpreter thread and its parent: every interleaving of their
  steps on one \<open>ThreadState\<close>, with what is asked and answered as events.
\<close>

section \<open>Conditions of a \<open>ThreadState\<close> on known shapes\<close>

text \<open>The lock taken by one thread, and condition variables as \<open>waiters\<close>.\<close>

definition taken :: "thread \<Rightarrow> lock" where
  "taken t = \<lparr>mutex = Some t, owner = Some t, locked = 1, recursive = False\<rparr>"

lemma free_lock [lock_simps]:
  "lock_lock t (new_lock False) = Done (taken t)"
  "unlock_lock t (taken t) = Done (new_lock False)"
  "u \<noteq> t \<Longrightarrow> lock_lock u (taken t) = Block"
  by (simp_all add: taken_def new_lock_def lock_lock_def unlock_lock_def)

lemma taken_fold [lock_simps]:
  "\<lparr>mutex = Some t, owner = Some t, locked = 1, recursive = False\<rparr> = taken t"
  by (simp add: taken_def)

lemma new_cond_waiters [lock_simps]: "new_cond = waiters [] []"
  by (simp add: new_cond_def waiters_def)

lemma waiters_eq [lock_simps]: "waiters S W = waiters S' W' \<longleftrightarrow> S = S' \<and> W = W'"
  by (auto simp: waiters_def map_ones_inject)

lemma waiters_fields [lock_simps]:
  "sleepers (waiters S W) = map (\<lambda>t. (t, 1)) S" "woken (waiters S W) = map (\<lambda>t. (t, 1)) W"
  by (simp_all add: waiters_def)

lemma cond_wait_taken [lock_simps]:
  "cond_wait t (taken t) (waiters S W) = Done (new_lock False, waiters (S @ [t]) W)"
  by (simp add: cond_wait_def taken_def is_locked_def break_lock_def new_lock_def waiters_def)

lemma cond_return_free [lock_simps]:
  "cond_wait_return t (new_lock False) (waiters S W) =
     (if t \<in> set W then Done (taken t, waiters S (remove1 t W)) else Block)"
  by (auto simp: cond_wait_return_def waiters_def map_of_ones remove1_ones resume_lock_def new_lock_def
      taken_def length_remove1 int_length_pred)

lemma cond_return_taken [lock_simps]: "cond_wait_return t (taken u) (waiters S W) = Block"
  by (simp add: cond_wait_return_def taken_def waiters_def split: option.split)

lemma cond_signal_taken [lock_simps]:
  "cond_signal p t (taken t) (waiters S W) = Done (case wake_one p S W of (S', W') \<Rightarrow> waiters S' W')"
  by (auto simp: cond_signal_def taken_def is_locked_def waiters_def pthread_cond_signal_def wake_one_def
      Let_def map_remove_nth length_remove_nth int_length_pred int_add_0_iff)

lemma spurious_waiters [lock_simps]:
  "spurious_wakeup t (waiters S W) = (if t \<in> set S then waiters (remove1 t S) (W @ [t]) else waiters S W)"
  by (auto simp: spurious_wakeup_def waiters_def map_of_ones remove1_ones length_remove1 int_length_pred)

lemma wake_one_short [lock_simps]:
  "wake_one p [] W = ([], W)" "wake_one p [t] W = ([], W @ [t])"
  by (simp_all add: wake_one_def remove_nth_def)

section \<open>Runs\<close>

datatype message_event = Asked bool bytes | Quit | Ran bool bytes bytes | Got bytes

fun asked :: "message_event list \<Rightarrow> (bool \<times> bytes) list" where
  "asked [] = []"
| "asked (Asked e expr # es) = (e, expr) # asked es"
| "asked (_ # es) = asked es"

fun ran :: "message_event list \<Rightarrow> (bool \<times> bytes) list" where
  "ran [] = []"
| "ran (Ran e expr res # es) = (e, expr) # ran es"
| "ran (_ # es) = ran es"

fun answers :: "message_event list \<Rightarrow> bytes list" where
  "answers [] = []"
| "answers (Ran e expr res # es) = (if e then res # answers es else answers es)"
| "answers (_ # es) = answers es"

fun got :: "message_event list \<Rightarrow> bytes list" where
  "got [] = []"
| "got (Got res # es) = res # got es"
| "got (_ # es) = got es"

definition got_event :: "bytes option \<Rightarrow> message_event list" where
  "got_event r = (case r of None \<Rightarrow> [] | Some res \<Rightarrow> [Got res])"

lemma got_event_simps [simp]: "got_event None = []" "got_event (Some res) = [Got res]"
  by (simp_all add: got_event_def)

lemma events_append [simp]:
  "asked (es @ fs) = asked es @ asked fs" "ran (es @ fs) = ran es @ ran fs"
  "answers (es @ fs) = answers es @ answers fs" "got (es @ fs) = got es @ got fs"
  by (induction es rule: asked.induct; simp) (induction es rule: ran.induct; simp)+
    
text \<open>The requests in a queue of messages, up to a command to quit.\<close>

fun requests :: "bytes list \<Rightarrow> (bool \<times> bytes) list" where
  "requests (cmd # expr # rest) = (if is_quit cmd then [] else (is_eval cmd, expr) # requests rest)"
| "requests _ = []"

text \<open>A queue holds pairs of a command and an expression, with a command to quit at most at its end.\<close>

fun queue_ok :: "bool \<Rightarrow> bytes list \<Rightarrow> bool" where
  "queue_ok quitting [] = True"
| "queue_ok quitting [cmd] \<longleftrightarrow> quitting \<and> is_quit cmd"
| "queue_ok quitting (cmd # expr # rest) \<longleftrightarrow> \<not> is_quit cmd \<and> queue_ok quitting rest"

lemma push_request:
  "queue_ok False q \<Longrightarrow> \<not> is_quit cmd \<Longrightarrow>
   queue_ok False (q @ [cmd, expr]) \<and> requests (q @ [cmd, expr]) = requests q @ [(is_eval cmd, expr)]"
  by (induction q rule: requests.induct) auto

lemma push_quit: "queue_ok False q \<Longrightarrow> is_quit cmd \<Longrightarrow> queue_ok True (q @ [cmd]) \<and> requests (q @ [cmd]) = requests q"
  by (induction q rule: requests.induct) auto

lemma commands [simp]:
  "\<not> is_quit (text_bytes ''e'')" "\<not> is_quit (text_bytes ''x'')" "is_quit (text_bytes ''q'')"
  "is_eval (text_bytes ''e'')" "\<not> is_eval (text_bytes ''x'')"
  by (simp_all add: is_quit_def is_eval_def first_char_def text_bytes_def)

text \<open>
  The steps: the interpreter thread \<open>t\<close> starts, passes through its loop, wakes; its parent
  \<open>u\<close> sends, asks to quit (once, and then joins), takes results or wakes; spurious
  wake-ups; and whatever else changes the world in which expressions are evaluated.
\<close>

definition from_idle :: "thread \<Rightarrow> thread_state \<Rightarrow> bool" where
  "from_idle u ts \<longleftrightarrow> u \<notin> fst ` set (sleepers (from_cond ts)) \<union> fst ` set (woken (from_cond ts))"

definition parent_send :: "nat \<Rightarrow> thread \<Rightarrow> bytes list \<Rightarrow> thread_state \<Rightarrow> thread_state flow" where
  "parent_send p u msgs ts = bind_flow (ts_lock_state u ts) (ts_push p u msgs)"

type_synonym 'w message_state = "message_event list \<times> thread_state \<times> 'w"

inductive message_step ::
    "(bytes \<Rightarrow> 'w \<Rightarrow> (bytes \<times> 'w) flow) \<Rightarrow> thread \<Rightarrow> thread \<Rightarrow> 'w message_state \<Rightarrow> 'w message_state \<Rightarrow> bool"
  for ev t u where
  mb_start: "ts_phase ts = Created \<Longrightarrow> interp_start t ts = Done ts' \<Longrightarrow>
    message_step ev t u (es, ts, w) (es, ts', w)"
| mb_run: "ts_phase ts = At_loop \<Longrightarrow> to_thread ts = cmd # expr # rest \<Longrightarrow> \<not> is_quit cmd \<Longrightarrow>
    ev expr w = Done (res, w') \<Longrightarrow> interp_pass p ev t ts w = Done (ts', w') \<Longrightarrow>
    message_step ev t u (es, ts, w) (es @ [Ran (is_eval cmd) expr res], ts', w')"
| mb_idle: "ts_phase ts = At_loop \<Longrightarrow> to_thread ts = [] \<or> is_quit (hd (to_thread ts)) \<Longrightarrow>
    interp_pass p ev t ts w = Done (ts', w') \<Longrightarrow> message_step ev t u (es, ts, w) (es, ts', w')"
| mb_wake: "ts_phase ts = In_wait \<Longrightarrow> interp_wake t ts = Done ts' \<Longrightarrow>
    message_step ev t u (es, ts, w) (es, ts', w)"
| mb_send: "from_idle u ts \<Longrightarrow> Quit \<notin> set es \<Longrightarrow> cmd \<in> {''e'', ''x''} \<Longrightarrow>
    parent_send p u [text_bytes cmd, expr] ts = Done ts' \<Longrightarrow>
    message_step ev t u (es, ts, w) (es @ [Asked (cmd = ''e'') expr], ts', w)"
| mb_quit: "from_idle u ts \<Longrightarrow> Quit \<notin> set es \<Longrightarrow> parent_send p u [text_bytes ''q''] ts = Done ts' \<Longrightarrow>
    message_step ev t u (es, ts, w) (es @ [Quit], ts', w)"
| mb_result: "from_idle u ts \<Longrightarrow> bind_flow (ts_lock_state u ts) (result_loop u) = Done (r, ts') \<Longrightarrow>
    message_step ev t u (es, ts, w) (es @ got_event r, ts', w)"
| mb_result_wake: "result_resume u ts = Done (r, ts') \<Longrightarrow>
    message_step ev t u (es, ts, w) (es @ got_event r, ts', w)"
| mb_spurious: "ts' = ts\<lparr>to_cond := spurious_wakeup v (to_cond ts), from_cond := spurious_wakeup v' (from_cond ts)\<rparr> \<Longrightarrow>
    message_step ev t u (es, ts, w) (es, ts', w)"
| mb_world: "message_step ev t u (es, ts, w) (es, ts, w')"

text \<open>A run begins with a slot as \<open>newThread\<close> leaves it.\<close>

definition ready_slot :: "thread_state \<Rightarrow> bool" where
  "ready_slot ts \<longleftrightarrow> ts_lock ts = new_lock False \<and> to_cond ts = new_cond \<and> from_cond ts = new_cond"

definition message_start :: "thread \<Rightarrow> thread \<Rightarrow> 'w message_state \<Rightarrow> bool" where
  "message_start t u s \<longleftrightarrow> t \<noteq> u \<and>
     (\<exists>i ts w. ready_slot ts \<and> s = ([], fresh_slot Interpreter_thread True u i t ts, w))"

definition messages :: "(bytes \<Rightarrow> 'w \<Rightarrow> (bytes \<times> 'w) flow) \<Rightarrow> thread \<Rightarrow> thread \<Rightarrow> 'w message_state \<Rightarrow> bool" where
  "messages ev t u s \<longleftrightarrow> reach (message_start t u) (message_step ev t u) s"

section \<open>The invariant\<close>

definition to_ok :: "thread \<Rightarrow> thread_state \<Rightarrow> bool" where
  "to_ok t ts \<longleftrightarrow>
     (case ts_phase ts of
        At_loop \<Rightarrow> ts_lock ts = taken t \<and> to_cond ts = waiters [] []
      | In_wait \<Rightarrow> ts_lock ts = new_lock False \<and>
          (to_cond ts = waiters [t] [] \<and> to_thread ts = [] \<or> to_cond ts = waiters [] [t])
      | Not_created \<Rightarrow> False
      | _ \<Rightarrow> ts_lock ts = new_lock False \<and> to_cond ts = waiters [] [])"

definition from_ok :: "thread \<Rightarrow> thread_state \<Rightarrow> bool" where
  "from_ok u ts \<longleftrightarrow> from_cond ts = waiters [] [] \<or> from_cond ts = waiters [] [u] \<or>
     (from_cond ts = waiters [u] [] \<and> from_thread ts = [])"

definition message_inv :: "thread \<Rightarrow> thread \<Rightarrow> 'w message_state \<Rightarrow> bool" where
  "message_inv t u s = (case s of (es, ts, w) \<Rightarrow>
     t \<noteq> u \<and> to_ok t ts \<and> from_ok u ts \<and> queue_ok (Quit \<in> set es) (to_thread ts) \<and>
     asked es = ran es @ requests (to_thread ts) \<and> answers es = got es @ from_thread ts)"

lemmas message_defs = ts_lock_state_def ts_unlock_def signal_to_def signal_from_def ts_push_def
  interp_start_def interp_pass_def interp_wake_def result_loop_def result_resume_def parent_send_def
  from_idle_def

lemma from_idle_simp: "from_ok u ts \<Longrightarrow> from_idle u ts \<longleftrightarrow> from_cond ts = waiters [] []"
  by (auto simp: from_ok_def from_idle_def lock_simps)

lemma message_start_inv: "message_start t u s \<Longrightarrow> message_inv t u s"
  by (auto simp: message_start_def message_inv_def ready_slot_def fresh_slot_def to_ok_def from_ok_def lock_simps)


lemma to_ok_cases:
  assumes "to_ok t ts"
  obtains "ts_phase ts = At_loop" "ts_lock ts = taken t" "to_cond ts = waiters [] []"
    | "ts_phase ts = In_wait" "ts_lock ts = new_lock False" "to_cond ts = waiters [t] []" "to_thread ts = []"
    | "ts_phase ts = In_wait" "ts_lock ts = new_lock False" "to_cond ts = waiters [] [t]"
    | "ts_phase ts \<in> {Created, Finished}" "ts_lock ts = new_lock False" "to_cond ts = waiters [] []"
  using assms by (auto simp: to_ok_def split: phase.splits)

lemma parent_send_free:
  assumes "ts_lock ts = new_lock False" and "to_cond ts = waiters S W"
  shows "parent_send p u msgs ts = Done (ts\<lparr>to_thread := to_thread ts @ msgs,
    to_cond := (case wake_one p S W of (S', W') \<Rightarrow> waiters S' W'), ts_lock := new_lock False\<rparr>)"
  using assms by (simp add: message_defs lock_simps split: prod.split)

lemma parent_send_taken: "ts_lock ts = taken t \<Longrightarrow> t \<noteq> u \<Longrightarrow> parent_send p u msgs ts = Block"
  by (simp add: message_defs lock_simps)

lemma parent_send_inv:
  assumes "parent_send p u msgs ts = Done ts'" and "to_ok t ts" and "from_ok u ts" and "t \<noteq> u"
    and "msgs \<noteq> []"
  shows "to_ok t ts' \<and> from_ok u ts' \<and> to_thread ts' = to_thread ts @ msgs \<and> from_thread ts' = from_thread ts"
  using assms(2)
proof (cases rule: to_ok_cases)
  case 1
  then show ?thesis using parent_send_taken assms by simp
qed (use assms parent_send_free [of ts] in \<open>auto simp: lock_simps to_ok_def from_ok_def split: phase.splits\<close>)

lemma result_loop_inv:
  assumes "result_loop u (ts\<lparr>ts_lock := taken u, from_cond := waiters [] []\<rparr>) = Done (r, ts')"
    and "to_ok t ts" and "ts_lock ts = new_lock False"
  shows "to_ok t ts' \<and> from_ok u ts' \<and> to_thread ts' = to_thread ts \<and>
    from_thread ts = (case r of None \<Rightarrow> [] | Some x \<Rightarrow> [x]) @ from_thread ts'"
  using assms
  by (auto simp: message_defs map_flow_value_Done_iff lock_simps to_ok_def from_ok_def split: list.splits phase.splits)

lemma interp_steps_inv:
  assumes "to_ok t ts" and "from_ok u ts" and "t \<noteq> u"
  shows "ts_phase ts = Created \<Longrightarrow> interp_start t ts = Done ts' \<Longrightarrow>
      to_ok t ts' \<and> from_ok u ts' \<and> to_thread ts' = to_thread ts \<and> from_thread ts' = from_thread ts"
    and "ts_phase ts = In_wait \<Longrightarrow> interp_wake t ts = Done ts' \<Longrightarrow>
      to_ok t ts' \<and> from_ok u ts' \<and> to_thread ts' = to_thread ts \<and> from_thread ts' = from_thread ts"
    and "ts_phase ts = At_loop \<Longrightarrow> to_thread ts = [] \<or> is_quit (hd (to_thread ts)) \<Longrightarrow>
      interp_pass p ev t ts w = Done (ts', w') \<Longrightarrow>
      to_ok t ts' \<and> from_ok u ts' \<and> to_thread ts' = to_thread ts \<and> from_thread ts' = from_thread ts"
    and "ts_phase ts = At_loop \<Longrightarrow> to_thread ts = cmd # expr # rest \<Longrightarrow> \<not> is_quit cmd \<Longrightarrow>
      ev expr w = Done (res, w') \<Longrightarrow> interp_pass p ev t ts w = Done (ts', w') \<Longrightarrow>
      to_ok t ts' \<and> from_ok u ts' \<and> to_thread ts' = rest \<and>
      from_thread ts' = from_thread ts @ (if is_eval cmd then [res] else [])"
  using assms
  by (auto simp: message_defs map_flow_value_Done_iff bind_flow_Done_iff lock_simps to_ok_def from_ok_def
      split: list.splits if_splits)

lemma spurious_inv:
  assumes "to_ok t ts" and "from_ok u ts"
    and "ts' = ts\<lparr>to_cond := spurious_wakeup v (to_cond ts), from_cond := spurious_wakeup v' (from_cond ts)\<rparr>"
  shows "to_ok t ts' \<and> from_ok u ts' \<and> to_thread ts' = to_thread ts \<and> from_thread ts' = from_thread ts"
  using assms by (auto simp: to_ok_def from_ok_def lock_simps split: phase.splits)


lemma requests_quit: "q = [] \<or> is_quit (hd q) \<Longrightarrow> requests q = []"
  by (cases q rule: requests.cases) auto

lemma message_step_inv:
  assumes "message_step ev t u s s'" and "message_inv t u s"
  shows "message_inv t u s'"
  using assms(1)
proof cases
  case (mb_start ts ts' es w)
  with assms(2) have "to_ok t ts' \<and> from_ok u ts' \<and> to_thread ts' = to_thread ts \<and> from_thread ts' = from_thread ts"
    by (intro interp_steps_inv(1)) (auto simp: message_inv_def)
  then show ?thesis using assms(2) mb_start by (simp add: message_inv_def)
next
  case (mb_run ts cmd expr rest w res w' p ts' es)
  with assms(2) have "to_ok t ts' \<and> from_ok u ts' \<and> to_thread ts' = rest \<and>
      from_thread ts' = from_thread ts @ (if is_eval cmd then [res] else [])"
    by (intro interp_steps_inv(4)) (auto simp: message_inv_def)
  then show ?thesis using assms(2) mb_run by (simp add: message_inv_def)
next
  case (mb_idle ts p w ts' w' es)
  with assms(2) have "to_ok t ts' \<and> from_ok u ts' \<and> to_thread ts' = to_thread ts \<and> from_thread ts' = from_thread ts"
    by (intro interp_steps_inv(3)) (auto simp: message_inv_def)
  then show ?thesis using assms(2) mb_idle by (simp add: message_inv_def)
next
  case (mb_wake ts ts' es w)
  with assms(2) have "to_ok t ts' \<and> from_ok u ts' \<and> to_thread ts' = to_thread ts \<and> from_thread ts' = from_thread ts"
    by (intro interp_steps_inv(2)) (auto simp: message_inv_def)
  then show ?thesis using assms(2) mb_wake by (simp add: message_inv_def)
next
  case (mb_send ts es cmd p expr ts' w)
  then show ?thesis using assms(2) parent_send_inv [of p u "[text_bytes cmd, expr]" ts ts' t]
      push_request [of "to_thread ts" "text_bytes cmd" expr]
    by (auto simp: message_inv_def)
next
  case (mb_quit ts es p ts' w)
  then show ?thesis using assms(2) parent_send_inv [of p u "[text_bytes ''q'']" ts ts' t]
      push_quit [of "to_thread ts" "text_bytes ''q''"]
    by (auto simp: message_inv_def)
next
  case (mb_result ts r ts' es w)
  then have inv: "to_ok t ts" "t \<noteq> u" "from_cond ts = waiters [] []"
    using assms(2) by (auto simp: message_inv_def from_idle_simp)
  have "ts_lock ts = new_lock False"
    by (cases rule: to_ok_cases [OF inv(1)]) (use mb_result inv in \<open>auto simp: message_defs lock_simps\<close>)
  moreover have "ts\<lparr>ts_lock := taken u, from_cond := waiters [] []\<rparr> = ts\<lparr>ts_lock := taken u\<rparr>"
    using inv(3) by (cases ts) simp
  ultimately have "result_loop u (ts\<lparr>ts_lock := taken u, from_cond := waiters [] []\<rparr>) = Done (r, ts')"
    using mb_result by (simp add: ts_lock_state_def lock_simps)
  from result_loop_inv [OF this inv(1)] \<open>ts_lock ts = new_lock False\<close> mb_result show ?thesis
    using assms(2) by (auto simp: message_inv_def split: option.splits)
next
  case (mb_result_wake ts r ts' es w)
  then have inv: "to_ok t ts" "t \<noteq> u" "from_ok u ts" using assms(2) by (auto simp: message_inv_def)
  have free: "ts_lock ts = new_lock False"
    by (cases rule: to_ok_cases [OF inv(1)])
      (use mb_result_wake inv in \<open>auto simp: result_resume_def lock_simps from_ok_def\<close>)
  with mb_result_wake inv have "result_loop u (ts\<lparr>ts_lock := taken u, from_cond := waiters [] []\<rparr>) = Done (r, ts')"
    by (auto simp: result_resume_def lock_simps from_ok_def)
  from result_loop_inv [OF this inv(1) free] mb_result_wake show ?thesis
    using assms(2) by (auto simp: message_inv_def split: option.splits)
next
  case (mb_spurious ts' v' ts v es w)
  then show ?thesis using assms(2) spurious_inv [of t ts u ts' v' v] by (auto simp: message_inv_def)
next
  case mb_world
  then show ?thesis using assms(2) by (auto simp: message_inv_def)
qed

section \<open>Both directions meet the wake-up contract\<close>

text \<open>
  Something is available to the interpreter thread when there is a message, and to its
  parent when there is a result.
\<close>

definition to_asleep :: "'w message_state \<Rightarrow> nat" where
  "to_asleep s = length (sleepers (to_cond (fst (snd s))))"

definition to_available :: "'w message_state \<Rightarrow> nat" where
  "to_available s = (if to_thread (fst (snd s)) = [] then 0 else 1)"

definition to_awake :: "'w message_state \<Rightarrow> nat" where
  "to_awake s = length (woken (to_cond (fst (snd s))))"

definition from_asleep :: "'w message_state \<Rightarrow> nat" where
  "from_asleep s = length (sleepers (from_cond (fst (snd s))))"

definition from_available :: "'w message_state \<Rightarrow> nat" where
  "from_available s = (if from_thread (fst (snd s)) = [] then 0 else 1)"

definition from_awake :: "'w message_state \<Rightarrow> nat" where
  "from_awake s = length (woken (from_cond (fst (snd s))))"

lemmas wake_measures = to_asleep_def to_available_def to_awake_def from_asleep_def from_available_def from_awake_def

lemma message_inv_awake:
  assumes "message_inv t u s"
  shows "to_asleep s = 0 \<or> to_available s \<le> to_awake s" and "from_asleep s = 0 \<or> from_available s \<le> from_awake s"
  using assms
  by (auto simp: message_inv_def wake_measures to_ok_def from_ok_def waiters_def split: phase.splits prod.splits)

lemma message_start_asleep:
  "message_start t u s \<Longrightarrow> to_asleep s = 0 \<and> from_asleep s = 0"
  by (auto simp: message_start_def ready_slot_def fresh_slot_def wake_measures new_cond_def)

interpretation mto: wakeup_contract "message_start t u" "message_step ev t u" "message_inv t u"
  to_available to_asleep to_awake
  by unfold_locales (auto intro: message_start_inv message_step_inv dest: message_start_asleep
      message_inv_awake(1) [OF message_step_inv])

interpretation mfrom: wakeup_contract "message_start t u" "message_step ev t u" "message_inv t u"
  from_available from_asleep from_awake
  by unfold_locales (auto intro: message_start_inv message_step_inv dest: message_start_asleep
      message_inv_awake(2) [OF message_step_inv])

section \<open>What holds of every conversation\<close>

text \<open>
  C34. Requests are answered in order: in every interleaving of an interpreter thread and
  its parent, what was asked is what was evaluated followed by the requests still in the
  queue, and the results of the evaluations that were to be answered are what
  \<open>threadResult\<close> has delivered followed by the results still in the queue. A request to
  execute gets no answer.
\<close>

theorem thread_messages_fifo:
  assumes "messages ev t u (es, ts, w)"
  shows "asked es = ran es @ requests (to_thread ts) \<and> answers es = got es @ from_thread ts"
  using mto.reach_inv [of t u ev "(es, ts, w)"] assms by (simp add: messages_def message_inv_def)

text \<open>
  C35. An interpreter thread goes on as it should: at the head of its loop it goes to sleep,
  giving up its lock, exactly when it has no message, all requests having been evaluated; it
  ends when it is asked to quit, which comes after all requests; otherwise it evaluates the
  next request, the first one that was asked and has not been evaluated, takes it (and only
  it) out of the queue, answers if it was to be answered, and is back at the head of the loop.
  If it fails or blocks there, that evaluation does.
\<close>

theorem interpreter_thread_safe:
  assumes "messages ev t u (es, ts, w)" and "ts_phase ts = At_loop"
  shows "(to_thread ts = [] \<longrightarrow> asked es = ran es \<and> (\<exists>ts'. interp_pass p ev t ts w = Done (ts', w) \<and>
      ts_phase ts' = In_wait \<and> ts_lock ts' = new_lock False \<and> to_thread ts' = [] \<and> from_thread ts' = from_thread ts)) \<and>
    (to_thread ts \<noteq> [] \<and> is_quit (hd (to_thread ts)) \<longrightarrow> asked es = ran es \<and> Quit \<in> set es \<and>
      (\<exists>ts'. interp_pass p ev t ts w = Done (ts', w) \<and>
        ts_phase ts' = Finished \<and> ts_lock ts' = new_lock False \<and> from_thread ts' = from_thread ts)) \<and>
    (to_thread ts \<noteq> [] \<and> \<not> is_quit (hd (to_thread ts)) \<longrightarrow>
      (\<exists>e expr rest after. asked es = ran es @ (e, expr) # rest \<and>
        interp_pass p ev t ts w = bind_flow (ev expr w) (\<lambda>(res, w'). Done (after res, w')) \<and>
        (\<forall>res. ts_phase (after res) = At_loop \<and> ts_lock (after res) = ts_lock ts \<and>
          requests (to_thread (after res)) = rest \<and>
          from_thread (after res) = from_thread ts @ (if e then [res] else []))))"
proof -
  have "message_inv t u (es, ts, w)"
    using mto.reach_inv [of t u ev "(es, ts, w)"] assms by (simp add: messages_def)
  then have held: "ts_lock ts = taken t" "to_cond ts = waiters [] []" "from_ok u ts"
    and q: "queue_ok (Quit \<in> set es) (to_thread ts)" and all: "asked es = ran es @ requests (to_thread ts)"
    using assms(2) by (auto simp: message_inv_def to_ok_def)
  from held(3) obtain S W where from_cond: "from_cond ts = waiters S W" by (auto simp: from_ok_def)
  show ?thesis
  proof (cases "to_thread ts \<noteq> [] \<and> \<not> is_quit (hd (to_thread ts))")
    case True
    then obtain cmd expr rest where cmd: "to_thread ts = cmd # expr # rest" "\<not> is_quit cmd"
      using q by (cases "to_thread ts" rule: requests.cases) auto
    let ?after = "\<lambda>res. ts\<lparr>to_thread := rest, from_thread := from_thread ts @ (if is_eval cmd then [res] else []),
      from_cond := (case wake_one p S W of (S', W') \<Rightarrow> waiters S' W')\<rparr>"
    from cmd have "interp_pass p ev t ts w = bind_flow (ev expr w) (\<lambda>(res, w'). Done (?after res, w'))"
      using held from_cond by (simp add: interp_pass_def signal_from_def lock_simps)
    then show ?thesis
      using cmd all assms(2) by (intro conjI impI exI [of _ "is_eval cmd"] exI [of _ expr] exI [of _ "requests rest"]
          exI [of _ ?after]) simp_all
  next
    case False
    then have "requests (to_thread ts) = []" by (intro requests_quit) auto
    with False q held all show ?thesis
      by (cases "to_thread ts" rule: requests.cases) (auto simp: interp_pass_def ts_unlock_def lock_simps)
  qed
qed

text \<open>
  C36. No message and no result is lost on a sleeping thread: when there is a message, an
  interpreter thread that waits has been woken and can go on; when there is a result, a
  parent that waits has been woken, and gets the oldest result as soon as the lock is free.
\<close>

theorem thread_messages_wake:
  assumes "messages ev t u (es, ts, w)"
  shows "(\<forall>msg q. to_thread ts = msg # q \<and> ts_phase ts = In_wait \<longrightarrow>
      (\<exists>ts'. interp_wake t ts = Done ts' \<and> ts_phase ts' = At_loop)) \<and>
    (\<forall>res q. from_thread ts = res # q \<and> \<not> from_idle u ts \<longrightarrow>
      (\<exists>ts'. result_resume u ts = Done (Some res, ts')) \<or> ts_lock ts = taken t)"
proof -
  have run: "reach (message_start t u) (message_step ev t u) (es, ts, w)"
    using assms by (simp add: messages_def)
  have inv: "message_inv t u (es, ts, w)" by (rule mto.reach_inv [OF run])
  have "\<exists>ts'. interp_wake t ts = Done ts' \<and> ts_phase ts' = At_loop"
    if "to_thread ts = msg # q" "ts_phase ts = In_wait" for msg q
    using inv that mto.no_lost_wakeup [OF run]
    by (auto simp: message_inv_def to_ok_def interp_wake_def lock_simps)
  moreover have "(\<exists>ts'. result_resume u ts = Done (Some res, ts')) \<or> ts_lock ts = taken t"
    if "from_thread ts = res # q" "\<not> from_idle u ts" for res q
  proof -
    have "from_cond ts = waiters [] [u]" using inv that by (auto simp: message_inv_def from_idle_simp from_ok_def)
    moreover have "ts_lock ts = new_lock False \<or> ts_lock ts = taken t"
      using inv by (auto simp: message_inv_def elim: to_ok_cases)
    ultimately show ?thesis using that by (auto simp: result_resume_def result_loop_def ts_unlock_def lock_simps)
  qed
  ultimately show ?thesis by blast
qed

section \<open>An example run\<close>

text \<open>
  Thread 1 waits, its parent 0 sends two requests, the first is evaluated. Evaluation adds
  a byte here.
\<close>

definition sample_ev :: "bytes \<Rightarrow> unit \<Rightarrow> (bytes \<times> unit) flow" where
  "sample_ev expr w = Done (expr @ [9], w)"

definition sample_slot :: "phase \<Rightarrow> lock \<Rightarrow> cond_var \<Rightarrow> bytes list \<Rightarrow> bytes list \<Rightarrow> thread_state" where
  "sample_slot ph l c q r = \<lparr>ts_active = True, ts_running = True, ts_index = 4, ts_func = Interpreter_thread,
     ts_id = 1, ts_parent = 0, ts_lock = l, to_cond = c, from_cond = waiters [] [], to_thread = q,
     from_thread = r, ts_phase = ph\<rparr>"

lemma sample_slot_simps [simp]:
  "ts_phase (sample_slot ph l c q r) = ph" "ts_lock (sample_slot ph l c q r) = l"
  "to_cond (sample_slot ph l c q r) = c" "from_cond (sample_slot ph l c q r) = waiters [] []"
  "to_thread (sample_slot ph l c q r) = q" "from_thread (sample_slot ph l c q r) = r"
  "(sample_slot ph l c q r)\<lparr>ts_phase := ph'\<rparr> = sample_slot ph' l c q r"
  "(sample_slot ph l c q r)\<lparr>ts_lock := l'\<rparr> = sample_slot ph l' c q r"
  "(sample_slot ph l c q r)\<lparr>to_cond := c'\<rparr> = sample_slot ph l c' q r"
  "(sample_slot ph l c q r)\<lparr>to_thread := q'\<rparr> = sample_slot ph l c q' r"
  "(sample_slot ph l c q r)\<lparr>from_thread := r'\<rparr> = sample_slot ph l c q r'"
  "(sample_slot ph l c q r)\<lparr>from_cond := waiters [] []\<rparr> = sample_slot ph l c q r"
  "from_idle u (sample_slot ph l c q r)"
  by (simp_all add: sample_slot_def from_idle_def) (simp add: waiters_def)

abbreviation sample_asked :: "message_event list" where
  "sample_asked \<equiv> [Asked True [5], Asked False [6]]"

abbreviation sample_queue :: "bytes list" where
  "sample_queue \<equiv> [text_bytes ''e'', [5], text_bytes ''x'', [6]]"

lemma conversation_waits:
  "messages sample_ev 1 0 (sample_asked, sample_slot In_wait (new_lock False) (waiters [] [1]) sample_queue [], ())"
proof -
  let ?S = sample_slot and ?step = "message_step sample_ev 1 0" and ?R = "messages sample_ev 1 0"
  note step = reach_step [where I = "message_start 1 0" and R = ?step, folded messages_def]
  have "?R ([], ?S Created (new_lock False) (waiters [] []) [] [], ())"
    unfolding messages_def
  proof (rule reach_init)
    show "message_start 1 0 ([], ?S Created (new_lock False) (waiters [] []) [] [], ())"
      unfolding message_start_def
      by (intro conjI exI [of _ 4] exI [of _ "?S Created (new_lock False) (waiters [] []) [] []"] exI [of _ "()"])
        (simp_all add: ready_slot_def fresh_slot_def lock_simps, simp add: sample_slot_def)
  qed
  then have "?R ([], ?S At_loop (taken 1) (waiters [] []) [] [], ())"
    by (rule step) (rule mb_start, simp_all add: message_defs lock_simps)
  then have "?R ([], ?S In_wait (new_lock False) (waiters [1] []) [] [], ())"
    by (rule step) (rule mb_idle [where p = 0], simp_all add: message_defs lock_simps)
  then have "?R ([] @ [Asked (''e'' = ''e'') [5]],
      ?S In_wait (new_lock False) (waiters [] [1]) [text_bytes ''e'', [5]] [], ())"
    by (rule step) (rule mb_send [where p = 0], simp_all add: message_defs lock_simps)
  then have "?R (([] @ [Asked (''e'' = ''e'') [5]]) @ [Asked (''x'' = ''e'') [6]],
      ?S In_wait (new_lock False) (waiters [] [1]) sample_queue [], ())"
    by (rule step) (rule mb_send [where p = 0], simp_all add: message_defs lock_simps)
  then show ?thesis by simp
qed

lemma conversation_loop:
  "messages sample_ev 1 0 (sample_asked, sample_slot At_loop (taken 1) (waiters [] []) sample_queue [], ())"
  by (rule reach_step [OF conversation_waits [unfolded messages_def], folded messages_def])
    (rule mb_wake, simp_all add: message_defs lock_simps)

lemma conversation_answered:
  "messages sample_ev 1 0 (sample_asked @ [Ran True [5] [5, 9]],
     sample_slot At_loop (taken 1) (waiters [] []) [text_bytes ''x'', [6]] [[5, 9]], ())"
proof -
  have "messages sample_ev 1 0 (sample_asked @ [Ran (is_eval (text_bytes ''e'')) [5] [5, 9]],
       sample_slot At_loop (taken 1) (waiters [] []) [text_bytes ''x'', [6]] [[5, 9]], ())"
    by (rule reach_step [OF conversation_loop [unfolded messages_def], folded messages_def],
        rule mb_run [where p = 0]) (simp_all add: message_defs lock_simps sample_ev_def)
  then show ?thesis by simp
qed

theorem thread_messages_fifo_witness:
  "asked sample_asked = [(True, [5])] @ requests [text_bytes ''x'', [6]] \<and>
   answers (sample_asked @ [Ran True [5] [5, 9]]) = [[5, 9]]"
  using thread_messages_fifo [OF conversation_answered] by simp

theorem interpreter_thread_safe_witness:
  "\<exists>ts'. interp_pass 0 sample_ev 1 (sample_slot At_loop (taken 1) (waiters [] []) sample_queue []) () = Done (ts', ()) \<and>
     ts_phase ts' = At_loop \<and> requests (to_thread ts') = [(False, [6])] \<and> from_thread ts' = [[5, 9]]"
proof -
  obtain e expr rest after where run: "asked sample_asked = ran sample_asked @ (e, expr) # rest"
    "interp_pass 0 sample_ev 1 (sample_slot At_loop (taken 1) (waiters [] []) sample_queue []) () =
      bind_flow (sample_ev expr ()) (\<lambda>(res, w'). Done (after res, w'))"
    "\<forall>res. ts_phase (after res) = At_loop \<and> requests (to_thread (after res)) = rest \<and>
      from_thread (after res) = (if e then [res] else [])"
    using interpreter_thread_safe [OF conversation_loop, of 0] by auto
  from run(1) have "e" "expr = [5]" "rest = [(False, [6])]" by auto
  with run(2,3) show ?thesis by (simp add: sample_ev_def)
qed

theorem thread_messages_wake_witness:
  "\<exists>ts'. interp_wake 1 (sample_slot In_wait (new_lock False) (waiters [] [1]) sample_queue []) = Done ts' \<and>
     ts_phase ts' = At_loop"
  using thread_messages_wake [OF conversation_waits] by simp

end
