(* ===== verification/Thread_Table.thy ===== *)
theory Thread_Table
  imports Thread_Messages Value_Transfer
begin

text \<open>
  The array of threads: which slot a new thread gets, who owns a slot, what is left of a
  joined thread, and a whole conversation between \<open>threadEval\<close> and \<open>threadResult\<close>.
\<close>

section \<open>Slots\<close>

lemma find_inactive_none: "find_inactive i xs = None \<longleftrightarrow> (\<forall>x\<in>set xs. ts_active x)"
  by (induction xs arbitrary: i) auto

lemma find_inactive_first:
  "n < length xs \<Longrightarrow> \<not> ts_active (xs ! n) \<Longrightarrow> (\<And>k. k < n \<Longrightarrow> ts_active (xs ! k)) \<Longrightarrow>
   find_inactive i xs = Some (i + n)"
proof (induction xs arbitrary: i n)
  case (Cons x xs)
  show ?case
  proof (cases n)
    case (Suc m)
    have "ts_active x" using Cons.prems(3) [of 0] Suc by simp
    moreover have "find_inactive (Suc i) xs = Some (Suc i + m)"
      by (rule Cons.IH) (use Cons.prems Cons.prems(3) [of "Suc _"] Suc in auto)
    ultimately show ?thesis by (simp add: Suc)
  qed (use Cons.prems in simp)
qed simp

lemma find_inactive_free:
  "find_inactive i xs = Some n \<Longrightarrow> i \<le> n \<and> n - i < length xs \<and> \<not> ts_active (xs ! (n - i))"
proof (induction xs arbitrary: i)
  case (Cons x xs)
  show ?case
  proof (cases "ts_active x")
    case True
    with Cons.prems have "find_inactive (Suc i) xs = Some n" by simp
    from Cons.IH [OF this] show ?thesis by (auto simp: nth_Cons' Suc_le_eq)
  qed (use Cons.prems in simp)
qed simp

lemma newThread_cases:
  assumes "th_lock s = new_lock False"
  shows "newThread f created t s = Done
    (case find_inactive 0 (th_slots s) of
       None \<Rightarrow> (Inl ''createThread: too many threads'', s)
     | Some i \<Rightarrow> (Inr i, (set_slot i (fresh_slot f created t i (th_next s) (slot i s)) s)\<lparr>th_next := th_next s + 1\<rparr>))"
  using assms by (cases s) (auto simp: newThread_def lock_simps slot_def set_slot_def split: option.split)

text \<open>
  \<open>newThread\<close> takes the first slot that is not active, and none of the others changes;
  only when all slots are active it reports that there are too many threads, and changes
  nothing. The new slot is active and running, with empty queues and the caller as parent,
  even when \<open>pthread_create\<close> fails: the code tests for a negative result, and errors are
  positive.
\<close>

theorem newThread_first_free_slot:
  assumes "th_lock s = new_lock False"
  shows "((\<forall>i < length (th_slots s). ts_active (slot i s)) \<longrightarrow>
      newThread f created t s = Done (Inl ''createThread: too many threads'', s)) \<and>
    (\<forall>i < length (th_slots s). \<not> ts_active (slot i s) \<and> (\<forall>k < i. ts_active (slot k s)) \<longrightarrow>
      (\<exists>s'. newThread f created t s = Done (Inr i, s') \<and>
        (\<forall>k. k \<noteq> i \<longrightarrow> slot k s' = slot k s) \<and> ts_active (slot i s') \<and> ts_running (slot i s') \<and>
        ts_parent (slot i s') = t \<and> to_thread (slot i s') = [] \<and> from_thread (slot i s') = []))"
proof (intro conjI impI allI)
  assume "\<forall>i < length (th_slots s). ts_active (slot i s)"
  then have "find_inactive 0 (th_slots s) = None"
    by (auto simp: find_inactive_none slot_def in_set_conv_nth)
  then show "newThread f created t s = Done (Inl ''createThread: too many threads'', s)"
    by (simp add: newThread_cases [OF assms])
next
  fix i
  assume i: "i < length (th_slots s)" and "\<not> ts_active (slot i s) \<and> (\<forall>k < i. ts_active (slot k s))"
  then have "find_inactive 0 (th_slots s) = Some i"
    using find_inactive_first [of i "th_slots s" 0] by (simp add: slot_def)
  then show "\<exists>s'. newThread f created t s = Done (Inr i, s') \<and>
        (\<forall>k. k \<noteq> i \<longrightarrow> slot k s' = slot k s) \<and> ts_active (slot i s') \<and> ts_running (slot i s') \<and>
        ts_parent (slot i s') = t \<and> to_thread (slot i s') = [] \<and> from_thread (slot i s') = []"
    using i by (simp add: newThread_cases [OF assms] slot_def set_slot_def fresh_slot_def)
qed

theorem newThread_first_free_slot_witness:
  "\<exists>s'. newThread Interpreter_thread False 0 (initial_threads 1) = Done (Inr 0, s') \<and> ts_running (slot 0 s')"
proof -
  have "th_lock (initial_threads 1) = new_lock False" "0 < length (th_slots (initial_threads 1))"
    "\<not> ts_active (slot 0 (initial_threads 1))"
    by (simp_all add: initial_threads_def MAX_THREADS_def slot_def new_thread_state_def)
  with newThread_first_free_slot [of "initial_threads 1" Interpreter_thread False 0] show ?thesis by auto
qed

section \<open>A joined thread\<close>

text \<open>
  C37. After \<open>joinThread\<close> the thread is gone: its slot is free for another thread, using
  the value again for \<open>threadEval\<close>, \<open>threadExec\<close> or \<open>threadResult\<close> is an error, but joining
  it again dereferences a null pointer, whoever does it.
\<close>

theorem joined_thread_is_gone:
  assumes "joinThread_wake t p i s = Done (r, s')" and "p \<noteq> 0" and "objects (th_shared s) p \<noteq> None"
    and "i < length (th_slots s)" and "env_ok E" and "transferable E v"
  shows "\<not> ts_active (slot i s') \<and>
    (\<exists>h. threadEval E u [L_blackbox (type_thread (types E)) p, v] s' =
      Done (Error ''threadEval: thread is no longer running'', s'\<lparr>th_shared := h\<rparr>)) \<and>
    (\<exists>h. threadExec E u [L_blackbox (type_thread (types E)) p, v] s' =
      Done (Error ''threadExec: thread is no longer running'', s'\<lparr>th_shared := h\<rparr>)) \<and>
    threadResult E u [L_blackbox (type_thread (types E)) p] s' =
      Done (Error ''threadResult: thread is no longer running'', s') \<and>
    joinThread E u [L_blackbox (type_thread (types E)) p] s' = Crash Null_deref"
proof -
  from value_encoding [OF assms(5,6)] obtain str where
    str: "\<And>h. encode_value E v h = Done (str, add_refs E v h)" by blast
  from assms(1) have s': "th_of s' p = None" "th_shared s' = th_shared s" "slot i s' = stop_slot (slot i s)"
    using assms(4) by (auto simp: joinThread_wake_def bind_flow_Done_iff map_flow_value_Done_iff set_slot_def
        slot_def Let_def)
  obtain obj where obj: "objects (th_shared s') p = Some obj" using assms(3) s'(2) by auto
  note defs = threadEval_def threadExec_def thread_send_def threadResult_def joinThread_def with_running_thread_def
    guard_def unless_def is_thread_def typ_of_def getThreadState_def deref_def eval_nat_numeral
  show ?thesis
    using obj assms(2) s'(1) by (auto simp: defs str s'(3) stop_slot_def)
qed

text \<open>A table with one thread, of the main thread 0, in a given phase.\<close>

definition sample_thread :: "phase \<Rightarrow> thread_state" where
  "sample_thread ph = new_thread_state\<lparr>ts_active := True, ts_running := True, ts_index := 0,
     ts_func := Interpreter_thread, ts_id := 1, ts_phase := ph,
     to_cond := waiters (if ph = In_wait then [1] else []) []\<rparr>"

definition sample_threads :: "phase \<Rightarrow> thread_sys" where
  "sample_threads ph = (initial_threads 1)\<lparr>th_slots := [sample_thread ph], th_of := [1 \<mapsto> 0], th_next := 2,
     th_shared := (initial_sys 1)\<lparr>objects := [1 \<mapsto> \<lparr>so_type = type_thread sample_shared_types,
       so_name = text_bytes ''0'', so_refs = 1, so_data = P_other\<rparr>], next_addr := 2\<rparr>\<rparr>"

lemma sample_threads_simps [simp]:
  "slot 0 (sample_threads ph) = sample_thread ph" "length (th_slots (sample_threads ph)) = 1"
  "th_of (sample_threads ph) 1 = Some 0" "th_lock (sample_threads ph) = new_lock False"
  "\<exists>obj. objects (th_shared (sample_threads ph)) 1 = Some obj"
  by (simp_all add: sample_threads_def initial_threads_def slot_def)

theorem joined_thread_is_gone_witness:
  "\<exists>s'. joinThread_wake 0 1 0 (sample_threads Finished) = Done (Reply L_none, s') \<and> \<not> ts_active (slot 0 s') \<and>
     joinThread sample_env 0 [L_blackbox (type_thread sample_shared_types) 1] s' = Crash Null_deref"
proof -
  obtain s' where s': "joinThread_wake 0 1 0 (sample_threads Finished) = Done (Reply L_none, s')"
    by (simp add: joinThread_wake_def pthread_join_def sample_thread_def lock_simps Let_def set_slot_def)
  from joined_thread_is_gone [OF s' _ _ _ sample_env_ok sample_message_ok(1), of 0] s' show ?thesis by auto
qed

section \<open>Who owns a slot\<close>

text \<open>
  The steps of all threads: commands, the ends of sleeps, the created threads, threads of
  pools, and anything else that happens on the heap of shared objects, which only grows.
\<close>

definition thread_commands :: "bool \<Rightarrow> (env \<Rightarrow> thread \<Rightarrow> leftv list \<Rightarrow> thread_sys \<Rightarrow> (reply \<times> thread_sys) flow) list" where
  "thread_commands created =
     [createThread created, threadEval, threadExec, threadResult, joinThread, threadID, mainThread]"

inductive thread_step :: "thread_sys \<Rightarrow> thread_sys \<Rightarrow> bool" where
  th_command: "cmd \<in> set (thread_commands created) \<Longrightarrow> cmd E t args s = Done (r, s') \<Longrightarrow> thread_step s s'"
| th_result_wake: "threadResult_wake E t i s = Done (r, s') \<Longrightarrow> thread_step s s'"
| th_join_wake: "th_of s p = Some i \<Longrightarrow> joinThread_wake t p i s = Done (r, s') \<Longrightarrow> thread_step s s'"
| th_interpreter: "interpreter_thread E i s = Done s' \<Longrightarrow> thread_step s s'"
| th_pool_thread: "newThread (Other_thread n) created t s = Done (r, s') \<Longrightarrow> thread_step s s'"
| th_heap: "next_addr (th_shared s) \<le> next_addr h \<Longrightarrow> thread_step s (s\<lparr>th_shared := h\<rparr>)"

definition slots_owned :: "thread_sys \<Rightarrow> bool" where
  "slots_owned s \<longleftrightarrow> (\<forall>p i. th_of s p = Some i \<longrightarrow>
     i < length (th_slots s) \<and> ts_active (slot i s) \<and> unat p < next_addr (th_shared s) \<and>
     (\<forall>q. th_of s q = Some i \<longrightarrow> q = p))"

text \<open>What most steps keep: who is active, and the owners; the heap does not shrink.\<close>

definition same_owners :: "thread_sys \<Rightarrow> thread_sys \<Rightarrow> bool" where
  "same_owners s s' \<longleftrightarrow> th_of s' = th_of s \<and> th_lock s' = th_lock s \<and> map ts_active (th_slots s') = map ts_active (th_slots s) \<and>
     next_addr (th_shared s) \<le> next_addr (th_shared s')"

lemma same_owners_refl [simp]: "same_owners s s"
  by (simp add: same_owners_def)

lemma same_owners_trans: "same_owners s s' \<Longrightarrow> same_owners s' s'' \<Longrightarrow> same_owners s s''"
  by (simp add: same_owners_def)

lemma same_owners_keeps:
  assumes "same_owners s s'" and "slots_owned s"
  shows "slots_owned s'"
proof -
  have len: "length (th_slots s') = length (th_slots s)" using assms(1) map_eq_imp_length_eq
    by (fastforce simp: same_owners_def)
  have "ts_active (slot i s') = ts_active (slot i s)" if "i < length (th_slots s)" for i
  proof -
    have "map ts_active (th_slots s') ! i = map ts_active (th_slots s) ! i"
      using assms(1) by (simp add: same_owners_def)
    then show ?thesis using that len by (simp add: slot_def)
  qed
  moreover have "th_of s' = th_of s" and next_le: "next_addr (th_shared s) \<le> next_addr (th_shared s')"
    using assms(1) by (simp_all add: same_owners_def)
  ultimately show ?thesis
    using assms(2) len unfolding slots_owned_def by (auto intro: less_le_trans [OF _ next_le])
qed

lemma set_slot_same_owners:
  "ts_active ts = ts_active (slot i s) \<Longrightarrow> same_owners s (set_slot i ts s)"
  by (cases "i < length (th_slots s)")
    (simp_all add: same_owners_def set_slot_def slot_def map_update list_update_same_conv list_update_beyond)

lemma on_slot_same_owners:
  assumes "on_slot i f s = Done (r, s')" and "\<And>r ts'. f (slot i s) = Done (r, ts') \<Longrightarrow> ts_active ts' = ts_active (slot i s)"
  shows "same_owners s s'"
  using assms by (auto simp: on_slot_def map_flow_value_Done_iff split: if_splits intro: set_slot_same_owners)

lemma steps_keep_active:
  "ts_lock_state t ts = Done ts' \<Longrightarrow> ts_active ts' = ts_active ts"
  "ts_unlock t ts = Done ts' \<Longrightarrow> ts_active ts' = ts_active ts"
  "ts_push p t msgs ts = Done ts' \<Longrightarrow> ts_active ts' = ts_active ts"
  "interp_start t ts = Done ts' \<Longrightarrow> ts_active ts' = ts_active ts"
  "interp_wake t ts = Done ts' \<Longrightarrow> ts_active ts' = ts_active ts"
  by (auto simp: message_defs map_flow_value_Done_iff bind_flow_Done_iff)

lemma result_keeps_active:
  "result_loop t ts = Done (r, ts') \<Longrightarrow> ts_active ts' = ts_active ts"
  "result_resume t ts = Done (r, ts') \<Longrightarrow> ts_active ts' = ts_active ts"
proof -
  show loop: "ts_active ts' = ts_active ts" if "result_loop t ts = Done (r, ts')" for ts
    using that by (cases "from_thread ts") (auto simp: result_loop_def ts_unlock_def map_flow_value_Done_iff)
  show "result_resume t ts = Done (r, ts') \<Longrightarrow> ts_active ts' = ts_active ts"
    by (auto simp: result_resume_def bind_flow_Done_iff dest: loop)
qed

lemma interp_pass_keeps_active:
  "interp_pass p ev t ts w = Done (ts', w') \<Longrightarrow> ts_active ts' = ts_active ts"
  by (auto simp: interp_pass_def ts_unlock_def signal_from_def map_flow_value_Done_iff bind_flow_Done_iff
      split: list.splits if_splits)

lemma heap_same_owners:
  "next_addr (th_shared s) \<le> next_addr h \<Longrightarrow> same_owners s (s\<lparr>th_shared := h\<rparr>)"
  by (simp add: same_owners_def)

lemma thread_result_same_owners:
  "thread_result E (res, s) = Done (r, s') \<Longrightarrow> same_owners s s'"
  by (auto simp: thread_result_def map_flow_value_Done_iff split: option.splits
      dest: values_keep_next_addr(2) intro!: heap_same_owners)

lemma with_running_thread_same_owners:
  assumes "with_running_thread name t p s body = Done (r, s')"
    and "\<And>i s1. body i s1 = Done (r, s') \<Longrightarrow> same_owners s1 s'"
  shows "same_owners s s'"
proof (cases "th_of s p")
  case None
  then show ?thesis using assms(1)
    by (auto simp: with_running_thread_def bind_flow_Done_iff getThreadState_def map_flow_value_Done_iff guard_Done)
next
  case (Some i)
  with assms(1) consider "s' = s"
    | s1 where "on_slot i (\<lambda>ts. map_flow_value (Pair ()) (ts_lock_state t ts)) s = Done ((), s1)"
      "body i s1 = Done (r, s')"
    | s1 where "on_slot i (\<lambda>ts. map_flow_value (Pair ()) (ts_lock_state t ts)) s = Done ((), s1)"
      "on_slot i (\<lambda>ts. map_flow_value (Pair ()) (ts_unlock t ts)) s1 = Done ((), s')"
    by (auto simp: with_running_thread_def bind_flow_Done_iff getThreadState_def map_flow_value_Done_iff
        guard_Done split: if_splits)
  then show ?thesis
  proof cases
    case 2
    have "same_owners s s1"
      by (rule on_slot_same_owners [OF 2(1)]) (auto simp: map_flow_value_Done_iff dest: steps_keep_active)
    then show ?thesis using assms(2) [OF 2(2)] by (rule same_owners_trans)
  next
    case 3
    have "same_owners s s1" "same_owners s1 s'"
      by (rule on_slot_same_owners [OF 3(1)] on_slot_same_owners [OF 3(2)];
          auto simp: map_flow_value_Done_iff dest: steps_keep_active)+
    then show ?thesis by (rule same_owners_trans)
  qed simp
qed

lemma thread_send_same_owners:
  assumes "thread_send name cmd E t args s = Done (r, s')"
  shows "same_owners s s'"
proof -
  from assms consider "s' = s" | p str h where "encode_value E (args ! 1) (th_shared s) = Done (str, h)"
    "with_running_thread name t p (s\<lparr>th_shared := h\<rparr>) (\<lambda>i s.
       map_flow_value (\<lambda>(_, s). (Reply L_none, s))
         (on_slot i (\<lambda>ts. map_flow_value (Pair ()) (ts_push (pick E) t [text_bytes cmd, str] ts)) s)) = Done (r, s')"
    by (auto simp: thread_send_def guard_Done bind_flow_Done_iff)
  then show ?thesis
  proof cases
    case (2 p str h)
    have "same_owners (s\<lparr>th_shared := h\<rparr>) s'"
      by (rule with_running_thread_same_owners [OF 2(2)])
        (auto simp: map_flow_value_Done_iff elim!: on_slot_same_owners dest: steps_keep_active)
    moreover have "same_owners s (s\<lparr>th_shared := h\<rparr>)"
      using values_keep_next_addr(1) [OF 2(1)] by (intro heap_same_owners) simp
    ultimately show ?thesis by (rule same_owners_trans [rotated])
  qed simp
qed

lemma take_result_same_owners:
  assumes "bind_flow (on_slot i f s) (thread_result E) = Done (r, s')" and "f \<in> {result_loop t, result_resume t}"
  shows "same_owners s s'"
proof -
  from assms(1) obtain res s1 where 1: "on_slot i f s = Done (res, s1)" "thread_result E (res, s1) = Done (r, s')"
    by (auto simp: bind_flow_Done_iff)
  have "same_owners s s1" by (rule on_slot_same_owners [OF 1(1)]) (use assms(2) in \<open>auto dest: result_keeps_active\<close>)
  then show ?thesis using thread_result_same_owners [OF 1(2)] by (rule same_owners_trans)
qed

lemma threadResult_same_owners:
  "threadResult E t args s = Done (r, s') \<Longrightarrow> same_owners s s'"
  "threadResult_wake E t i s = Done (r, s') \<Longrightarrow> same_owners s s'"
proof -
  show "threadResult_wake E t i s = Done (r, s') \<Longrightarrow> same_owners s s'"
    unfolding threadResult_wake_def by (rule take_result_same_owners [where t = t]) auto
  assume "threadResult E t args s = Done (r, s')"
  then consider "s' = s" | p where "with_running_thread ''threadResult'' t p s (\<lambda>i s.
       bind_flow (on_slot i (result_loop t) s) (thread_result E)) = Done (r, s')"
    by (auto simp: threadResult_def guard_Done bind_flow_Done_iff [of "shared_arg _"])
  then show "same_owners s s'"
  proof cases
    case 2
    then show ?thesis
      by (rule with_running_thread_same_owners) (rule take_result_same_owners [where t = t], auto)
  qed simp
qed

lemma joinThread_same_owners:
  assumes "joinThread E t args s = Done (r, s')"
  shows "same_owners s s'"
proof -
  from assms consider "s' = s" | i where "on_slot i (\<lambda>ts. map_flow_value (Pair ())
      (bind_flow (ts_lock_state t ts) (ts_push (pick E) t [text_bytes ''q'']))) s = Done ((), s')"
    by (auto simp: joinThread_def guard_Done bind_flow_Done_iff [of "shared_arg _"]
        bind_flow_Done_iff [of "getThreadState _ _"] map_flow_value_Done_iff [of _ "on_slot _ _ _"] split: option.splits)
  then show ?thesis
  proof cases
    case 2
    then show ?thesis
      by (rule on_slot_same_owners)
        (auto simp: map_flow_value_Done_iff bind_flow_Done_iff dest!: steps_keep_active)
  qed simp
qed

lemma thread_init_same_owners: "thread_init t s = Done s' \<Longrightarrow> same_owners s s' \<and> th_slots s' = th_slots s"
  by (auto simp: thread_init_def bind_flow_Done_iff map_flow_value_Done_iff same_owners_def)

lemma interpreter_thread_same_owners:
  assumes "interpreter_thread E i s = Done s'"
  shows "same_owners s s'"
proof (cases "ts_phase (slot i s)")
  case Created
  with assms obtain s1 ts where 1: "thread_init (ts_id (slot i s)) s = Done s1"
    "interp_start (ts_id (slot i s)) (slot i s1) = Done ts" "s' = set_slot i ts s1"
    by (auto simp: interpreter_thread_def Let_def bind_flow_Done_iff map_flow_value_Done_iff)
  have "same_owners s1 s'" using 1(2,3) by (auto dest: steps_keep_active intro: set_slot_same_owners)
  then show ?thesis using thread_init_same_owners [OF 1(1)] by (blast intro: same_owners_trans)
next
  case At_loop
  let ?t = "ts_id (slot i s)"
  from assms At_loop obtain ts h where 1: "interp_pass (pick E) (evaluate E) ?t (slot i s) (th_shared s) = Done (ts, h)"
    "s' = set_slot i ts (s\<lparr>th_shared := h\<rparr>)"
    by (auto simp: interpreter_thread_def Let_def map_flow_value_Done_iff)
  have "next_addr h = next_addr (th_shared s)"
    using 1(1) by (auto simp: interp_pass_def evaluate_def bind_flow_Done_iff map_flow_value_Done_iff
        split: list.splits if_splits dest!: values_keep_next_addr)
  then have "same_owners s (s\<lparr>th_shared := h\<rparr>)" by (intro heap_same_owners) simp
  moreover have "same_owners (s\<lparr>th_shared := h\<rparr>) s'"
    using 1 by (auto intro!: set_slot_same_owners dest!: interp_pass_keeps_active simp: slot_def)
  ultimately show ?thesis by (rule same_owners_trans)
next
  case In_wait
  with assms show ?thesis
    by (auto simp: interpreter_thread_def Let_def map_flow_value_Done_iff
        dest: steps_keep_active intro: set_slot_same_owners)
qed (use assms in \<open>simp_all add: interpreter_thread_def\<close>)

text \<open>A new slot, a new object on it, and a slot given up.\<close>

lemma newThread_owned:
  assumes "newThread f created t s = Done (r, s')" and "slots_owned s" and "th_lock s = new_lock False"
  shows "slots_owned s' \<and> th_lock s' = new_lock False \<and> th_of s' = th_of s \<and> th_shared s' = th_shared s \<and>
    (\<forall>i. r = Inr i \<longrightarrow> i < length (th_slots s') \<and> ts_active (slot i s') \<and> (\<forall>p. th_of s p \<noteq> Some i))"
proof (cases "find_inactive 0 (th_slots s)")
  case None
  with assms show ?thesis by (auto simp: newThread_cases)
next
  case (Some i)
  then have i: "i < length (th_slots s)" "\<not> ts_active (slot i s)"
    using find_inactive_free [OF Some] by (simp_all add: slot_def)
  then have free: "th_of s p \<noteq> Some i" for p using assms(2) by (auto simp: slots_owned_def)
  from assms(1,3) Some have s': "r = Inr i"
    "s' = (set_slot i (fresh_slot f created t i (th_next s) (slot i s)) s)\<lparr>th_next := th_next s + 1\<rparr>"
    by (simp_all add: newThread_cases)
  have "slots_owned s'"
    using assms(2) free i by (auto simp: s' slots_owned_def set_slot_def slot_def nth_list_update fresh_slot_def)
  then show ?thesis using assms(3) free i by (simp add: s' set_slot_def slot_def fresh_slot_def)
qed

lemma createInterpreterThread_cases:
  assumes "createInterpreterThread E created t s = Done (res, s2)"
  shows "(\<exists>err. res = Inl err \<and> newThread Interpreter_thread created t s = Done (Inl err, s2)) \<or>
    (\<exists>i s1 p h. newThread Interpreter_thread created t s = Done (Inr i, s1) \<and>
      allocate P_other (type_thread (types E)) (decimal i) (th_shared s1) = Done (p, h) \<and> res = Inr p \<and>
      s2 = s1\<lparr>th_shared := h, th_of := (th_of s1)(p \<mapsto> i)\<rparr>)"
proof -
  from assms obtain x s1 where 1: "newThread Interpreter_thread created t s = Done (x, s1)"
    by (auto simp: createInterpreterThread_def bind_flow_Done_iff)
  with assms show ?thesis
    by (cases x) (auto simp: createInterpreterThread_def map_flow_value_Done_iff)
qed

lemma createThread_cases:
  assumes "createThread created E t args s = Done (r, s')"
  obtains "s' = s" | res s1 where "newThread Interpreter_thread created t s = Done (Inl res, s1)" "s' = s1"
    | i s1 p h h' where "newThread Interpreter_thread created t s = Done (Inr i, s1)"
      "allocate P_other (type_thread (types E)) (decimal i) (th_shared s1) = Done (p, h)"
      "reply_shared (type_thread (types E)) p h = Done (r, h')"
      "s' = s1\<lparr>th_of := (th_of s1)(p \<mapsto> i), th_shared := h'\<rparr>"
proof -
  from assms have "s' = s \<or> bind_flow (createInterpreterThread E created t s) (\<lambda>(res, s).
      case res of
        Inl err \<Rightarrow> Done (Error (''createThread: '' @ err), s)
      | Inr p \<Rightarrow> map_flow_value (\<lambda>(r, h). (r, s\<lparr>th_shared := h\<rparr>))
          (reply_shared (type_thread (types E)) p (th_shared s))) = Done (r, s')"
    unfolding createThread_def run_command_Done by blast
  then consider "s' = s" | err where "createInterpreterThread E created t s = Done (Inl err, s')"
    | p s2 h' where "createInterpreterThread E created t s = Done (Inr p, s2)"
      "reply_shared (type_thread (types E)) p (th_shared s2) = Done (r, h')" "s' = s2\<lparr>th_shared := h'\<rparr>"
  proof (elim disjE)
    assume "bind_flow (createInterpreterThread E created t s) (\<lambda>(res, s).
      case res of
        Inl err \<Rightarrow> Done (Error (''createThread: '' @ err), s)
      | Inr p \<Rightarrow> map_flow_value (\<lambda>(r, h). (r, s\<lparr>th_shared := h\<rparr>))
          (reply_shared (type_thread (types E)) p (th_shared s))) = Done (r, s')"
    moreover from this obtain x s2 where "createInterpreterThread E created t s = Done (x, s2)"
      by (auto simp: bind_flow_Done_iff)
    ultimately show thesis using that by (cases x) (auto simp: map_flow_value_Done_iff)
  qed (use that in blast)
  then show thesis
  proof cases
    case 2
    from createInterpreterThread_cases [OF 2] that(2) show ?thesis by fastforce
  next
    case 3
    from createInterpreterThread_cases [OF 3(1)] 3(2,3) that(3) show ?thesis by fastforce
  qed (rule that(1))
qed

text \<open>A new object that names a slot nobody else names.\<close>

lemma adopt_owned:
  assumes "slots_owned s" and "th_of s p = None" and "\<forall>q. th_of s q \<noteq> Some i"
    and "i < length (th_slots s)" and "ts_active (slot i s)"
    and "unat p < next_addr h" and "next_addr (th_shared s) \<le> next_addr h"
  shows "slots_owned (s\<lparr>th_of := (th_of s)(p \<mapsto> i), th_shared := h\<rparr>)"
  using assms unfolding slots_owned_def by (auto simp: slot_def dest: order_less_le_trans)

lemma createThread_owned:
  assumes "createThread created E t args s = Done (r, s')" and "slots_owned s" and "th_lock s = new_lock False"
  shows "slots_owned s' \<and> th_lock s' = new_lock False"
  using assms(1)
proof (cases rule: createThread_cases)
  case 1
  then show ?thesis using assms(2,3) by simp
next
  case 2
  then show ?thesis using newThread_owned [OF 2(1) assms(2,3)] by simp
next
  case (3 i s1 p h h')
  note new = newThread_owned [OF 3(1) assms(2,3)]
  from 3(2) have p: "unat p = next_addr (th_shared s1)" "next_addr h = next_addr (th_shared s1) + 1"
    by (auto simp: allocate_def Let_def unat_of_nat split: if_splits)
  moreover have "th_of s1 p = Some a \<Longrightarrow> unat p < next_addr (th_shared s1)" for a
    using new unfolding slots_owned_def by blast
  ultimately have "th_of s1 p = None" by (cases "th_of s1 p") simp_all
  moreover have "next_addr h' = next_addr h" by (rule values_keep_next_addr(3) [OF 3(3)])
  ultimately show ?thesis using adopt_owned [of s1 p i h'] new p by (simp add: 3(4))
qed

lemma join_wake_owned:
  assumes "joinThread_wake t p i s = Done (r, s')" and "th_of s p = Some i"
    and "slots_owned s" and "th_lock s = new_lock False"
  shows "slots_owned s' \<and> th_lock s' = new_lock False"
  using assms
  by (auto simp: joinThread_wake_def bind_flow_Done_iff map_flow_value_Done_iff lock_simps Let_def slots_owned_def
      set_slot_def slot_def nth_list_update split: if_splits)

lemma thread_step_owned:
  assumes "thread_step s s'" and "slots_owned s \<and> th_lock s = new_lock False"
  shows "slots_owned s' \<and> th_lock s' = new_lock False"
proof -
  have same: ?thesis if "same_owners s s'"
    using same_owners_keeps [OF that] that assms(2) by (simp add: same_owners_def)
  from assms(1) show ?thesis
  proof cases
    case (th_command cmd created E t args r)
    then consider "createThread created E t args s = Done (r, s')" | "same_owners s s'"
      by (auto simp: thread_commands_def threadEval_def threadExec_def threadID_def mainThread_def guard_Done
          dest: thread_send_same_owners threadResult_same_owners joinThread_same_owners)
    then show ?thesis using createThread_owned assms(2) same by cases auto
  next
    case (th_join_wake p i t r)
    then show ?thesis using join_wake_owned assms(2) by blast
  next
    case (th_pool_thread n created t r)
    then show ?thesis using newThread_owned assms(2) by blast
  next
    case th_heap
    then show ?thesis using same heap_same_owners by blast
  qed (use same threadResult_same_owners(2) interpreter_thread_same_owners in blast)+
qed

text \<open>
  C38. Every interpreter thread that has not been joined has a slot of its own: in every
  run, the slot it refers to is active, so that no new thread can take it, and no other
  interpreter thread refers to it.
\<close>

theorem thread_slots_owned:
  assumes "reach (\<lambda>s. \<exists>n. s = initial_threads n) thread_step s" and "th_of s p = Some i"
  shows "i < length (th_slots s) \<and> ts_active (slot i s) \<and> (\<forall>q. th_of s q = Some i \<longrightarrow> q = p)"
proof -
  have "slots_owned s \<and> th_lock s = new_lock False"
    using assms(1)
  proof (induction rule: reach.induct)
    case (reach_init s)
    then show ?case by (auto simp: slots_owned_def initial_threads_def)
  next
    case (reach_step s s')
    then show ?case using thread_step_owned by blast
  qed
  then show ?thesis using assms(2) unfolding slots_owned_def by blast
qed

lemma slot_simps [simp]:
  "i < length (th_slots s) \<Longrightarrow> slot i (set_slot i ts s) = ts"
  "set_slot i ts (set_slot i ts' s) = set_slot i ts s"
  "length (th_slots (set_slot i ts s)) = length (th_slots s)"
  "th_shared (set_slot i ts s) = th_shared s"
  "(set_slot i ts s)\<lparr>th_shared := h\<rparr> = set_slot i ts (s\<lparr>th_shared := h\<rparr>)"
  by (simp_all add: slot_def set_slot_def)

theorem thread_slots_owned_witness:
  "\<exists>s. reach (\<lambda>s. \<exists>n. s = initial_threads n) thread_step s \<and> th_of s 1 = Some 0 \<and> ts_active (slot 0 s)"
proof -
  have "find_inactive 0 (th_slots (initial_threads 1)) = Some 0"
    by (simp add: initial_threads_def MAX_THREADS_def numeral_eq_Suc new_thread_state_def)
  moreover have "th_lock (initial_threads 1) = new_lock False" by (simp add: initial_threads_def)
  ultimately obtain s where s: "createThread True sample_env 0 [] (initial_threads 1) =
      Done (Reply (L_blackbox (type_thread sample_shared_types) 1), s)" "th_of s 1 = Some 0"
    by (auto simp: createThread_def createInterpreterThread_def run_command_def newThread_cases check_argc_def
        have_threads_def unless_def allocate_def Let_def initial_threads_def initial_sys_def reply_shared_def
        new_shared_def acquireShared_def incref_def deref_def set_object_def set_slot_def)
  have "thread_step (initial_threads 1) s"
    by (rule th_command [where cmd = "createThread True" and created = True, OF _ s(1)]) (simp add: thread_commands_def)
  then have "reach (\<lambda>s. \<exists>n. s = initial_threads n) thread_step s"
    by (blast intro: reach.intros)
  with thread_slots_owned [OF this s(2)] s(2) show ?thesis by blast
qed

section \<open>A whole conversation\<close>

text \<open>
  C40. \<open>threadEval\<close> and \<open>threadResult\<close> together evaluate in the other thread: when the
  interpreter thread waits with nothing to do, \<open>threadEval\<close> by its parent wakes it, it
  evaluates the value and goes back to sleep, and \<open>threadResult\<close> returns the result, which
  is the value after the two journeys (on each of which names and commands in it are
  evaluated); the thread is left as it was.
\<close>

theorem thread_evaluates:
  assumes "env_ok E" and "transferable E v" and "transferable E (value_image (interp E) v)"
    and "p \<noteq> 0" and "objects (th_shared s) p \<noteq> None" and "th_of s p = Some i" and "i < length (th_slots s)"
    and "slot i s = ts" and "ts_parent ts = u" and "ts_id ts \<noteq> u" and "ts_running ts" and "ts_active ts"
    and "ts_phase ts = In_wait" and "ts_lock ts = new_lock False" and "to_cond ts = waiters [ts_id ts] []"
    and "from_cond ts = waiters [] []" and "to_thread ts = []" and "from_thread ts = []"
  shows "\<exists>s1 s2 s3 s4 s5.
    threadEval E u [L_blackbox (type_thread (types E)) p, v] s = Done (Reply L_none, s1) \<and>
    interpreter_thread E i s1 = Done s2 \<and> interpreter_thread E i s2 = Done s3 \<and>
    interpreter_thread E i s3 = Done s4 \<and>
    threadResult E u [L_blackbox (type_thread (types E)) p] s4 =
      Done (Reply (value_image (interp E) (value_image (interp E) v)), s5) \<and>
    slot i s5 = ts"
proof -
  let ?v = "value_image (interp E) v" and ?t = "ts_id ts"
  from value_encoding [OF assms(1,2)] obtain str where
    str: "\<And>h. encode_value E v h = Done (str, add_refs E v h)"
    "\<And>h. decode_value E str h = Done (?v, add_refs E v h)" by blast
  from value_encoding [OF assms(1,3)] obtain res where
    res: "\<And>h. encode_value E ?v h = Done (res, add_refs E ?v h)"
    "\<And>h. decode_value E res h = Done (value_image (interp E) ?v, add_refs E ?v h)" by blast
  let ?msgs = "[text_bytes ''e'', str]"
  let ?h1 = "add_refs E v (th_shared s)"
  let ?h3 = "add_refs E ?v (add_refs E v ?h1)"
  let ?s1 = "set_slot i (ts\<lparr>to_thread := ?msgs, to_cond := waiters [] [?t]\<rparr>) (s\<lparr>th_shared := ?h1\<rparr>)"
  let ?s2 = "set_slot i (ts\<lparr>to_thread := ?msgs, to_cond := waiters [] [], ts_lock := taken ?t, ts_phase := At_loop\<rparr>)
    (s\<lparr>th_shared := ?h1\<rparr>)"
  let ?s3 = "set_slot i (ts\<lparr>from_thread := [res], to_cond := waiters [] [], ts_lock := taken ?t, ts_phase := At_loop\<rparr>)
    (s\<lparr>th_shared := ?h3\<rparr>)"
  let ?s4 = "set_slot i (ts\<lparr>from_thread := [res]\<rparr>) (s\<lparr>th_shared := ?h3\<rparr>)"
  let ?s5 = "set_slot i ts (s\<lparr>th_shared := add_refs E ?v ?h3\<rparr>)"
  have here: "slot i (s\<lparr>th_shared := h\<rparr>) = ts" "th_of (set_slot i x (s\<lparr>th_shared := h\<rparr>)) p = Some i"
    "i < length (th_slots (s\<lparr>th_shared := h\<rparr>))" "i < length (th_slots s)" for h x
    using assms(6-8) by (simp_all add: slot_def set_slot_def)
  note calls = guard_def unless_def is_thread_def typ_of_def getThreadState_def deref_def on_slot_def here assms(6)
  have 1: "threadEval E u [L_blackbox (type_thread (types E)) p, v] s = Done (Reply L_none, ?s1)"
    using assms(4,5,9-18) str(1) by (cases ts) (auto simp: threadEval_def thread_send_def with_running_thread_def calls
        message_defs lock_simps eval_nat_numeral)
  have 2: "interpreter_thread E i ?s1 = Done ?s2"
    using assms(9-18) by (cases ts) (simp add: interpreter_thread_def here message_defs lock_simps)
  have 3: "interpreter_thread E i ?s2 = Done ?s3"
    using assms(9-18) str res by (cases ts) (simp add: interpreter_thread_def here evaluate_def message_defs lock_simps)
  have 4: "interpreter_thread E i ?s3 = Done ?s4"
    using assms(9-18) by (cases ts) (simp add: interpreter_thread_def here message_defs lock_simps)
  have 5: "threadResult E u [L_blackbox (type_thread (types E)) p] ?s4 =
      Done (Reply (value_image (interp E) ?v), ?s5)"
    using assms(4,5,9-18) res by (cases ts) (auto simp: threadResult_def thread_result_def with_running_thread_def calls
        message_defs lock_simps eval_nat_numeral)
  have 6: "slot i ?s5 = ts" by (simp add: here)
  show ?thesis by (intro exI conjI) (rule 1 2 3 4 5 6)+
qed

theorem thread_evaluates_witness:
  "\<exists>s1 s2 s3 s4 s5.
    threadEval sample_env 0 [L_blackbox (type_thread sample_shared_types) 1, sample_message] (sample_threads In_wait) =
      Done (Reply L_none, s1) \<and>
    interpreter_thread sample_env 0 s1 = Done s2 \<and> interpreter_thread sample_env 0 s2 = Done s3 \<and>
    interpreter_thread sample_env 0 s3 = Done s4 \<and>
    threadResult sample_env 0 [L_blackbox (type_thread sample_shared_types) 1] s4 = Done (Reply sample_message, s5) \<and>
    slot 0 s5 = sample_thread In_wait"
  using thread_evaluates [OF sample_env_ok sample_message_ok(1), of 1 "sample_threads In_wait" 0 "sample_thread In_wait" 0]
  by (simp add: sample_message_ok)
    (simp add: sample_thread_def new_thread_state_def lock_simps)

end
