(* ===== verification/Flow_Post.thy ===== *)
theory Flow_Post
  imports Job_Commands
begin

text \<open>
  Postconditions of fallible operations, and the rules that take an operation on jobs and
  schedulers apart: \<open>post m Q\<close> says that whatever \<open>m\<close> returns satisfies \<open>Q\<close>.
\<close>

section \<open>Postconditions\<close>

definition post :: "'a flow \<Rightarrow> ('a \<Rightarrow> bool) \<Rightarrow> bool" where
  "post m Q \<longleftrightarrow> (\<forall>x. m = Done x \<longrightarrow> Q x)"

lemma post_simps [simp]:
  "post (Done x) Q \<longleftrightarrow> Q x" "post Block Q" "post (Crash e) Q" "post Out_of_fuel Q"
  "post (bind_flow m f) Q \<longleftrightarrow> post m (\<lambda>x. post (f x) Q)"
  "post (map_flow_value g m) Q \<longleftrightarrow> post m (\<lambda>x. Q (g x))"
  by (cases m; simp add: post_def)+

lemma postD: "post m Q \<Longrightarrow> m = Done x \<Longrightarrow> Q x"
  by (simp add: post_def)

lemma post_weaken: "post m P \<Longrightarrow> (\<And>x. P x \<Longrightarrow> Q x) \<Longrightarrow> post m Q"
  by (simp add: post_def)

lemma post_any: "(\<And>x. Q x) \<Longrightarrow> post m Q"
  by (simp add: post_def)

lemma post_conj: "post m P \<Longrightarrow> post m Q \<Longrightarrow> post m (\<lambda>x. P x \<and> Q x)"
  by (simp add: post_def)

lemma post_fold_flow:
  assumes "P s" and "\<And>x s. x \<in> set xs \<Longrightarrow> P s \<Longrightarrow> post (f x s) P"
  shows "post (fold_flow f xs s) P"
  using assms by (induction xs arbitrary: s) (auto intro: post_weaken)

lemma post_guard [simp]:
  "post (guard err s body) Q \<longleftrightarrow> (case err of Some msg \<Rightarrow> Q (Error msg, s) | None \<Rightarrow> post body Q)"
  by (simp add: guard_def split: option.split)

lemma post_run_command:
  "(\<And>msg. Q (Error msg, s)) \<Longrightarrow> post body Q \<Longrightarrow> post (run_command name checks args s body) Q"
  by (auto simp: post_def run_command_Done)

section \<open>What jobs keep, and what a queued job needs\<close>

definition deps_done :: "job_sys \<Rightarrow> addr \<Rightarrow> bool" where
  "deps_done s p \<longleftrightarrow> (\<exists>j. js_jobs s p = Some j \<and>
     (\<forall>d\<in>set (jb_deps j). \<exists>j'. js_jobs s d = Some j' \<and> jb_done j'))"

definition in_pool :: "job_sys \<Rightarrow> addr \<Rightarrow> bool" where
  "in_pool s p \<longleftrightarrow> (\<exists>j. js_jobs s p = Some j \<and> jb_pool j \<noteq> 0)"

definition in_queue :: "job_sys \<Rightarrow> addr \<Rightarrow> bool" where
  "in_queue s p \<longleftrightarrow> (\<exists>sc S. js_scheds s sc = Some S \<and>
     p \<in> set (global_queue S) \<union> (\<Union>q\<in>set (thread_queues S). set q))"

definition referred :: "job_sys \<Rightarrow> addr \<Rightarrow> bool" where
  "referred s p \<longleftrightarrow> (\<exists>q j. js_jobs s q = Some j \<and> p \<in> set (jb_notify j) \<union> set (jb_triggers j))"

text \<open>
  No queued job is forgotten: while a pool has jobs in its queue and a worker sleeps, another
  one is awake, or on its way out of the wait.
\<close>

fun active_worker :: "worker \<Rightarrow> bool" where
  "active_worker W_wait = False"
| "active_worker W_exit = False"
| "active_worker _ = True"

definition has_active :: "(thread \<times> nat \<times> worker) list \<Rightarrow> bool" where
  "has_active ws \<longleftrightarrow> (\<exists>t num w. map_of ws t = Some (num, w) \<and> active_worker w)"

definition cond_ok :: "cond_var \<Rightarrow> bool" where
  "cond_ok c \<longleftrightarrow> cv_waiting c = int (length (sleepers c) + length (woken c))"

definition pool_live :: "scheduler \<Rightarrow> bool" where
  "pool_live S \<longleftrightarrow> cond_ok (sc_cond S) \<and>
     (global_queue S = [] \<or> shutting_down S \<or> sleepers (sc_cond S) = [] \<or>
      woken (sc_cond S) \<noteq> [] \<or> has_active (sc_workers S))"

definition scheds_live :: "job_sys \<Rightarrow> bool" where
  "scheds_live s \<longleftrightarrow> (\<forall>sc S. js_scheds s sc = Some S \<longrightarrow> pool_live S)"

text \<open>
  Queued jobs have their dependencies done. A job that is queued or to be notified belongs
  to a pool, or is one of the jobs \<open>X\<close> that are just being scheduled. Jobs are at addresses
  that have been used.
\<close>

definition job_inv :: "addr set \<Rightarrow> job_sys \<Rightarrow> bool" where
  "job_inv X s \<longleftrightarrow> (\<forall>p. in_queue s p \<longrightarrow> deps_done s p) \<and>
     (\<forall>p. in_queue s p \<or> referred s p \<longrightarrow> in_pool s p \<or> (p \<in> X \<and> js_jobs s p \<noteq> None)) \<and>
     (\<forall>p. js_jobs s p \<noteq> None \<longrightarrow> unat p < next_addr (heap s)) \<and> scheds_live s"

definition job_le :: "job \<Rightarrow> job \<Rightarrow> bool" where
  "job_le j j' \<longleftrightarrow> jb_deps j' = jb_deps j \<and> (jb_done j \<longrightarrow> jb_done j') \<and> (jb_pool j \<noteq> 0 \<longrightarrow> jb_pool j' \<noteq> 0) \<and>
     set (jb_notify j) \<subseteq> set (jb_notify j') \<and> set (jb_triggers j) \<subseteq> set (jb_triggers j')"

definition jobs_le :: "job_sys \<Rightarrow> job_sys \<Rightarrow> bool" where
  "jobs_le s s' \<longleftrightarrow> next_addr (heap s) \<le> next_addr (heap s') \<and>
     (\<forall>p j. js_jobs s p = Some j \<longrightarrow> (\<exists>j'. js_jobs s' p = Some j' \<and> job_le j j'))"

text \<open>What every step of the scheduler does: jobs advance, and the invariant is kept.\<close>

definition advances :: "job_sys \<Rightarrow> job_sys \<Rightarrow> bool" where
  "advances s s' \<longleftrightarrow> jobs_le s s' \<and> (\<forall>X. job_inv X s \<longrightarrow> job_inv X s')"

lemma pool_live_simps [simp]:
  "pool_live (S\<lparr>sc_lock := l\<rparr>) = pool_live S" "pool_live (S\<lparr>sc_response := c\<rparr>) = pool_live S"
  "pool_live (S\<lparr>sc_lock := l, sc_response := c\<rparr>) = pool_live S"
  "pool_live (S\<lparr>next_jobid := n\<rparr>) = pool_live S" "pool_live (S\<lparr>pending := ps\<rparr>) = pool_live S"
  "pool_live (S\<lparr>sc_threads := ts\<rparr>) = pool_live S" "pool_live (S\<lparr>thread_queues := qs\<rparr>) = pool_live S"
  "pool_live (S\<lparr>sc_threads := ts, thread_queues := qs\<rparr>) = pool_live S"
  "pool_live (S\<lparr>thread_queues := qs, sc_threads := ts\<rparr>) = pool_live S"
  "pool_live (S\<lparr>shutdown_counter := k\<rparr>) = pool_live S"
  by (simp_all add: pool_live_def)

lemma live_shutting_down: "pool_live S \<Longrightarrow> pool_live (S\<lparr>shutting_down := True\<rparr>)"
  by (simp add: pool_live_def)

lemma live_fewer: "pool_live S \<Longrightarrow> pool_live (S\<lparr>global_queue := remove_nth i (global_queue S)\<rparr>)"
  by (auto simp: pool_live_def remove_nth_def)

lemma has_active_append: "has_active ws \<Longrightarrow> has_active (ws @ ws')"
  unfolding has_active_def by (metis map_of_append map_add_find_right)

lemma live_more_workers: "pool_live S \<Longrightarrow> pool_live (S\<lparr>sc_workers := sc_workers S @ ws\<rparr>)"
  by (auto simp: pool_live_def intro: has_active_append)

text \<open>After a signal a sleeper is awake, if there is one.\<close>

lemma signal_wakes:
  assumes "cond_signal pk t l c = Done c'" and "cond_ok c"
  shows "cond_ok c' \<and> (sleepers c' = [] \<or> woken c' \<noteq> [])"
  using assms length_remove_nth [of "pk mod length (sleepers c)" "sleepers c"]
  by (auto simp: cond_signal_def cond_ok_def pthread_cond_signal_def Let_def int_length_pred split: if_splits)

lemma broadcast_wakes:
  "cond_broadcast t l c = Done c' \<Longrightarrow> cond_ok c \<Longrightarrow> cond_ok c' \<and> (sleepers c' = [] \<or> woken c' \<noteq> [])"
  by (auto simp: cond_broadcast_def cond_ok_def split: if_splits)

lemma wait_cond_ok: "cond_wait t l c = Done (l', c') \<Longrightarrow> cond_ok c \<Longrightarrow> cond_ok c'"
  by (auto simp: cond_wait_def cond_ok_def Let_def split: if_splits prod.splits)

lemma wake_cond_ok: "cond_wait_return t l c = Done (l', c') \<Longrightarrow> cond_ok c \<Longrightarrow> cond_ok c'"
  by (auto simp: cond_wait_return_def cond_ok_def length_remove1 int_length_pred
      dest!: map_of_SomeD split: option.splits)

lemma live_signalled:
  "cond_ok (sc_cond S) \<Longrightarrow> cond_ok c \<Longrightarrow> sleepers c = [] \<or> woken c \<noteq> [] \<Longrightarrow> pool_live (S\<lparr>sc_cond := c\<rparr>)"
  by (auto simp: pool_live_def)

lemma job_le_refl [simp]: "job_le j j"
  by (simp add: job_le_def)

lemma job_le_trans: "job_le i j \<Longrightarrow> job_le j k \<Longrightarrow> job_le i k"
  by (auto simp: job_le_def)

lemma jobs_le_refl [simp]: "jobs_le s s"
  by (simp add: jobs_le_def)

lemma jobs_le_trans: "jobs_le s s' \<Longrightarrow> jobs_le s' s'' \<Longrightarrow> jobs_le s s''"
  unfolding jobs_le_def by (meson job_le_trans le_trans)

lemma advances_refl [simp]: "advances s s"
  by (simp add: advances_def)

lemma advances_trans: "advances s s' \<Longrightarrow> advances s' s'' \<Longrightarrow> advances s s''"
  unfolding advances_def by (meson jobs_le_trans)

lemma jobs_leD: "jobs_le s s' \<Longrightarrow> js_jobs s p = Some j \<Longrightarrow> \<exists>j'. js_jobs s' p = Some j' \<and> job_le j j'"
  by (simp add: jobs_le_def)

lemma stays_deps_done:
  assumes "deps_done s p" and le: "jobs_le s s'"
  shows "deps_done s' p"
proof -
  from assms(1) obtain j where j: "js_jobs s p = Some j"
    "\<And>d. d \<in> set (jb_deps j) \<Longrightarrow> \<exists>j'. js_jobs s d = Some j' \<and> jb_done j'"
    by (auto simp: deps_done_def)
  have "\<exists>j'. js_jobs s' d = Some j' \<and> jb_done j'" if "d \<in> set (jb_deps j)" for d
    using j(2) [OF that] jobs_leD [OF le, of d] by (auto simp: job_le_def)
  moreover obtain j' where "js_jobs s' p = Some j'" "jb_deps j' = jb_deps j"
    using jobs_leD [OF le j(1)] by (auto simp: job_le_def)
  ultimately show ?thesis by (simp add: deps_done_def)
qed

lemma stays_in_pool: "in_pool s p \<Longrightarrow> jobs_le s s' \<Longrightarrow> in_pool s' p"
  by (auto simp: in_pool_def job_le_def dest!: jobs_leD)

lemma stays_referred:
  assumes "referred s p" and "jobs_le s s'"
  shows "referred s' p"
proof -
  from assms(1) obtain q j where "js_jobs s q = Some j" "p \<in> set (jb_notify j) \<union> set (jb_triggers j)"
    by (auto simp: referred_def)
  with jobs_leD [OF assms(2) this(1)] show ?thesis unfolding referred_def job_le_def by blast
qed

lemma stays_job: "js_jobs s p \<noteq> None \<Longrightarrow> jobs_le s s' \<Longrightarrow> js_jobs s' p \<noteq> None"
  by (auto dest: jobs_leD)

text \<open>A step that queues and refers to nothing new advances.\<close>

lemma quiet_advances:
  assumes "jobs_le s s'" and "\<And>p. in_queue s' p \<Longrightarrow> in_queue s p" and "\<And>p. referred s' p \<Longrightarrow> referred s p"
    and "\<And>p. js_jobs s' p \<noteq> None \<Longrightarrow> js_jobs s p \<noteq> None" and "scheds_live s \<Longrightarrow> scheds_live s'"
  shows "advances s s'"
  unfolding advances_def
proof (intro conjI allI impI)
  fix X
  assume inv: "job_inv X s"
  show "job_inv X s'"
    unfolding job_inv_def
  proof (intro conjI allI impI)
    fix p
    show "in_queue s' p \<Longrightarrow> deps_done s' p"
      using inv assms(2) stays_deps_done [OF _ assms(1)] unfolding job_inv_def by blast
    show "in_pool s' p \<or> (p \<in> X \<and> js_jobs s' p \<noteq> None)" if "in_queue s' p \<or> referred s' p"
    proof -
      have "in_queue s p \<or> referred s p" using that assms(2,3) by blast
      then have "in_pool s p \<or> (p \<in> X \<and> js_jobs s p \<noteq> None)" using inv unfolding job_inv_def by blast
      then show ?thesis using stays_in_pool [OF _ assms(1)] stays_job [OF _ assms(1)] by blast
    qed
    have "next_addr (heap s) \<le> next_addr (heap s')" using assms(1) by (simp add: jobs_le_def)
    then show "js_jobs s' p \<noteq> None \<Longrightarrow> unat p < next_addr (heap s')"
      using inv assms(4) less_le_trans unfolding job_inv_def by blast
    show "scheds_live s'" using inv assms(5) unfolding job_inv_def by blast
  qed
qed (rule assms(1))

lemma quiet_same:
  "js_jobs s' = js_jobs s \<Longrightarrow> (\<And>p. in_queue s' p \<Longrightarrow> in_queue s p) \<Longrightarrow> next_addr (heap s) \<le> next_addr (heap s') \<Longrightarrow>
   (scheds_live s \<Longrightarrow> scheds_live s') \<Longrightarrow> advances s s'"
  by (rule quiet_advances) (simp_all add: jobs_le_def referred_def)

section \<open>Rules\<close>

lemma post_lookup: "(\<And>x. p \<noteq> 0 \<Longrightarrow> m p = Some x \<Longrightarrow> Q x) \<Longrightarrow> post (lookup_ptr m p) Q"
  by (auto simp: lookup_ptr_def split: option.split)

lemma post_the_job: "(\<And>j. p \<noteq> 0 \<Longrightarrow> js_jobs s p = Some j \<Longrightarrow> Q j) \<Longrightarrow> post (the_job p s) Q"
  unfolding the_job_def by (rule post_lookup)

lemma post_the_sched: "(\<And>S. js_scheds s sc = Some S \<Longrightarrow> Q S) \<Longrightarrow> post (the_sched sc s) Q"
  unfolding the_sched_def by (rule post_lookup)

lemma post_scheduler_of: "(\<And>sc. p \<noteq> 0 \<Longrightarrow> Q sc) \<Longrightarrow> post (scheduler_of p s) Q"
  unfolding scheduler_of_def by (simp, rule post_lookup)

lemma post_scheduler_of_job: "(\<And>sc. in_pool s p \<Longrightarrow> Q sc) \<Longrightarrow> post (scheduler_of_job p s) Q"
  unfolding scheduler_of_job_def by (auto intro!: post_the_job post_scheduler_of simp: in_pool_def)

lemma post_all_done:
  "(\<And>b. (b \<Longrightarrow> \<forall>d\<in>set ps. \<exists>j. js_jobs s d = Some j \<and> jb_done j) \<Longrightarrow> Q b) \<Longrightarrow> post (all_done ps s) Q"
proof (induction ps arbitrary: Q)
  case (Cons p ps)
  show ?case by (simp, rule post_the_job) (auto intro!: Cons)
qed simp

lemma post_job_ready: "(\<And>b. (b \<Longrightarrow> deps_done s p) \<Longrightarrow> Q b) \<Longrightarrow> post (job_ready p s) Q"
  unfolding job_ready_def by (auto intro!: post_the_job post_all_done simp: deps_done_def)

text \<open>\<open>calm\<close> operations only let jobs advance.\<close>

lemma heap_simps [simp]:
  "heap (set_heap h s) = h" "js_jobs (set_heap h s) = js_jobs s" "in_queue (set_heap h s) = in_queue s"
  "heap (put_sched sc S s) = heap s" "js_jobs (put_sched sc S s) = js_jobs s"
  "js_scheds (set_heap h s) = js_scheds s"
  "scheds_live (set_heap h s) = scheds_live s" "scheds_live (js_jobs_update f s) = scheds_live s"
  by (simp_all add: heap_def set_heap_def put_sched_def in_queue_def fun_eq_iff scheds_live_def)

lemma set_heap_advances: "next_addr (heap s) \<le> next_addr h \<Longrightarrow> advances s (set_heap h s)"
  by (rule quiet_same) simp_all

lemma put_sched_advances:
  assumes "js_scheds s sc = Some S" and "set (global_queue S') \<subseteq> set (global_queue S)"
    and "\<And>q. q \<in> set (thread_queues S') \<Longrightarrow> set q \<subseteq> (\<Union>q\<in>set (thread_queues S). set q)"
    and "pool_live S \<Longrightarrow> pool_live S'"
  shows "advances s (put_sched sc S' s)"
proof (rule quiet_same)
  fix p
  assume "in_queue (put_sched sc S' s) p"
  then show "in_queue s p"
    using assms(1-3) unfolding in_queue_def put_sched_def by (auto split: if_splits; blast)
qed (use assms(1,4) in \<open>auto simp: scheds_live_def put_sched_def heap_def\<close>)

lemma post_put_sched:
  assumes "js_scheds s sc = Some S" and "global_queue S' = global_queue S" and "thread_queues S' = thread_queues S"
    and "\<And>s'. advances s s' \<Longrightarrow> Q s'" and "pool_live S \<Longrightarrow> pool_live S'"
  shows "Q (put_sched sc S' s)"
  by (rule assms(4), rule put_sched_advances [OF assms(1)]) (use assms(2,3,5) in auto)

lemma post_update_sched:
  assumes "\<And>S. global_queue (f S) = global_queue S" and "\<And>S. thread_queues (f S) = thread_queues S"
    and "\<And>s'. advances s s' \<Longrightarrow> js_jobs s' = js_jobs s \<Longrightarrow> Q s'" and "\<And>S. pool_live S \<Longrightarrow> pool_live (f S)"
  shows "post (update_sched sc f s) Q"
  unfolding update_sched_def
  by (simp, rule post_the_sched, rule assms(3), erule put_sched_advances) (use assms(1,2,4) in auto)

text \<open>An update of a job that only adds.\<close>

lemma update_job_advances:
  assumes "js_jobs s p = Some j" and "job_le j j'" and "set (jb_notify j') = set (jb_notify j)"
    and "set (jb_triggers j') = set (jb_triggers j)"
  shows "advances s (s\<lparr>js_jobs := (js_jobs s)(p \<mapsto> j')\<rparr>)"
proof (rule quiet_advances)
  show "jobs_le s (s\<lparr>js_jobs := (js_jobs s)(p \<mapsto> j')\<rparr>)"
    using assms(1,2) by (auto simp: jobs_le_def heap_def)
  show "referred (s\<lparr>js_jobs := (js_jobs s)(p \<mapsto> j')\<rparr>) q \<Longrightarrow> referred s q" for q
    using assms unfolding referred_def by (auto split: if_splits; blast)
qed (use assms in \<open>auto simp: in_queue_def split: if_splits\<close>)

lemma post_update_job:
  assumes "\<And>j. js_jobs s p = Some j \<Longrightarrow> job_le j (f j)"
    and "\<And>j. set (jb_notify (f j)) = set (jb_notify j)" and "\<And>j. set (jb_triggers (f j)) = set (jb_triggers j)"
    and "\<And>j s'. js_jobs s p = Some j \<Longrightarrow> js_jobs s' p = Some (f j) \<Longrightarrow> advances s s' \<Longrightarrow> Q s'"
  shows "post (update_job p f s) Q"
  unfolding update_job_def
  by (simp, rule post_the_job, rule assms(4))
    (auto simp: assms(2,3) intro!: update_job_advances assms(1))

end
