(* ===== verification/Job_Safety.thy ===== *)
theory Job_Safety
  imports Flow_Post
begin

text \<open>
  Every operation on jobs and schedulers lets jobs advance and keeps what a queued job
  needs; so a job is executed only after its dependencies are done.
\<close>

lemma post_step:
  "post m (advances s) \<Longrightarrow> (\<And>s'. advances s s' \<Longrightarrow> Q s') \<Longrightarrow> post m Q"
  by (rule post_weaken)

lemma post_step2:
  "post m (\<lambda>(r, s'). advances s s') \<Longrightarrow> (\<And>r s'. advances s s' \<Longrightarrow> Q (r, s')) \<Longrightarrow> post m Q"
  by (auto simp: post_def)

section \<open>Locks, conditions and the heap\<close>

lemma post_sched_lock: "(\<And>s'. advances s s' \<Longrightarrow> Q s') \<Longrightarrow> post (sched_lock t sc s) Q"
  unfolding sched_lock_def by (simp, rule post_the_sched, rule post_any, erule post_put_sched) simp_all

lemma post_sched_unlock: "(\<And>s'. advances s s' \<Longrightarrow> Q s') \<Longrightarrow> post (sched_unlock t sc s) Q"
  unfolding sched_unlock_def by (simp, rule post_the_sched, rule post_any, erule post_put_sched) simp_all

lemma post_wakes:
  assumes "js_scheds s sc = Some S" and "\<And>s'. advances s s' \<Longrightarrow> Q s'"
    and "\<And>c. m = Done c \<Longrightarrow> cond_ok (sc_cond S) \<Longrightarrow> cond_ok c \<and> (sleepers c = [] \<or> woken c \<noteq> [])"
  shows "post m (\<lambda>c. Q (put_sched sc (S\<lparr>sc_cond := c\<rparr>) s))"
  unfolding post_def
proof (intro allI impI)
  fix c
  assume c: "m = Done c"
  show "Q (put_sched sc (S\<lparr>sc_cond := c\<rparr>) s)"
    by (rule assms(2), rule put_sched_advances [OF assms(1)])
      (use assms(3) [OF c] in \<open>auto simp: pool_live_def\<close>)
qed

lemma post_signal_cond: "(\<And>s'. advances s s' \<Longrightarrow> Q s') \<Longrightarrow> post (signal_cond pk t sc s) Q"
  unfolding signal_cond_def by (simp, rule post_the_sched, erule post_wakes) (auto dest: signal_wakes)

lemma post_broadcast_cond: "(\<And>s'. advances s s' \<Longrightarrow> Q s') \<Longrightarrow> post (broadcast_cond t sc s) Q"
  unfolding broadcast_cond_def by (simp, rule post_the_sched, erule post_wakes) (auto dest: broadcast_wakes)

lemma post_signal_response: "(\<And>s'. advances s s' \<Longrightarrow> Q s') \<Longrightarrow> post (signal_response pk t sc s) Q"
  unfolding signal_response_def by (simp, rule post_the_sched, rule post_any, erule post_put_sched) simp_all

lemma post_wait_response: "(\<And>s'. advances s s' \<Longrightarrow> Q s') \<Longrightarrow> post (wait_response t sc s) Q"
  unfolding wait_response_def
  by (simp, rule post_the_sched, rule post_any, clarsimp, erule post_put_sched) simp_all

lemma post_resume_response: "(\<And>s'. advances s s' \<Longrightarrow> Q s') \<Longrightarrow> post (resume_response t sc s) Q"
  unfolding resume_response_def
  by (simp, rule post_the_sched, rule post_any, clarsimp, erule post_put_sched) simp_all

lemma post_locked_sched:
  assumes "\<And>s1. advances s s1 \<Longrightarrow> post (body s1) (\<lambda>s2. \<forall>s3. advances s2 s3 \<longrightarrow> Q s3)"
  shows "post (locked_sched t sc body s) Q"
  unfolding locked_sched_def
  by (simp, rule post_sched_lock, rule post_weaken [OF assms], assumption, rule post_sched_unlock) blast

lemma post_on_heap:
  assumes "\<And>h r h'. f h = Done (r, h') \<Longrightarrow> next_addr h \<le> next_addr h'"
    and "\<And>r s'. advances s s' \<Longrightarrow> js_jobs s' = js_jobs s \<Longrightarrow> Q (r, s')"
  shows "post (on_heap f s) Q"
  unfolding on_heap_def post_def
  by (auto simp: map_flow_value_Done_iff intro!: assms(2) set_heap_advances dest: assms(1))

lemma post_heap_only:
  assumes "\<And>h h'. f h = Done h' \<Longrightarrow> next_addr h \<le> next_addr h'"
    and "\<And>s'. advances s s' \<Longrightarrow> js_jobs s' = js_jobs s \<Longrightarrow> Q s'"
  shows "post (f (heap s)) (\<lambda>h. Q (set_heap h s))"
  unfolding post_def by (auto intro!: assms(2) set_heap_advances dest: assms(1))

lemma post_encode_in: "(\<And>r s'. advances s s' \<Longrightarrow> js_jobs s' = js_jobs s \<Longrightarrow> Q (r, s')) \<Longrightarrow> post (encode_in E v s) Q"
  unfolding encode_in_def by (rule post_on_heap) (auto dest: values_keep_next_addr)

lemma post_decode_in: "(\<And>r s'. advances s s' \<Longrightarrow> js_jobs s' = js_jobs s \<Longrightarrow> Q (r, s')) \<Longrightarrow> post (decode_in E str s) Q"
  unfolding decode_in_def by (rule post_on_heap) (auto dest: values_keep_next_addr)

lemma post_reply_object: "(\<And>r s'. advances s s' \<Longrightarrow> js_jobs s' = js_jobs s \<Longrightarrow> Q (r, s')) \<Longrightarrow> post (reply_object ty p s) Q"
  unfolding reply_object_def by (rule post_on_heap) (auto dest: values_keep_next_addr)

lemma post_acquire_in: "(\<And>s'. advances s s' \<Longrightarrow> js_jobs s' = js_jobs s \<Longrightarrow> Q s') \<Longrightarrow> post (acquire_in p s) Q"
  unfolding acquire_in_def by (simp, rule post_heap_only) (auto dest: blackbox_keeps_next_addr)

lemma post_release_in: "(\<And>s'. advances s s' \<Longrightarrow> js_jobs s' = js_jobs s \<Longrightarrow> Q s') \<Longrightarrow> post (release_in p s) Q"
  unfolding release_in_def by (simp, rule post_heap_only) (auto dest: blackbox_keeps_next_addr)

lemma cleanup_keeps_next_addr: "cleanup E t v h = Done h' \<Longrightarrow> next_addr h' = next_addr h"
proof (induction E t v h arbitrary: h' rule: cleanup.induct)
  case (2 E t vs h)
  from 2(2) have "fold_flow (cleanup E t) vs h = Done h'" by simp
  then show ?case
    by (rule fold_flow_invariant [where P = "\<lambda>x. next_addr x = next_addr h"]) (simp_all add: 2(1))
next
  case (3 E t u w a b c h)
  from 3(4) obtain h1 h2 where "cleanup E t a h = Done h1" "cleanup E t b h1 = Done h2" "cleanup E t c h2 = Done h'"
    by (auto simp only: cleanup.simps bind_flow_Done_iff)
  with 3(1-3) show ?case by metis
qed (auto split: if_splits dest: blackbox_keeps_next_addr)

lemma post_cleanup_in: "(\<And>s'. advances s s' \<Longrightarrow> js_jobs s' = js_jobs s \<Longrightarrow> Q s') \<Longrightarrow> post (cleanup_in E t v s) Q"
  unfolding cleanup_in_def by (simp, rule post_heap_only) (auto dest: cleanup_keeps_next_addr)

lemmas lock_rules = post_sched_lock post_sched_unlock post_signal_cond post_broadcast_cond post_signal_response
  post_wait_response post_resume_response
lemmas heap_rules = post_encode_in post_decode_in post_reply_object post_acquire_in post_release_in post_cleanup_in
lemmas read_rules = post_the_job post_the_sched post_scheduler_of post_scheduler_of_job post_job_ready
lemmas calm_rules = lock_rules heap_rules read_rules

section \<open>Putting a job into a queue\<close>

lemma push_advances:
  assumes "js_scheds s sc = Some S" and "deps_done s p" and "in_pool s p \<or> referred s p"
    and "set (global_queue S') \<subseteq> insert p (set (global_queue S))"
    and "\<And>q. q \<in> set (thread_queues S') \<Longrightarrow> set q \<subseteq> insert p (\<Union>q\<in>set (thread_queues S). set q)"
    and "pool_live S \<Longrightarrow> pool_live S'"
  shows "advances s (put_sched sc S' s)"
proof -
  have queued: "q = p \<or> in_queue s q" if "in_queue (put_sched sc S' s) q" for q
    using that assms(1,4,5) unfolding in_queue_def put_sched_def by (auto split: if_splits; blast)
  have le: "jobs_le s (put_sched sc S' s)" by (simp add: jobs_le_def)
  have same: "referred (put_sched sc S' s) q = referred s q" "deps_done (put_sched sc S' s) q = deps_done s q"
    "in_pool (put_sched sc S' s) q = in_pool s q" for q
    by (simp_all add: referred_def deps_done_def in_pool_def)
  have live: "scheds_live s \<Longrightarrow> scheds_live (put_sched sc S' s)"
    using assms(1,6) by (simp add: scheds_live_def put_sched_def)
  have "job_inv X (put_sched sc S' s)" if "job_inv X s" for X
    using that queued live assms(2,3) unfolding job_inv_def same heap_simps by blast
  with le show ?thesis by (simp add: advances_def)
qed

text \<open>A job that is queued must be signalled.\<close>

lemma post_push_signal:
  assumes "deps_done s p" and "in_pool s p \<or> referred s p" and "\<And>s'. advances s s' \<Longrightarrow> Q s'"
  shows "post (push_global sc p s) (\<lambda>s. post (signal_cond pk t sc s) Q)"
  unfolding push_global_def update_sched_def signal_cond_def
proof (simp, rule post_the_sched, rule post_the_sched)
  fix S S' :: scheduler
  let ?S = "S\<lparr>global_queue := global_queue S @ [p]\<rparr>"
  assume S: "js_scheds s sc = Some S" and "js_scheds (put_sched sc ?S s) sc = Some S'"
  then have S': "S' = ?S" by (simp add: put_sched_def)
  show "post (cond_signal pk t (sc_lock S') (sc_cond S')) (\<lambda>c. Q (put_sched sc (S'\<lparr>sc_cond := c\<rparr>) (put_sched sc ?S s)))"
    unfolding post_def
  proof (intro allI impI)
    fix c
    assume c: "cond_signal pk t (sc_lock S') (sc_cond S') = Done c"
    have "advances s (put_sched sc (?S\<lparr>sc_cond := c\<rparr>) s)"
      by (rule push_advances [OF S assms(1,2)])
        (use signal_wakes [OF c] in \<open>auto simp: S' pool_live_def\<close>)
    then show "Q (put_sched sc (S'\<lparr>sc_cond := c\<rparr>) (put_sched sc ?S s))"
      using assms(3) by (simp add: S' put_sched_def)
  qed
qed

lemma advances_le: "advances s s' \<Longrightarrow> jobs_le s s'"
  by (simp add: advances_def)

lemmas stays = stays_deps_done [OF _ advances_le] stays_in_pool [OF _ advances_le] stays_referred [OF _ advances_le]

lemma queueJob_advances:
  assumes "deps_done s p" and "in_pool s p \<or> referred s p"
  shows "post (queueJob pk t sc p s) (advances s)"
  unfolding queueJob_def
proof (rule post_locked_sched, simp)
  fix s1
  assume s1: "advances s s1"
  show "post (push_global sc p s1) (\<lambda>x. post (signal_cond pk t sc x) (\<lambda>s2. \<forall>s3. advances s2 s3 \<longrightarrow> advances s s3))"
    using assms s1 by (intro post_push_signal) (blast intro: stays advances_trans)+
qed

text \<open>Attaching a job to a pool.\<close>

lemma add_pending_advances:
  assumes "pool \<noteq> 0"
  shows "post (add_pending sc pool p s) (advances s)"
  unfolding add_pending_def using assms
  by (auto intro!: post_the_sched post_update_job post_update_sched simp: job_le_def intro: advances_trans)

lemma attach_rest_advances:
  assumes "pool \<noteq> 0" and "in_pool s p"
  shows "post (acquire_in p s) (\<lambda>s1. post (job_ready p s1) (\<lambda>ready. post (the_job p s1) (\<lambda>j.
    post (if ready then bind_flow (push_global sc p s1) (signal_cond pk t sc)
          else if pending_index j < 0 then add_pending sc pool p s1 else Done s1) (advances s))))"
proof (intro post_acquire_in post_job_ready post_the_job)
  fix s1 b j
  assume s1: "advances s s1" and ready: "b \<Longrightarrow> deps_done s1 p"
  have p: "in_pool s1 p" using assms(2) s1 by (rule stays)
  show "post (if b then bind_flow (push_global sc p s1) (signal_cond pk t sc)
      else if pending_index j < 0 then add_pending sc pool p s1 else Done s1) (advances s)"
    using s1 p ready assms(1)
    by (auto intro!: post_push_signal add_pending_advances [THEN post_step] intro: advances_trans)
qed

lemma attachJob_advances:
  assumes "pool \<noteq> 0"
  shows "post (attachJob pk t sc pool p s) (\<lambda>s'. advances s s' \<and> in_pool s' p)"
  unfolding attachJob_def
proof (rule post_locked_sched, simp only: post_simps, rule post_the_sched, rule post_update_job)
  fix s1 S j s2
  assume s1: "advances s s1" and s2: "js_jobs s2 p = Some (j\<lparr>jb_pool := pool, jb_id := next_jobid S\<rparr>)" "advances s1 s2"
  then have p: "in_pool s2 p" using assms by (simp add: in_pool_def)
  show "post (update_sched sc (\<lambda>S. S\<lparr>next_jobid := next_jobid S + 1\<rparr>) s2) (\<lambda>x. post (acquire_in p x) (\<lambda>x.
      post (job_ready p x) (\<lambda>ready. post (the_job p x) (\<lambda>j.
        post (if ready then bind_flow (push_global sc p x) (signal_cond pk t sc)
              else if pending_index j < 0 then add_pending sc pool p x else Done x)
          (\<lambda>s4. \<forall>s5. advances s4 s5 \<longrightarrow> advances s s5 \<and> in_pool s5 p)))))"
  proof (rule post_update_sched)
    fix s3 assume s3: "advances s2 s3"
    then have "in_pool s3 p" by (rule stays(2) [OF p])
    note rest = attach_rest_advances [OF assms this, of sc pk t]
    show "post (acquire_in p s3) (\<lambda>x. post (job_ready p x) (\<lambda>ready. post (the_job p x) (\<lambda>j.
        post (if ready then bind_flow (push_global sc p x) (signal_cond pk t sc)
              else if pending_index j < 0 then add_pending sc pool p x else Done x)
          (\<lambda>s4. \<forall>s5. advances s4 s5 \<longrightarrow> advances s s5 \<and> in_pool s5 p))))"
      unfolding post_simps(5) [symmetric]
      by (rule post_weaken [OF rest [folded post_simps(5)]]) (metis advances_trans s1 s2(2) s3 stays(2) p)
  qed simp_all
qed (use assms in \<open>simp_all add: job_le_def\<close>)

section \<open>Cancelling, executing, triggers\<close>

lemma cancelDeps_advances:
  assumes "\<And>p s. post (cancelJob k t sc p s) (advances s)"
  shows "post (cancelDeps k t sc ps s) (advances s)"
proof (induction ps arbitrary: s)
  case (Cons p ps)
  show ?case
    by (auto intro!: post_the_job Cons [THEN post_step] assms [THEN post_step] intro: advances_trans)
qed simp

lemma cancelJob_advances: "post (cancelJob k t sc p s) (advances s)"
proof (induction k arbitrary: p s)
  case (Suc k)
  show ?case
  proof (simp only: cancelJob.simps, rule post_locked_sched, simp only: post_simps, rule post_the_job)
    fix s1 j
    assume s1: "advances s s1" and j: "js_jobs s1 p = Some j"
    show "post (if \<not> jb_cancelled j then
         bind_flow (update_job p (\<lambda>j. j\<lparr>jb_cancelled := True\<rparr>) s1) (\<lambda>s.
         if \<not> jb_running j \<and> \<not> jb_done j then
           bind_flow (update_job p (\<lambda>j. j\<lparr>jb_done := True\<rparr>) s) (cancelDeps k t sc (jb_notify j))
         else Done s)
       else Done s1) (\<lambda>s2. \<forall>s3. advances s2 s3 \<longrightarrow> advances s s3)"
      using s1
      by (auto intro!: post_update_job [where p = p] cancelDeps_advances [OF Suc, THEN post_step] simp: job_le_def)
        (meson advances_trans)+
  qed
qed simp

lemma fold_advances:
  assumes "\<And>x s. x \<in> set xs \<Longrightarrow> post (f x s) (advances s)"
  shows "post (fold_flow f xs s) (advances s)"
  by (rule post_fold_flow) (auto intro!: assms [THEN post_step] intro: advances_trans)

lemma append_args_advances: "post (append_args E strs (argv, s)) (\<lambda>(argv', s'). advances s s')"
  unfolding append_args_def
proof (rule post_fold_flow, simp, clarsimp)
  fix str argv' s'
  assume s': "advances s s'"
  show "post (on_heap (appendArg E argv' str) s') (\<lambda>(argv', s'). advances s s')"
    by (rule post_on_heap)
      (use s' in \<open>auto simp: appendArg_def map_flow_value_Done_iff split: if_splits
        dest: values_keep_next_addr intro: advances_trans\<close>)
qed

lemma job_argv_advances: "post (job_argv E j s) (\<lambda>(argv, s'). advances s s')"
  unfolding job_argv_def
  by (auto intro!: append_args_advances [THEN post_step2] post_any [where m = "results_of _ _"] intro: advances_trans)

lemma set_job_result_advances: "post (set_job_result E t p v s) (advances s)"
  unfolding set_job_result_def
  by (auto intro!: heap_rules post_update_job simp: job_le_def) (meson advances_trans)

lemma decode_all_advances: "post (decode_all E strs s) (\<lambda>(vs, s'). advances s s')"
proof (induction strs arbitrary: s)
  case (Cons str strs)
  show ?case by (auto intro!: heap_rules Cons [THEN post_step2] intro: advances_trans)
qed simp

lemma acc_execute_advances: "post (acc_execute E p strs s) (advances s)"
  unfolding acc_execute_def
  by (auto intro!: decode_all_advances [THEN post_step2] heap_rules post_update_job simp: job_le_def)
    (meson advances_trans)

text \<open>The functions of raw kernel jobs may create objects, but use no address twice.\<close>

definition kernel_ok :: "job_env \<Rightarrow> bool" where
  "kernel_ok J \<longleftrightarrow> (\<forall>f ds h. next_addr h \<le> next_addr (je_raw_kernel J f ds h))"

lemma execute_advances:
  assumes "kernel_ok J"
  shows "post (execute J t p s) (advances s)"
  unfolding execute_def Let_def
proof (simp only: post_simps, rule post_the_job)
  fix j
  note rules = heap_rules job_argv_advances [THEN post_step2] set_job_result_advances [THEN post_step]
    acc_execute_advances [THEN post_step]
  show "post (case jb_kind j of
       EvalJob \<Rightarrow>
         (case jb_args j of [] \<Rightarrow> Crash Out_of_bounds
          | str # _ \<Rightarrow> bind_flow (decode_in (je_env J) str s) (\<lambda>(v, s). set_job_result (je_env J) t p v s))
     | ExecJob \<Rightarrow>
         (case jb_args j of [] \<Rightarrow> Crash Out_of_bounds
          | str # _ \<Rightarrow> bind_flow (decode_in (je_env J) str s) (\<lambda>(v, s). cleanup_in (je_env J) t v s))
     | ProcJob procname \<Rightarrow>
         bind_flow (job_argv (je_env J) j s) (\<lambda>(argv, s).
         case executeProc (je_env J) procname argv of
           Inl err \<Rightarrow> Done s
         | Inr v \<Rightarrow> set_job_result (je_env J) t p v s)
     | KernelJob f \<Rightarrow>
         bind_flow (job_argv (je_env J) j s) (\<lambda>(argv, s).
         if argv = [] then Crash Out_of_bounds else set_job_result (je_env J) t p (je_kernel J f argv) s)
     | RawKernelJob f \<Rightarrow> Done (set_heap (je_raw_kernel J f (jb_deps j) (heap s)) s)
     | AccTrigger _ \<Rightarrow> acc_execute (je_env J) p (jb_args j) s
     | _ \<Rightarrow> Done s) (advances s)"
    using assms
    by (auto split: job_kind.split list.split sum.split intro!: rules set_heap_advances simp: kernel_ok_def
        intro: advances_trans)
qed

lemma acc_activate_advances: "post (acc_activate E p vs s) (advances s)"
proof (induction vs arbitrary: s)
  case (Cons v vs)
  show ?case
    by (auto intro!: read_rules heap_rules post_update_job [where p = p] Cons [THEN post_step] simp: job_le_def)
      (meson advances_trans)+
qed simp

lemma activate_advances: "post (activate E t p args s) (advances s)"
proof -
  have count: "post (count_activate p n s) (advances s)" for n
    unfolding count_activate_def by (auto intro!: read_rules post_update_job simp: job_le_def)
  have set: "post (set_activate p seen n args s) (advances s)" for seen n
    unfolding set_activate_def
    by (auto intro!: read_rules post_update_job post_any [where m = "int_arg _"] simp: job_le_def Let_def
        split: list.split)
  have "post (proc_activate E t p nm args s) (advances s)" for nm
    unfolding proc_activate_def
    by (auto intro!: calm_rules append_args_advances [THEN post_step2] post_update_job simp: job_le_def
        split: sum.split) (meson advances_trans)+
  then show ?thesis
    unfolding activate_def
    by (auto intro!: read_rules count set acc_activate_advances split: job_kind.split)
qed

section \<open>Notification\<close>

lemma notify_job_advances: "referred s next \<Longrightarrow> post (notify_job pk t sc next s) (advances s)"
  unfolding notify_job_def
proof (simp only: post_simps, rule post_the_job)
  fix j
  assume ref: "referred s next"
  have queue: "post (queueJob pk t sc next s') (advances s)" if "advances s s'" "deps_done s next" for s'
    by (rule post_weaken [OF queueJob_advances]) (use that ref stays in \<open>blast intro: advances_trans\<close>)+
  show "post (if jb_queued j then Done s
     else bind_flow (job_ready next s) (\<lambda>ready.
       if ready \<and> \<not> jb_cancelled j then
         bind_flow (update_job next (\<lambda>j. j\<lparr>jb_queued := True\<rparr>) s) (queueJob pk t sc next)
       else Done s)) (advances s)"
    by (auto intro!: post_job_ready post_update_job queue simp: job_le_def)
qed

lemma notify_trigger_advances:
  assumes "referred s trigger"
  shows "post (notify_trigger E t sc args trigger s) (advances s)"
proof -
  have queue: "post (queueJob pk t sc trigger s') (advances s)" if "advances s s'" "deps_done s' trigger" for pk s'
    by (rule post_weaken [OF queueJob_advances]) (use that stays(3) [OF assms that(1)] in \<open>blast intro: advances_trans\<close>)+
  show ?thesis
    unfolding notify_trigger_def
    by (auto intro!: post_any [where m = "accepts _ _ _ _"] activate_advances [THEN post_step] post_job_ready queue)
qed

lemma referred_fold_advances:
  assumes "\<And>x. x \<in> set xs \<Longrightarrow> referred s x" and "\<And>x s. referred s x \<Longrightarrow> post (f x s) (advances s)"
  shows "post (fold_flow f xs s) (advances s)"
proof (rule post_fold_flow)
  fix x s'
  assume "x \<in> set xs" and s': "advances s s'"
  then have "referred s' x" using assms(1) by (auto intro: stays)
  from assms(2) [OF this] show "post (f x s') (advances s)" by (rule post_step) (use s' in \<open>blast intro: advances_trans\<close>)
qed simp

lemma post_bind: "post m (\<lambda>x. post (f x) Q) \<Longrightarrow> post (bind_flow m f) Q"
  by simp

lemma notify_triggers_advances:
  assumes "\<And>x. x \<in> set (jb_triggers j) \<Longrightarrow> referred s x"
  shows "post
      (if jb_triggers j \<noteq> [] \<and> jb_result j \<noteq> [] then map_flow_value (apfst Some) (decode_in E (jb_result j) s)
       else Done (None, s)) (\<lambda>(arg, s1). post
        (bind_flow (fold_flow (notify_trigger E t sc (case arg of Some v \<Rightarrow> [v] | None \<Rightarrow> [])) (jb_triggers j) s1) (\<lambda>s.
         case arg of Some v \<Rightarrow> cleanup_in E t v s | None \<Rightarrow> Done s)) (advances s))"
proof -
  have run: "post (bind_flow (fold_flow (notify_trigger E t sc args) (jb_triggers j) s1) f) (advances s)"
    if "advances s s1" "js_jobs s1 = js_jobs s" "\<And>s2. advances s s2 \<Longrightarrow> post (f s2) (advances s)" for args s1 f
  proof (rule post_bind, rule post_step, rule referred_fold_advances)
    show "x \<in> set (jb_triggers j) \<Longrightarrow> referred s1 x" for x
      using assms that(2) by (simp add: referred_def)
  qed (use that in \<open>auto intro!: notify_trigger_advances intro: advances_trans\<close>)
  show ?thesis
    by (auto simp del: post_simps(5) intro!: heap_rules run) (meson advances_trans)
qed

lemma notifyDeps_advances: "post (notifyDeps E t sc p s) (advances s)"
  unfolding notifyDeps_def
proof (rule post_bind, rule post_the_job, rule post_bind, unfold post_simps(6), rule post_heap_only)
  show "incref p n h = Done h' \<Longrightarrow> next_addr h \<le> next_addr h'" for n h h'
    by (simp add: blackbox_keeps_next_addr)
  fix j s1
  assume j: "js_jobs s p = Some j" and s1: "advances s s1" "js_jobs s1 = js_jobs s"
  then have ref: "x \<in> set (jb_notify j) \<Longrightarrow> referred s1 x" for x by (auto simp: referred_def)
  show "post (bind_flow (fold_flow (notify_job (pick E) t sc) (jb_notify j) s1) (\<lambda>s.
     bind_flow (the_job p s) (\<lambda>j.
     bind_flow
       (if jb_triggers j \<noteq> [] \<and> jb_result j \<noteq> [] then map_flow_value (apfst Some) (decode_in E (jb_result j) s)
        else Done (None, s)) (\<lambda>(arg, s).
     bind_flow (fold_flow (notify_trigger E t sc (case arg of Some v \<Rightarrow> [v] | None \<Rightarrow> [])) (jb_triggers j) s) (\<lambda>s.
     case arg of Some v \<Rightarrow> cleanup_in E t v s | None \<Rightarrow> Done s))))) (advances s)"
  proof (rule post_bind, rule post_step, rule referred_fold_advances, erule ref, erule notify_job_advances,
      rule post_bind, rule post_the_job, rule post_bind)
    fix s2 j'
    assume s2: "advances s1 s2" and j': "js_jobs s2 p = Some j'"
    then have s02: "advances s s2" using s1 by (blast intro: advances_trans)
    have ref': "x \<in> set (jb_triggers j') \<Longrightarrow> referred s2 x" for x using j' by (auto simp: referred_def)
    show "post (if jb_triggers j' \<noteq> [] \<and> jb_result j' \<noteq> [] then map_flow_value (apfst Some) (decode_in E (jb_result j') s2)
        else Done (None, s2)) (\<lambda>x. post (case x of (arg, s) \<Rightarrow>
     bind_flow (fold_flow (notify_trigger E t sc (case arg of Some v \<Rightarrow> [v] | None \<Rightarrow> [])) (jb_triggers j') s) (\<lambda>s.
     case arg of Some v \<Rightarrow> cleanup_in E t v s | None \<Rightarrow> Done s)) (advances s))"
      by (rule post_weaken [OF notify_triggers_advances [OF ref']], assumption)
        (auto simp del: post_simps(5) elim!: post_weaken intro: advances_trans [OF s02])
  qed
qed

section \<open>Workers\<close>

lemma post_jobs_untouched:
  assumes "js_jobs s' = js_jobs s" and "js_scheds s' = js_scheds s" and "heap s' = heap s"
    and "\<And>s'. advances s s' \<Longrightarrow> Q s'"
  shows "Q s'"
  by (rule assms(4), rule quiet_same) (simp_all add: assms in_queue_def scheds_live_def)

lemma run_begin_advances: "post (run_begin t p s) (\<lambda>(b, s'). advances s s')"
  unfolding run_begin_def
  by (auto intro!: calm_rules post_update_job simp: job_le_def) (meson advances_trans)

lemma run_end_advances: "kernel_ok J \<Longrightarrow> post (run_end J t p s) (advances s)"
  unfolding run_end_def
  by (auto intro!: execute_advances [THEN post_step] calm_rules post_update_job simp: job_le_def) (meson advances_trans)

lemma job_run_advances: "kernel_ok J \<Longrightarrow> post (job_run J t p s) (advances s)"
  unfolding job_run_def
  by (auto intro!: run_begin_advances [THEN post_step2] run_end_advances [THEN post_step] intro: advances_trans)

lemma current_job_advances [simp]:
  "advances (s\<lparr>currentJobRef := f\<rparr>) s' \<longleftrightarrow> advances s s'"
proof -
  have "advances s (s\<lparr>currentJobRef := f\<rparr>)" "advances (s\<lparr>currentJobRef := f\<rparr>) s"
    by (rule quiet_same; simp add: in_queue_def heap_def scheds_live_def)+
  then show ?thesis by (blast intro: advances_trans)
qed

lemma main_after_advances: "post (main_after E t sc p s) (advances s)"
  unfolding main_after_def
  by (auto intro!: notifyDeps_advances [THEN post_step] calm_rules) (meson advances_trans)

lemma main_run_advances: "post (main_run E t sc p s) (\<lambda>(w, s'). advances s s')"
  unfolding main_run_def
  by (auto intro!: calm_rules run_begin_advances [THEN post_step2] main_after_advances [THEN post_step])
    (meson advances_trans)+

lemma pop_advances:
  assumes "js_scheds s sc = Some S"
  shows "num < length (thread_queues S) \<Longrightarrow> thread_queues S ! num = p # rest \<Longrightarrow>
      advances s (put_sched sc (S\<lparr>thread_queues := (thread_queues S)[num := rest]\<rparr>) s)"
    and "advances s (put_sched sc (S\<lparr>global_queue := remove_nth i (global_queue S)\<rparr>) s)"
proof -
  show "advances s (put_sched sc (S\<lparr>thread_queues := (thread_queues S)[num := rest]\<rparr>) s)"
    if "num < length (thread_queues S)" "thread_queues S ! num = p # rest"
  proof (rule put_sched_advances [OF assms])
    fix q assume "q \<in> set (thread_queues (S\<lparr>thread_queues := (thread_queues S)[num := rest]\<rparr>))"
    then have "q = rest \<or> q \<in> set (thread_queues S)" by (auto dest: mem_update_cases)
    moreover have "set rest \<subseteq> set (thread_queues S ! num)" using that by auto
    ultimately show "set q \<subseteq> (\<Union>q\<in>set (thread_queues S). set q)"
      using that(1) nth_mem by fastforce
  qed (simp_all add: pool_live_def)
  show "advances s (put_sched sc (S\<lparr>global_queue := remove_nth i (global_queue S)\<rparr>) s)"
    by (rule put_sched_advances [OF assms]) (auto simp: remove_nth_def dest: in_set_takeD in_set_dropD live_fewer [of S i])
qed

lemma main_pass_advances: "post (main_pass E t sc num target s) (\<lambda>(w, s'). advances s s')"
  unfolding main_pass_def
proof (rule post_bind, rule post_the_sched, rule post_bind, rule post_any)
  fix S finished
  assume S: "js_scheds s sc = Some S"
  have pop: "post (bind_flow (update_sched sc (\<lambda>S. S\<lparr>thread_queues := (thread_queues S)[num := rest]\<rparr>) s)
      (main_run E t sc p)) (\<lambda>(w, s'). advances s s')"
    if "num < length (thread_queues S)" "thread_queues S ! num = p # rest" for p rest
    using pop_advances(1) [OF S that] S
    by (auto simp: update_sched_def intro!: post_the_sched main_run_advances [THEN post_step2] intro: advances_trans)
  have pop_global: "post (bind_flow (update_sched sc (\<lambda>S. S\<lparr>global_queue := remove_nth i (global_queue S)\<rparr>) s)
      (main_run E t sc p)) (\<lambda>(w, s'). advances s s')" for p i
    using advances_trans [OF pop_advances(2) [OF S]] S
    by (auto simp: update_sched_def intro!: post_the_sched main_run_advances [THEN post_step2])
  have stop: "post (bind_flow (update_sched sc (\<lambda>S. S\<lparr>shutdown_counter := shutdown_counter S + 1\<rparr>) s) (\<lambda>s.
       bind_flow (signal_response (pick E) t sc s) (\<lambda>s.
       map_flow_value (Pair W_exit) (sched_unlock t sc s)))) (\<lambda>(w, s'). advances s s')"
    by (auto intro!: post_update_sched lock_rules) (meson advances_trans)
  have wait: "post (cond_wait t (sc_lock S) (sc_cond S))
      (\<lambda>(l, c). advances s (put_sched sc (S\<lparr>sc_lock := l, sc_cond := c\<rparr>) s))" if "global_queue S = []"
    using that by (auto simp: post_def pool_live_def dest: wait_cond_ok intro!: put_sched_advances [OF S])
  show "post (if finished then map_flow_value (Pair W_exit) (sched_unlock t sc s)
     else if shutting_down S then
       bind_flow (update_sched sc (\<lambda>S. S\<lparr>shutdown_counter := shutdown_counter S + 1\<rparr>) s) (\<lambda>s.
       bind_flow (signal_response (pick E) t sc s) (\<lambda>s.
       map_flow_value (Pair W_exit) (sched_unlock t sc s)))
     else if length (thread_queues S) \<le> num then Crash Out_of_bounds
     else case thread_queues S ! num of
       p # rest \<Rightarrow>
         bind_flow (update_sched sc (\<lambda>S. S\<lparr>thread_queues := (thread_queues S)[num := rest]\<rparr>) s)
           (main_run E t sc p)
     | [] \<Rightarrow>
         (case global_queue S of
            _ # _ \<Rightarrow>
              let i = queue_top (pick E) (job_after s) (global_queue S); p = global_queue S ! i
              in bind_flow (update_sched sc (\<lambda>S. S\<lparr>global_queue := remove_nth i (global_queue S)\<rparr>) s)
                   (main_run E t sc p)
          | [] \<Rightarrow>
              if single_threaded S then map_flow_value (Pair W_exit) (sched_unlock t sc s)
              else map_flow_value (\<lambda>(l, c). (W_wait, put_sched sc (S\<lparr>sc_lock := l, sc_cond := c\<rparr>) s))
                     (cond_wait t (sc_lock S) (sc_cond S)))) (\<lambda>(w, s'). advances s s')"
    by (auto simp: Let_def simp del: post_simps(5) intro!: pop pop_global stop lock_rules
        wait [THEN post_weaken] split: list.split)
qed

lemma main_finish_advances: "kernel_ok J \<Longrightarrow> post (main_finish J t sc p s) (\<lambda>(w, s'). advances s s')"
  unfolding main_finish_def
  by (auto intro!: run_end_advances [THEN post_step] main_after_advances [THEN post_step] intro: advances_trans)

lemma thread_init_heap: "thread_init t T = Done T' \<Longrightarrow> th_shared T' = th_shared T"
  by (auto simp: thread_init_def bind_flow_Done_iff map_flow_value_Done_iff)

lemma threads_advance: "th_shared T = th_shared (js_threads s) \<Longrightarrow> advances s (s\<lparr>js_threads := T\<rparr>)"
  by (rule quiet_same) (simp_all add: in_queue_def heap_def scheds_live_def)

lemma main_start_advances: "post (main_start t sc s) (\<lambda>(w, s'). advances s s')"
proof -
  have init: "post (thread_init t (js_threads s)) (\<lambda>T. advances s (s\<lparr>js_threads := T\<rparr>))"
    by (auto simp: post_def intro: threads_advance dest: thread_init_heap)
  show ?thesis
    unfolding main_start_def
    by (auto intro!: post_the_sched lock_rules init [THEN post_weaken] intro: advances_trans)
qed

text \<open>
  A worker may become idle only when there is nothing to do; that is where the main loop
  lets it wait or leave.
\<close>

definition nothing_to_do :: "addr \<Rightarrow> job_sys \<Rightarrow> bool" where
  "nothing_to_do sc s \<longleftrightarrow> (\<forall>S. js_scheds s sc = Some S \<longrightarrow> global_queue S = [] \<or> shutting_down S)"

lemma active_update: "active_worker w \<Longrightarrow> has_active (AList.update t (num, w) ws)"
  by (auto simp: has_active_def update_conv')

lemma set_worker_advances:
  assumes "active_worker w \<or> nothing_to_do sc s"
  shows "post (set_worker sc t num w s) (advances s)"
proof -
  have fin: "advances s s' \<Longrightarrow> advances s (s'\<lparr>js_threads := set_slot i ts (js_threads s')\<rparr>)" for s' i ts
    by (erule advances_trans, rule threads_advance) (simp add: set_slot_def)
  have upd: "advances s (put_sched sc (S\<lparr>sc_workers := AList.update t (num, w) (sc_workers S)\<rparr>) s)"
    if S: "js_scheds s sc = Some S" for S
    using assms S by (intro put_sched_advances [OF S]) (auto simp: pool_live_def nothing_to_do_def active_update)
  show ?thesis
    unfolding set_worker_def update_sched_def
    by (cases "w = W_exit") (use upd in \<open>auto simp: Let_def intro!: post_the_sched fin\<close>)
qed

lemma post_waking:
  assumes "\<And>S l c. js_scheds s sc = Some S \<Longrightarrow> cond_wait_return t (sc_lock S) (sc_cond S) = Done (l, c) \<Longrightarrow>
      post (f (W_loop, put_sched sc (S\<lparr>sc_lock := l, sc_cond := c\<rparr>) s)) Q"
  shows "post (bind_flow (main_wake t sc s) f) Q"
  unfolding main_wake_def by (simp, rule post_the_sched, subst post_def) (auto intro: assms)

lemma waking_advances: "post (bind_flow (main_wake t sc s) (\<lambda>(w, s). set_worker sc t num w s)) (advances s)"
proof (rule post_waking, simp add: set_worker_def update_sched_def, rule post_the_sched)
  fix S S' :: scheduler and l c
  let ?S = "S\<lparr>sc_lock := l, sc_cond := c\<rparr>"
  assume S: "js_scheds s sc = Some S" and c: "cond_wait_return t (sc_lock S) (sc_cond S) = Done (l, c)"
    and "js_scheds (put_sched sc ?S s) sc = Some S'"
  then have S': "S' = ?S" by (simp add: put_sched_def)
  have "advances s (put_sched sc (?S\<lparr>sc_workers := AList.update t (num, W_loop) (sc_workers S)\<rparr>) s)"
    using wake_cond_ok [OF c] by (intro put_sched_advances [OF S]) (auto simp: pool_live_def active_update)
  then show "advances s (put_sched sc (S'\<lparr>sc_workers := AList.update t (num, W_loop) (sc_workers S')\<rparr>) (put_sched sc ?S s))"
    by (simp add: S' put_sched_def)
qed

lemma main_run_active: "post (main_run E t sc p s) (\<lambda>(w, s'). active_worker w)"
  unfolding main_run_def
  by (rule post_bind, rule post_any, rule post_bind, rule post_any, rule post_bind, rule post_any)
    (auto intro: post_any)

lemma main_pass_idle: "post (main_pass E t sc num 0 s) (\<lambda>(w, s'). active_worker w \<or> nothing_to_do sc s')"
  unfolding main_pass_def
proof (simp only: post_simps if_not_P [of "(0::addr) \<noteq> 0"] not_False_eq_True simp_thms if_False, rule post_the_sched)
  fix S
  assume S: "js_scheds s sc = Some S"
  have run: "post (bind_flow m (main_run E t sc p)) (\<lambda>(w, s'). active_worker w \<or> nothing_to_do sc s')" for m p
    by (rule post_bind, rule post_any, rule post_weaken [OF main_run_active]) auto
  have unlock: "post (sched_unlock t sc s') (nothing_to_do sc)" if "nothing_to_do sc s'" for s'
    using that unfolding sched_unlock_def
    by (auto simp: nothing_to_do_def put_sched_def intro!: post_the_sched post_any [where m = "unlock_lock _ _"])
  have idle: "nothing_to_do sc s" if "global_queue S = [] \<or> shutting_down S"
    using S that by (simp add: nothing_to_do_def)
  have stop: "post (bind_flow (update_sched sc (\<lambda>S. S\<lparr>shutdown_counter := shutdown_counter S + 1\<rparr>) s) (\<lambda>s.
       bind_flow (signal_response (pick E) t sc s) (\<lambda>s.
       map_flow_value (Pair W_exit) (sched_unlock t sc s)))) (\<lambda>(w, s'). active_worker w \<or> nothing_to_do sc s')"
    if "shutting_down S"
    by (simp add: update_sched_def signal_response_def, rule post_the_sched, rule post_the_sched, rule post_any,
        rule post_weaken [OF unlock]) (use that S in \<open>auto simp: nothing_to_do_def put_sched_def\<close>)
  have wait: "nothing_to_do sc (put_sched sc (S\<lparr>sc_lock := l, sc_cond := c\<rparr>) s)" if "global_queue S = []" for l c
    using that by (simp add: nothing_to_do_def put_sched_def)
  show "post (if shutting_down S then
       bind_flow (update_sched sc (\<lambda>S. S\<lparr>shutdown_counter := shutdown_counter S + 1\<rparr>) s) (\<lambda>s.
       bind_flow (signal_response (pick E) t sc s) (\<lambda>s.
       map_flow_value (Pair W_exit) (sched_unlock t sc s)))
     else if length (thread_queues S) \<le> num then Crash Out_of_bounds
     else case thread_queues S ! num of
       p # rest \<Rightarrow>
         bind_flow (update_sched sc (\<lambda>S. S\<lparr>thread_queues := (thread_queues S)[num := rest]\<rparr>) s)
           (main_run E t sc p)
     | [] \<Rightarrow>
         (case global_queue S of
            _ # _ \<Rightarrow>
              let i = queue_top (pick E) (job_after s) (global_queue S); p = global_queue S ! i
              in bind_flow (update_sched sc (\<lambda>S. S\<lparr>global_queue := remove_nth i (global_queue S)\<rparr>) s)
                   (main_run E t sc p)
          | [] \<Rightarrow>
              if single_threaded S then map_flow_value (Pair W_exit) (sched_unlock t sc s)
              else map_flow_value (\<lambda>(l, c). (W_wait, put_sched sc (S\<lparr>sc_lock := l, sc_cond := c\<rparr>) s))
                     (cond_wait t (sc_lock S) (sc_cond S)))) (\<lambda>(w, s'). active_worker w \<or> nothing_to_do sc s')"
    by (auto simp: Let_def simp del: post_simps(5) intro!: run stop unlock idle
        post_any [where m = "cond_wait _ _ _"] wait split: list.split)
qed

lemma worker_step_advances:
  assumes "kernel_ok J"
  shows "post (worker_step J t sc s) (advances s)"
proof -
  have worker: "post (bind_flow m (\<lambda>(w, s). set_worker sc t num w s)) (advances s)"
    if "post m (\<lambda>(w, s'). advances s s')" and "post m (\<lambda>(w, s'). active_worker w \<or> nothing_to_do sc s')" for m num
    using post_conj [OF that]
    by (auto elim!: post_weaken intro!: set_worker_advances [THEN post_step] intro: advances_trans)
  have start: "post (main_start t sc s) (\<lambda>(w, s'). active_worker w \<or> nothing_to_do sc s')" for sc s
    by (auto simp: main_start_def intro!: post_any)
  have finish: "post (main_finish J t sc p s) (\<lambda>(w, s'). active_worker w \<or> nothing_to_do sc s')" for sc p s
    by (auto simp: main_finish_def intro!: post_any)
  show ?thesis
    unfolding worker_step_def
    by (auto simp del: post_simps(5) intro!: post_bind [OF post_the_sched] worker main_start_advances start finish
        main_pass_advances main_pass_idle waking_advances main_finish_advances assms split: option.split worker.split)
qed

lemma main_loop_advances: "kernel_ok J \<Longrightarrow> post (main_loop k J t sc target s) (advances s)"
proof (induction k arbitrary: s)
  case (Suc k)
  note rules = main_pass_advances [THEN post_step2] main_finish_advances [OF Suc.prems, THEN post_step2]
    Suc.IH [OF Suc.prems, THEN post_step]
  show ?case by (auto intro!: rules split: worker.split) (meson advances_trans)+
qed simp

lemma main_single_advances: "kernel_ok J \<Longrightarrow> post (main_single k J t sc target s) (advances s)"
  unfolding main_single_def
  by (auto intro!: heap_rules main_start_advances [THEN post_step2] main_loop_advances [THEN post_step])
    (meson advances_trans)

lemma wait_loop_advances: "post (wait_loop pk t sc p s) (\<lambda>(b, s'). advances s s')"
  unfolding wait_loop_def by (auto intro!: post_the_job lock_rules intro: advances_trans)

lemma waitJob_advances:
  "kernel_ok J \<Longrightarrow> post (sched_waitJob k J t sc p s) (\<lambda>(b, s'). advances s s')"
  "post (sched_waitJob_wake pk t sc p s) (\<lambda>(b, s'). advances s s')"
  unfolding sched_waitJob_def sched_waitJob_wake_def
  by (auto intro!: post_the_sched lock_rules main_single_advances [THEN post_step]
      wait_loop_advances [THEN post_step2] intro: advances_trans)

lemma shutdown_stop_advances: "post (shutdown_stop t sc s) (\<lambda>(ph, s'). advances s s')"
  unfolding shutdown_stop_def by (auto intro!: post_the_sched lock_rules intro: advances_trans)

lemma shutdown_drain_advances: "post (shutdown_drain w t sc s) (\<lambda>(ph, s'). advances s s')"
  unfolding shutdown_drain_def
  by (auto intro!: post_the_sched lock_rules post_update_sched shutdown_stop_advances [THEN post_step2] live_shutting_down
      intro: advances_trans)

lemma shutdown_advances:
  "kernel_ok J \<Longrightarrow> post (sched_shutdown k J w t sc s) (\<lambda>(ph, s'). advances s s')"
  "post (shutdown_wake t sc ph s) (\<lambda>(ph, s'). advances s s')"
proof -
  show "kernel_ok J \<Longrightarrow> post (sched_shutdown k J w t sc s) (\<lambda>(ph, s'). advances s s')"
    unfolding sched_shutdown_def
    by (auto intro!: post_the_sched lock_rules main_single_advances [THEN post_step]
        shutdown_drain_advances [THEN post_step2] intro: advances_trans)
  have "join_thread_state t i T \<noteq> Done T'" for i T T'
    by (auto simp: join_thread_state_def bind_flow_Done_iff)
  then have "post (join_thread_state t i T) Q" for i T Q by (simp add: post_def)
  then show "post (shutdown_wake t sc ph s) (\<lambda>(ph, s'). advances s s')"
    unfolding shutdown_wake_def
    by (auto intro!: post_the_sched lock_rules shutdown_stop_advances [THEN post_step2]
        shutdown_drain_advances [THEN post_step2] split: shutdown_phase.split intro: advances_trans)
qed

section \<open>What a worker takes\<close>

lemma main_run_takes: "post (main_run E t sc p s) (\<lambda>(w, s'). \<forall>q. w = W_run q \<longrightarrow> q = p)"
  unfolding main_run_def
  by (auto intro!: post_the_sched lock_rules post_any [where m = "run_begin _ _ _"] post_any [where m = "main_after _ _ _ _ _"])

lemma queue_top_less: "q \<noteq> [] \<Longrightarrow> queue_top pk after q < length q"
  by (auto simp: queue_top_def find_Some_iff split: option.split)

lemma main_pass_takes: "post (main_pass E t sc num target s) (\<lambda>(w, s'). \<forall>p. w = W_run p \<longrightarrow> in_queue s p)"
  unfolding main_pass_def
proof (rule post_bind, rule post_the_sched, rule post_bind, rule post_any)
  fix S finished
  assume S: "js_scheds s sc = Some S"
  have take: "post (bind_flow m (main_run E t sc p)) (\<lambda>(w, s'). \<forall>p. w = W_run p \<longrightarrow> in_queue s p)"
    if "in_queue s p" for m p
    by (rule post_bind, rule post_any, rule post_weaken [OF main_run_takes]) (use that in auto)
  have own: "in_queue s p" if "num < length (thread_queues S)" "thread_queues S ! num = p # rest" for p rest
  proof -
    have "p \<in> set (thread_queues S ! num)" using that(2) by simp
    with S nth_mem [OF that(1)] show ?thesis unfolding in_queue_def by blast
  qed
  have global: "in_queue s ((y # ys) ! queue_top pk after (y # ys))" if "global_queue S = y # ys" for pk after y ys
  proof -
    have "(y # ys) ! queue_top pk after (y # ys) \<in> set (global_queue S)"
      using nth_mem [OF queue_top_less, of "y # ys" pk after] that by simp
    with S show ?thesis unfolding in_queue_def by blast
  qed
  have stop: "post (bind_flow m (\<lambda>s. bind_flow (m' s) (\<lambda>s. map_flow_value (Pair W_exit) (m'' s))))
      (\<lambda>(w, s'). \<forall>p. w = W_run p \<longrightarrow> in_queue s p)" for m :: "job_sys flow" and m' m'' :: "job_sys \<Rightarrow> job_sys flow"
    by (rule post_bind, rule post_any, rule post_bind, rule post_any, simp, rule post_any, simp)
  show "post (if finished then map_flow_value (Pair W_exit) (sched_unlock t sc s)
     else if shutting_down S then
       bind_flow (update_sched sc (\<lambda>S. S\<lparr>shutdown_counter := shutdown_counter S + 1\<rparr>) s) (\<lambda>s.
       bind_flow (signal_response (pick E) t sc s) (\<lambda>s.
       map_flow_value (Pair W_exit) (sched_unlock t sc s)))
     else if length (thread_queues S) \<le> num then Crash Out_of_bounds
     else case thread_queues S ! num of
       p # rest \<Rightarrow>
         bind_flow (update_sched sc (\<lambda>S. S\<lparr>thread_queues := (thread_queues S)[num := rest]\<rparr>) s)
           (main_run E t sc p)
     | [] \<Rightarrow>
         (case global_queue S of
            _ # _ \<Rightarrow>
              let i = queue_top (pick E) (job_after s) (global_queue S); p = global_queue S ! i
              in bind_flow (update_sched sc (\<lambda>S. S\<lparr>global_queue := remove_nth i (global_queue S)\<rparr>) s)
                   (main_run E t sc p)
          | [] \<Rightarrow>
              if single_threaded S then map_flow_value (Pair W_exit) (sched_unlock t sc s)
              else map_flow_value (\<lambda>(l, c). (W_wait, put_sched sc (S\<lparr>sc_lock := l, sc_cond := c\<rparr>) s))
                     (cond_wait t (sc_lock S) (sc_cond S)))) (\<lambda>(w, s'). \<forall>p. w = W_run p \<longrightarrow> in_queue s p)"
    using own global
    by (auto simp: Let_def simp del: post_simps(5) intro!: take stop post_any [where m = "sched_unlock _ _ _"]
        post_any [where m = "cond_wait _ _ _"] split: list.split)
qed

end
