(* ===== verification/Job_Runs.thy ===== *)
theory Job_Runs
  imports Job_Safety Trigger_Commands
begin

text \<open>
  The commands on pools, jobs and triggers keep what a queued job needs: those that create
  or schedule jobs keep the invariant, the others only let jobs advance.
\<close>

section \<open>New jobs and more arguments\<close>

lemma inv_advances: "job_inv X s \<Longrightarrow> advances s s' \<Longrightarrow> job_inv X s'"
  by (simp add: advances_def)

lemma post_inv:
  "job_inv X s \<Longrightarrow> post m (\<lambda>(r, s'). advances s s') \<Longrightarrow> post m (\<lambda>(r, s'). job_inv X s')"
  by (auto elim!: post_step2 intro: inv_advances)

lemma post_new_object: "(\<And>p s'. advances s s' \<Longrightarrow> js_jobs s' = js_jobs s \<Longrightarrow> Q (p, s')) \<Longrightarrow> post (new_object ty nm s) Q"
  unfolding new_object_def by (rule post_on_heap) (auto simp: allocate_def Let_def split: if_splits)

lemma alloc_job_inv:
  assumes inv: "job_inv X s"
  shows "post (alloc_job E k s) (\<lambda>(p, s'). job_inv X s' \<and> js_jobs s' p = Some (new_job k))"
proof -
  have new: "unat p = next_addr (heap s) \<and> js_jobs s1 = js_jobs s \<and> js_scheds s1 = js_scheds s \<and>
      next_addr (heap s1) = next_addr (heap s) + 1"
    if "new_object ty nm s = Done (p, s1)" for ty nm p s1
    using that by (auto simp: new_object_def on_heap_def map_flow_value_Done_iff allocate_def Let_def unat_of_nat
        set_heap_def heap_def split: if_splits)
  have "job_inv X (s1\<lparr>js_jobs := (js_jobs s1)(p \<mapsto> new_job k)\<rparr>)" if "new_object ty nm s = Done (p, s1)" for ty nm p s1
  proof -
    let ?s = "s1\<lparr>js_jobs := (js_jobs s1)(p \<mapsto> new_job k)\<rparr>"
    note n = new [OF that]
    have p: "js_jobs s p = None" using inv n unfolding job_inv_def by (metis less_irrefl)
    have le: "jobs_le s ?s"
      using n p by (auto simp: jobs_le_def heap_def)
    have "in_queue ?s q = in_queue s q" for q using n by (simp add: in_queue_def)
    moreover have "referred ?s q \<Longrightarrow> referred s q" for q
      using n by (auto simp: referred_def new_job_def split: if_splits)
    moreover have "js_jobs ?s q \<noteq> None \<longleftrightarrow> q = p \<or> js_jobs s q \<noteq> None" for q using n by simp
    moreover have "next_addr (heap ?s) = next_addr (heap s) + 1" using n by (simp add: heap_def)
    moreover have "scheds_live ?s = scheds_live s" using n by (simp add: scheds_live_def)
    ultimately show ?thesis
      using inv n stays_deps_done [OF _ le] stays_in_pool [OF _ le] unfolding job_inv_def
      by (metis less_Suc_eq Suc_eq_plus1)
  qed
  then show ?thesis by (auto simp: alloc_job_def post_def map_flow_value_Done_iff)
qed

lemma addJobArgs_advances: "post (addJobArgs_unlocked E p vs s) (advances s)"
  unfolding addJobArgs_unlocked_def
proof (rule fold_advances)
  fix v s
  show "post (bind_flow (encode_in E v s) (\<lambda>(str, s). update_job p (\<lambda>j. j\<lparr>jb_args := jb_args j @ [str]\<rparr>) s)) (advances s)"
    by (auto intro!: heap_rules post_update_job simp: job_le_def) (meson advances_trans)
qed

text \<open>A job may come to refer to jobs that belong to a pool.\<close>

lemma add_refs_advances:
  assumes "js_jobs s p = Some j" and "job_le j j'"
    and "\<And>q. q \<in> set (jb_notify j') \<union> set (jb_triggers j') \<Longrightarrow> referred s q \<or> in_pool s q"
  shows "advances s (s\<lparr>js_jobs := (js_jobs s)(p \<mapsto> j')\<rparr>)"
proof -
  let ?s = "s\<lparr>js_jobs := (js_jobs s)(p \<mapsto> j')\<rparr>"
  have le: "jobs_le s ?s" using assms(1,2) by (auto simp: jobs_le_def heap_def)
  have ref: "referred ?s q \<Longrightarrow> referred s q \<or> in_pool s q" for q
    using assms(3) unfolding referred_def by (auto split: if_splits)
  have queue: "in_queue ?s q = in_queue s q" "next_addr (heap ?s) = next_addr (heap s)"
    "js_jobs ?s q \<noteq> None \<longleftrightarrow> js_jobs s q \<noteq> None" for q
    using assms(1) by (simp_all add: in_queue_def heap_def)
  have "job_inv X ?s" if "job_inv X s" for X
    unfolding job_inv_def queue
  proof (intro conjI allI impI)
    fix q
    show "in_queue s q \<Longrightarrow> deps_done ?s q"
      using that stays_deps_done [OF _ le] unfolding job_inv_def by blast
    show "in_queue s q \<or> referred ?s q \<Longrightarrow> in_pool ?s q \<or> q \<in> X \<and> js_jobs s q \<noteq> None"
      using that ref [of q] stays_in_pool [OF _ le, of q] unfolding job_inv_def by blast
    show "js_jobs s q \<noteq> None \<Longrightarrow> unat q < next_addr (heap s)" using that unfolding job_inv_def by blast
    show "scheds_live ?s" using that by (simp add: job_inv_def)
  qed
  with le show ?thesis by (simp add: advances_def)
qed

section \<open>Pools\<close>

lemma new_ThreadPool_advances: "post (new_ThreadPool E n s) (\<lambda>(pool, sc, s'). advances s s')"
proof -
  have "advances s1 (s1\<lparr>js_scheds := (js_scheds s1)(sc \<mapsto> new_scheduler n), js_pools := f\<rparr>)" for s1 sc f
    by (rule quiet_same)
      (auto simp: in_queue_def new_scheduler_def heap_def scheds_live_def pool_live_def cond_ok_def new_cond_def split: if_splits)
  note new = advances_trans [OF this]
  show ?thesis
    unfolding new_ThreadPool_def
    by (auto intro!: post_new_object post_acquire_in dest!: new) (meson advances_trans)
qed

lemma newThread_heap: "newThread f created t T = Done (r, T') \<Longrightarrow> th_shared T' = th_shared T"
  by (auto simp: newThread_def bind_flow_Done_iff map_flow_value_Done_iff split: option.splits)

lemma addThread_advances: "post (addThread sc i s) (advances s)"
  unfolding addThread_def update_sched_def
  by (auto intro!: post_the_sched put_sched_advances)

lemma create_workers_advances: "post (create_workers created t ref sc nums s) (\<lambda>(err, s'). advances s s')"
proof (induction nums arbitrary: s)
  case (Cons num nums)
  have thread: "post (newThread f c t (js_threads s)) (\<lambda>(r, T). advances s (s\<lparr>js_threads := T\<rparr>))" for f c s
    by (auto simp: post_def intro: threads_advance dest: newThread_heap)
  show ?case
    by (auto intro!: heap_rules thread [THEN post_weaken] addThread_advances [THEN post_step] post_update_sched live_more_workers
        Cons [THEN post_step2] split: sum.split) (meson advances_trans)+
qed simp

lemma pool_commands_advance:
  assumes "kernel_ok J"
  shows "post (createThreadPool created J t args s) (\<lambda>(r, s'). advances s s')"
    "post (closeThreadPool k J t args s) (\<lambda>(r, s'). advances s s')"
    "post (closeThreadPool_wake t sc ph s) (\<lambda>(r, s'). advances s s')"
    "post (currentThreadPool J t args s) (\<lambda>(r, s'). advances s s')"
    "post (setCurrentThreadPool J t args s) (\<lambda>(r, s'). advances s s')"
proof -
  have current: "advances s' s \<Longrightarrow> advances s' (s\<lparr>currentThreadPoolRef := f\<rparr>)" for s s' f
    by (erule advances_trans, rule quiet_same) (simp_all add: in_queue_def heap_def scheds_live_def)
  show "post (createThreadPool created J t args s) (\<lambda>(r, s'). advances s s')"
    unfolding createThreadPool_def Let_def
    by (rule post_run_command)
      (auto simp: fails_def intro!: post_any [where m = "int_arg _"] new_ThreadPool_advances [THEN post_weaken]
        create_workers_advances [THEN post_step2] heap_rules split: option.split, (meson advances_trans)+)
  show "post (closeThreadPool k J t args s) (\<lambda>(r, s'). advances s s')"
    unfolding closeThreadPool_def Let_def
    by (rule post_run_command)
      (auto simp: shutdown_reply_def intro!: post_any [where m = "int_arg _"] post_any [where m = "shared_arg _"]
        post_scheduler_of shutdown_advances(1) [OF assms, THEN post_step2])
  show "post (closeThreadPool_wake t sc ph s) (\<lambda>(r, s'). advances s s')"
    unfolding closeThreadPool_wake_def by (auto simp: shutdown_reply_def intro!: shutdown_advances(2) [THEN post_step2])
  show "post (currentThreadPool J t args s) (\<lambda>(r, s'). advances s s')"
    unfolding currentThreadPool_def by (rule post_run_command) (auto simp: fails_def intro!: heap_rules)
  show "post (setCurrentThreadPool J t args s) (\<lambda>(r, s'). advances s s')"
    unfolding setCurrentThreadPool_def
    by (rule post_run_command)
      (auto intro!: heap_rules post_any [where m = "shared_arg _"] current intro: advances_trans)
qed

section \<open>Commands that create jobs\<close>

lemma attachJob_inv:
  assumes "pool \<noteq> 0"
  shows "post (attachJob pk t sc pool p s) (advances s)"
  by (rule post_weaken [OF attachJob_advances [OF assms]]) simp

text \<open>Once a job is allocated, the rest of a command only lets jobs advance.\<close>

lemma post_alloc_job:
  assumes "job_inv X s"
    and "\<And>p s'. job_inv X s' \<Longrightarrow> js_jobs s' p = Some (new_job k) \<Longrightarrow> post (f (p, s')) (\<lambda>(r, s''). advances s' s'')"
  shows "post (bind_flow (alloc_job E k s) f) (\<lambda>(r, s'). job_inv X s')"
  by (rule post_bind, rule post_weaken [OF alloc_job_inv [OF assms(1)]], clarify, rule post_inv) (auto intro: assms(2))

lemma createJob_inv:
  assumes "job_inv X s"
  shows "post (createJob J t args s) (\<lambda>(r, s'). job_inv X s')"
  unfolding createJob_def Let_def
  using assms
  by (intro post_run_command)
    (auto simp del: post_simps(5) simp: fails_def intro!: post_bind [OF post_any, where m = "str_arg _"] post_alloc_job
      post_bind [OF addJobArgs_advances [THEN post_step]] post_bind [OF post_reply_object] heap_rules intro: advances_trans)

lemma start_job_advances: "post (start_job E t pool prio extra (p, s)) (\<lambda>(r, s'). advances s s')"
  unfolding start_job_def
  by (auto simp: fails_def job_le_def intro!: addJobArgs_advances [THEN post_step] post_the_job post_update_job
      post_scheduler_of attachJob_inv [THEN post_step] heap_rules) (meson advances_trans)+

lemma startJob_inv:
  assumes "job_inv X s"
  shows "post (startJob J t args s) (\<lambda>(r, s'). job_inv X s')"
proof -
  have new: "post (bind_flow (bind_flow m (\<lambda>nm. alloc_job E (ProcJob nm) s)) (start_job E t pool prio extra))
      (\<lambda>(r, s'). job_inv X s')" for m E pool prio extra
    unfolding bind_flow_assoc
    by (rule post_bind, rule post_any, rule post_alloc_job [OF assms], rule start_job_advances)
  have old: "post (bind_flow (map_flow_value (\<lambda>p. (p, s)) m) (start_job E t pool prio extra))
      (\<lambda>(r, s'). job_inv X s')" for m E pool prio extra
    by (rule post_bind, simp, rule post_any, rule post_inv [OF assms], rule start_job_advances)
  show ?thesis
    unfolding startJob_def Let_def
    using assms new old
    by (intro post_run_command)
      (auto simp del: post_simps(5) simp: fails_def intro!: post_bind [OF post_any, where m = "prio_arg _ _"]
        post_bind [OF post_any, where m = "pool_arg _ _ _ _"])
qed

lemma push_queues_advances:
  assumes "deps_done s p" and "in_pool s p"
  shows "post (push_queues sc p is s) (advances s)"
  using assms
proof (induction "is" arbitrary: s)
  case (Cons i "is")
  have push: "post (update_sched sc (\<lambda>S. S\<lparr>thread_queues := (thread_queues S)[i := thread_queues S ! i @ [p]]\<rparr>) s1) (advances s1)"
    if "deps_done s1 p" "in_pool s1 p" for s1
    unfolding update_sched_def
  proof (simp, rule post_the_sched, rule push_advances)
    fix S q
    assume "js_scheds s1 sc = Some S"
      and q: "q \<in> set (thread_queues (S\<lparr>thread_queues := (thread_queues S)[i := thread_queues S ! i @ [p]]\<rparr>))"
    show "set q \<subseteq> insert p (\<Union>q\<in>set (thread_queues S). set q)"
    proof (cases "i < length (thread_queues S)")
      case True
      then have "set (thread_queues S ! i) \<subseteq> (\<Union>q\<in>set (thread_queues S). set q)"
        using nth_mem by blast
      with q show ?thesis by (auto dest!: mem_update_cases)
    qed (use q in \<open>auto simp: list_update_beyond\<close>)
  qed (use that in auto)
  show ?case
  proof (simp, rule post_acquire_in, rule post_step [OF push])
    fix s1 s2
    assume s: "advances s s1" "advances s1 s2"
    then have "deps_done s2 p" "in_pool s2 p" using Cons.prems by (blast intro: stays)+
    from Cons.IH [OF this] show "post (push_queues sc p is s2) (advances s)"
      by (rule post_step) (use s in \<open>meson advances_trans\<close>)
  qed (use Cons.prems in \<open>blast intro: stays\<close>)+
qed simp

lemma broadcastJob_advances:
  assumes "deps_done s p" and "in_pool s p"
  shows "post (broadcastJob t sc p s) (advances s)"
  unfolding broadcastJob_def
proof (rule post_locked_sched, simp, rule post_the_sched)
  fix s1 S
  assume s1: "advances s s1"
  then have "deps_done s1 p" "in_pool s1 p" using assms by (blast intro: stays)+
  then show "post (push_queues sc p [0..<length (thread_queues S)] s1) (\<lambda>s2. \<forall>s3. advances s2 s3 \<longrightarrow> advances s s3)"
    by (rule push_queues_advances [THEN post_step]) (use s1 in \<open>meson advances_trans\<close>)
qed

lemma threadPoolExec_inv:
  assumes "job_inv X s"
  shows "post (threadPoolExec J t args s) (\<lambda>(r, s'). job_inv X s')"
proof -
  let ?E = "je_env J"
  have new: "post (bind_flow (alloc_job ?E ExecJob s1) (\<lambda>(p, s).
        bind_flow (update_job p (\<lambda>j. j\<lparr>jb_args := [expr], jb_pool := pool\<rparr>) s) (\<lambda>s.
        bind_flow (scheduler_of pool s) (\<lambda>sc.
        map_flow_value (Pair (Reply L_none)) (broadcastJob t sc p s))))) (\<lambda>(r, s'). job_inv X s')"
    if "job_inv X s1" for s1 expr pool
  proof (rule post_alloc_job [OF that], simp, rule post_update_job)
    fix p :: addr and s2 s3 :: job_sys and j
    assume new: "js_jobs s2 p = Some (new_job ExecJob)"
    show "js_jobs s2 p = Some j \<Longrightarrow> job_le j (j\<lparr>jb_args := [expr], jb_pool := pool\<rparr>)" for j
      using new by (auto simp: new_job_def job_le_def)
    assume s3: "js_jobs s2 p = Some j" "js_jobs s3 p = Some (j\<lparr>jb_args := [expr], jb_pool := pool\<rparr>)" "advances s2 s3"
    with new have p: "deps_done s3 p" "pool \<noteq> 0 \<Longrightarrow> in_pool s3 p"
      by (auto simp: deps_done_def in_pool_def new_job_def)
    show "post (scheduler_of pool s3) (\<lambda>sc. post (broadcastJob t sc p s3) (advances s2))"
      by (rule post_scheduler_of, rule broadcastJob_advances [THEN post_step, OF p(1) p(2)])
        (use s3 in \<open>meson advances_trans\<close>)+
  qed simp_all
  show ?thesis
    unfolding threadPoolExec_def Let_def
    using assms new inv_advances
    by (auto simp del: post_simps(5) simp: fails_def intro!: post_run_command post_bind [OF post_encode_in]
        post_bind [OF post_any, where m = "shared_arg _"] post_bind [OF post_any, where m = "Done _"])
qed

lemma createTrigger_inv:
  assumes "job_inv X s"
  shows "post (createTrigger J t args s) (\<lambda>(r, s'). job_inv X s')"
proof -
  let ?E = "je_env J"
  have new: "post (bind_flow (alloc_job ?E k s) (\<lambda>(p, s).
         bind_flow (scheduler_of pool s) (\<lambda>sc.
         bind_flow (attachJob (pick ?E) t sc pool p s) (reply_object (type_trigger (types ?E)) p))))
       (\<lambda>(r, s'). job_inv X s')" for k pool
    by (rule post_alloc_job [OF assms])
      (auto intro!: post_scheduler_of attachJob_inv [THEN post_step] heap_rules intro: advances_trans)
  show ?thesis
    unfolding createTrigger_def Let_def
    using assms new
    by (auto simp del: post_simps(5) simp: fails_def intro!: post_run_command post_bind [OF post_any, where m = "pool_arg _ _ _ _"]
        post_bind [OF post_any, where m = "bind_flow _ str_arg"] post_bind [OF post_any, where m = "trigger_kind _ _"]
        split: sum.split)
qed

section \<open>Commands on jobs and triggers\<close>

lemma wait_reply_advances: "post (wait_reply J p (b, s)) (\<lambda>(r, s'). advances s s')"
  unfolding wait_reply_def by (auto simp: fails_def intro!: post_the_job heap_rules)

lemma job_commands_advance:
  assumes "kernel_ok J"
  shows "post (waitJob k J t args s) (\<lambda>(r, s'). advances s s')"
    "post (waitJob_wake J t sc p s) (\<lambda>(r, s'). advances s s')"
    "post (cancelJob_command k J t args s) (\<lambda>(r, s'). advances s s')"
    "post (jobCancelled J t args s) (\<lambda>(r, s'). advances s s')"
    "post (currentJob J t args s) (\<lambda>(r, s'). advances s s')"
    "post (updateTrigger J t args s) (\<lambda>(r, s'). advances s s')"
    "post (testTrigger J t args s) (\<lambda>(r, s'). advances s s')"
proof -
  note any = post_any [where m = "shared_arg _"]
  show "post (waitJob k J t args s) (\<lambda>(r, s'). advances s s')"
    unfolding waitJob_def
    by (rule post_run_command)
      (auto simp: fails_def intro!: any post_the_job post_scheduler_of waitJob_advances(1) [OF assms, THEN post_step2]
        wait_reply_advances [THEN post_step2] intro: advances_trans)
  show "post (waitJob_wake J t sc p s) (\<lambda>(r, s'). advances s s')"
    unfolding waitJob_wake_def
    by (auto intro!: waitJob_advances(2) [THEN post_step2] wait_reply_advances [THEN post_step2] intro: advances_trans)
  show "post (cancelJob_command k J t args s) (\<lambda>(r, s'). advances s s')"
    unfolding cancelJob_command_def
    by (rule post_run_command)
      (auto simp: fails_def intro!: any post_the_job post_scheduler_of cancelJob_advances [THEN post_step])
  show "post (jobCancelled J t args s) (\<lambda>(r, s'). advances s s')"
    unfolding jobCancelled_def
    by (auto simp: fails_def intro!: any post_run_command post_the_job post_scheduler_of lock_rules
        intro: advances_trans)
  show "post (currentJob J t args s) (\<lambda>(r, s'). advances s s')"
    unfolding currentJob_def by (rule post_run_command) (auto simp: fails_def intro!: heap_rules)
  note any = any post_any [where m = "accepts _ _ _ _"]
  show "post (updateTrigger J t args s) (\<lambda>(r, s'). advances s s')"
    unfolding updateTrigger_def Let_def
    by (rule post_run_command)
      (auto simp: fails_def intro!: any post_scheduler_of_job lock_rules activate_advances [THEN post_step] post_job_ready
        job_run_advances [OF assms, THEN post_step] notifyDeps_advances [THEN post_step], (meson advances_trans)+)
  show "post (testTrigger J t args s) (\<lambda>(r, s'). advances s s')"
    unfolding testTrigger_def Let_def
    by (rule post_run_command)
      (auto intro!: any post_scheduler_of_job lock_rules post_job_ready intro: advances_trans)
qed

lemma chainTrigger_advances: "post (chainTrigger J t args s) (\<lambda>(r, s'). advances s s')"
proof -
  have chain: "post (locked_sched t sc (update_job p (\<lambda>j. j\<lparr>jb_triggers := jb_triggers j @ [trigger]\<rparr>)) s) (advances s)"
    if "in_pool s trigger" for sc p trigger
  proof (rule post_locked_sched)
    fix s1
    assume s1: "advances s s1"
    then have pool: "in_pool s1 trigger" using that by (blast intro: stays)
    show "post (update_job p (\<lambda>j. j\<lparr>jb_triggers := jb_triggers j @ [trigger]\<rparr>) s1)
        (\<lambda>s2. \<forall>s3. advances s2 s3 \<longrightarrow> advances s s3)"
      unfolding update_job_def
    proof (simp, rule post_the_job, intro allI impI)
      fix j s3
      assume j: "js_jobs s1 p = Some j"
        and s3: "advances (s1\<lparr>js_jobs := (js_jobs s1)(p \<mapsto> j\<lparr>jb_triggers := jb_triggers j @ [trigger]\<rparr>)\<rparr>) s3"
      have "advances s1 (s1\<lparr>js_jobs := (js_jobs s1)(p \<mapsto> j\<lparr>jb_triggers := jb_triggers j @ [trigger]\<rparr>)\<rparr>)"
        by (rule add_refs_advances [OF j]) (use j pool in \<open>auto simp: job_le_def referred_def\<close>)
      then show "advances s s3" using s1 s3 by (meson advances_trans)
    qed
  qed
  show ?thesis
    unfolding chainTrigger_def Let_def
    by (rule post_run_command)
      (auto simp: fails_def in_pool_def intro!: post_any [where m = "shared_arg _"] post_the_job post_scheduler_of
        chain [THEN post_step])
qed

lemma name_commands_advance:
  "post (setSharedName J t args s) (\<lambda>(r, s'). advances s s')"
  "post (getSharedName J t args s) (\<lambda>(r, s'). advances s s')"
proof -
  have lock: "advances s' (s\<lparr>js_name_lock := l\<rparr>) \<longleftrightarrow> advances s' s" "advances (s\<lparr>js_name_lock := l\<rparr>) s' \<longleftrightarrow> advances s s'"
    for s s' l
  proof -
    have "advances s (s\<lparr>js_name_lock := l\<rparr>)" "advances (s\<lparr>js_name_lock := l\<rparr>) s"
      by (rule quiet_same; simp add: in_queue_def heap_def scheds_live_def)+
    then show "advances s' (s\<lparr>js_name_lock := l\<rparr>) \<longleftrightarrow> advances s' s"
      "advances (s\<lparr>js_name_lock := l\<rparr>) s' \<longleftrightarrow> advances s s'" by (blast intro: advances_trans)+
  qed
  have named: "post (with_name_lock t (on_heap f) s) (\<lambda>(r, s'). advances s s')"
    if "\<And>h r h'. f h = Done (r, h') \<Longrightarrow> next_addr h \<le> next_addr h'" for f
    unfolding with_name_lock_def
    by (auto simp: lock intro!: post_any [where m = "lock_lock _ _"] post_any [where m = "unlock_lock _ _"] post_on_heap that)
  show "post (setSharedName J t args s) (\<lambda>(r, s'). advances s s')"
    unfolding setSharedName_def Let_def
    by (auto simp: fails_def bind_flow_Done_iff simp del: run_checks.simps intro!: post_any [where m = "nth_arg _ _"] post_any [where m = "run_checks _ _"]
        post_any [where m = "check_named _ _"] post_any [where m = "shared_arg _"] post_any [where m = "str_arg _"]
        post_run_command named split: option.split)
  show "post (getSharedName J t args s) (\<lambda>(r, s'). advances s s')"
    unfolding getSharedName_def Let_def
    by (auto simp: fails_def bind_flow_Done_iff simp del: run_checks.simps intro!: post_any [where m = "nth_arg _ _"] post_any [where m = "run_checks _ _"]
        post_any [where m = "check_named _ _"] post_any [where m = "shared_arg _"] named split: option.split)
qed

section \<open>Scheduling jobs with dependencies\<close>

definition unscheduled :: "job_sys \<Rightarrow> addr \<Rightarrow> bool" where
  "unscheduled s p \<longleftrightarrow> (\<exists>j. js_jobs s p = Some j \<and> jb_pool j = 0)"

lemma unscheduled_not_queued: "job_inv {} s \<Longrightarrow> unscheduled s p \<Longrightarrow> \<not> in_queue s p"
  by (auto simp: job_inv_def unscheduled_def in_pool_def)

lemma referred_update:
  assumes "js_jobs s p = Some j" and "jb_notify j' = jb_notify j" and "jb_triggers j' = jb_triggers j"
  shows "referred (s\<lparr>js_jobs := (js_jobs s)(p \<mapsto> j')\<rparr>) q = referred s q"
proof
  assume "referred s q"
  then obtain r i where r: "js_jobs s r = Some i" "q \<in> set (jb_notify i) \<union> set (jb_triggers i)"
    by (auto simp: referred_def)
  then show "referred (s\<lparr>js_jobs := (js_jobs s)(p \<mapsto> j')\<rparr>) q"
    unfolding referred_def using assms by (intro exI [of _ r] exI [of _ "if r = p then j' else i"]) auto
qed (use assms in \<open>auto simp: referred_def split: if_splits\<close>)

text \<open>New dependencies of a job that is in no queue.\<close>

lemma addDep_inv:
  assumes inv: "job_inv {} s" and p: "unscheduled s p"
  shows "post (addDep deps p s) (\<lambda>s'. job_inv {} s' \<and> (\<forall>q. unscheduled s q \<longrightarrow> unscheduled s' q))"
proof -
  from p obtain j where j: "js_jobs s p = Some j" by (auto simp: unscheduled_def)
  let ?s = "s\<lparr>js_jobs := (js_jobs s)(p \<mapsto> j\<lparr>jb_deps := jb_deps j @ deps\<rparr>)\<rparr>"
  have same: "in_queue ?s q = in_queue s q" "referred ?s q = referred s q" "in_pool ?s q = in_pool s q"
    "unscheduled ?s q = unscheduled s q" "heap ?s = heap s" "scheds_live ?s = scheds_live s" "js_jobs ?s q = None \<longleftrightarrow> js_jobs s q = None" for q
    using j by (auto simp: in_queue_def referred_update [OF j] in_pool_def unscheduled_def heap_def)
  have finished: "(\<exists>j'. js_jobs ?s d = Some j' \<and> jb_done j') \<longleftrightarrow> (\<exists>j'. js_jobs s d = Some j' \<and> jb_done j')" for d
    using j by auto
  have "deps_done ?s q" if "in_queue s q" for q
  proof -
    have "q \<noteq> p" using that unscheduled_not_queued [OF inv p] by blast
    moreover have "deps_done s q" using inv that unfolding job_inv_def by blast
    ultimately show ?thesis unfolding deps_done_def finished by simp
  qed
  then have "job_inv {} ?s"
    using inv unfolding job_inv_def same by blast
  then show ?thesis using j by (auto simp: addDep_def update_job_def same intro!: post_the_job)
qed

lemma check_jobs_unscheduled:
  "post (check_jobs prio ps s) (\<lambda>(ok, s'). advances s s' \<and> (\<forall>q. unscheduled s q \<longrightarrow> unscheduled s' q) \<and>
     (ok \<longrightarrow> (\<forall>p\<in>set ps. unscheduled s' p)))"
proof (induction ps arbitrary: s)
  case (Cons p ps)
  have prio: "advances s s1 \<and> (\<forall>q. unscheduled s q \<longrightarrow> unscheduled s1 q)"
    if "js_jobs s p = Some j" "s1 = s\<lparr>js_jobs := (js_jobs s)(p \<mapsto> j\<lparr>jb_prio := prio\<rparr>)\<rparr>" for j s1
    using that by (auto simp: unscheduled_def intro!: update_job_advances simp: job_le_def)
  show ?case
  proof (simp, rule post_the_job, clarsimp simp: update_job_def, rule post_the_job, simp)
    fix j
    assume j: "js_jobs s p = Some j" "jb_pool j = 0"
    let ?s = "s\<lparr>js_jobs := (js_jobs s)(p \<mapsto> j\<lparr>jb_prio := prio\<rparr>)\<rparr>"
    have "unscheduled s p" using j by (simp add: unscheduled_def)
    with prio [OF j(1) refl]
    show "post (check_jobs prio ps ?s) (\<lambda>(ok, s'). advances s s' \<and> (\<forall>q. unscheduled s q \<longrightarrow> unscheduled s' q) \<and>
        (ok \<longrightarrow> unscheduled s' p \<and> (\<forall>p\<in>set ps. unscheduled s' p)))"
      by (intro post_weaken [OF Cons.IH]) (auto intro: advances_trans)
  qed
qed simp

lemma job_inv_mono: "job_inv X s \<Longrightarrow> X \<subseteq> Y \<Longrightarrow> job_inv Y s"
  unfolding job_inv_def by blast

lemma job_inv_pooled: "job_inv X s \<Longrightarrow> (\<And>p. p \<in> X \<Longrightarrow> in_pool s p) \<Longrightarrow> job_inv {} s"
  unfolding job_inv_def by blast

lemma addNotify_inv:
  assumes inv: "job_inv X s" and ps: "\<And>p. p \<in> set ps \<Longrightarrow> p \<in> X \<and> js_jobs s p \<noteq> None"
  shows "post (addNotify E t ps d s) (\<lambda>s'. job_inv X s' \<and> jobs_le s s')"
  unfolding addNotify_def update_job_def
proof (simp, rule post_the_job)
  fix j
  assume j: "js_jobs s d = Some j"
  let ?s = "s\<lparr>js_jobs := (js_jobs s)(d \<mapsto> j\<lparr>jb_notify := jb_notify j @ ps\<rparr>)\<rparr>"
  have le: "jobs_le s ?s" using j by (auto simp: jobs_le_def heap_def job_le_def)
  have ref: "referred ?s q \<Longrightarrow> referred s q \<or> q \<in> set ps" for q
    using j unfolding referred_def by (auto split: if_splits)
  have same: "in_queue ?s q = in_queue s q" "heap ?s = heap s" "scheds_live ?s = scheds_live s" "js_jobs ?s q \<noteq> None \<longleftrightarrow> js_jobs s q \<noteq> None" for q
    using j by (simp_all add: in_queue_def heap_def)
  have inv1: "job_inv X ?s"
    unfolding job_inv_def same
  proof (intro conjI allI impI)
    fix q
    show "in_queue s q \<Longrightarrow> deps_done ?s q" using inv stays_deps_done [OF _ le] unfolding job_inv_def by blast
    show "in_queue s q \<or> referred ?s q \<Longrightarrow> in_pool ?s q \<or> q \<in> X \<and> js_jobs s q \<noteq> None"
      using inv ref [of q] ps stays_in_pool [OF _ le, of q] unfolding job_inv_def by blast
    show "js_jobs s q \<noteq> None \<Longrightarrow> unat q < next_addr (heap s)" using inv unfolding job_inv_def by blast
    show "scheds_live s" using inv by (simp add: job_inv_def)
  qed
  have fin: "job_inv X s' \<and> jobs_le s s'" if "advances ?s s'" for s'
    using that inv1 le by (auto simp: advances_def intro: jobs_le_trans)
  show "post (the_job d ?s) (\<lambda>j. (jb_done j \<longrightarrow> post (scheduler_of_job d ?s)
      (\<lambda>sc. post (notifyDeps E t sc d ?s) (\<lambda>s'. job_inv X s' \<and> jobs_le s s'))) \<and>
      (\<not> jb_done j \<longrightarrow> job_inv X ?s \<and> jobs_le s ?s))"
    by (rule post_the_job) (auto intro!: inv1 le post_scheduler_of_job notifyDeps_advances [THEN post_step] fin [THEN conjunct1] fin [THEN conjunct2])
qed

lemma notify_of_deps_inv:
  assumes "job_inv X s" and "\<And>p. p \<in> set ps \<Longrightarrow> p \<in> X \<and> js_jobs s p \<noteq> None"
  shows "post (notify_of_deps E t ps ds (c, s)) (\<lambda>(c', s'). job_inv X s' \<and> jobs_le s s')"
  using assms
proof (induction ds arbitrary: c s)
  case (Cons d ds)
  show ?case
  proof (simp, rule post_weaken [OF addNotify_inv [OF Cons.prems]], assumption, elim conjE, rule post_the_job)
    fix s1 j
    assume s1: "job_inv X s1" "jobs_le s s1"
    then have "\<And>p. p \<in> set ps \<Longrightarrow> p \<in> X \<and> js_jobs s1 p \<noteq> None"
      using Cons.prems(2) stays_job by blast
    from Cons.IH [OF s1(1) this]
    show "post (notify_of_deps E t ps ds (c \<or> jb_cancelled j, s1)) (\<lambda>(c', s'). job_inv X s' \<and> jobs_le s s')"
      by (rule post_weaken) (use s1(2) in \<open>auto intro: jobs_le_trans\<close>)
  qed
qed simp

lemma attach_or_cancel_advances:
  assumes "pool \<noteq> 0"
  shows "post (attach_or_cancel k E t sc pool cancelled p s) (\<lambda>s'. advances s s' \<and> in_pool s' p)"
proof -
  have "post (bind_flow (update_job p (\<lambda>j. j\<lparr>jb_pool := pool\<rparr>) s) (cancelJob k t sc p)) (\<lambda>s'. advances s s' \<and> in_pool s' p)"
  proof (simp, rule post_update_job)
    fix j s1
    assume s1: "js_jobs s1 p = Some (j\<lparr>jb_pool := pool\<rparr>)" "advances s s1"
    then have p: "in_pool s1 p" using assms by (simp add: in_pool_def)
    show "post (cancelJob k t sc p s1) (\<lambda>s'. advances s s' \<and> in_pool s' p)"
      by (rule cancelJob_advances [THEN post_step]) (use s1(2) p in \<open>blast intro: advances_trans stays\<close>)
  qed (simp_all add: job_le_def assms)
  then show ?thesis using attachJob_advances [OF assms] by (simp add: attach_or_cancel_def)
qed

lemma attach_all_advances:
  assumes "pool \<noteq> 0"
  shows "post (fold_flow (attach_or_cancel k E t sc pool cancelled) ps s)
    (\<lambda>s'. advances s s' \<and> (\<forall>p\<in>set ps. in_pool s' p))"
proof (induction ps arbitrary: s)
  case (Cons p ps)
  show ?case
    by (simp, rule post_weaken [OF attach_or_cancel_advances [OF assms]], rule post_weaken [OF Cons.IH])
      (auto intro: stays advances_trans)
qed simp

lemma schedule_jobs_inv:
  assumes inv: "job_inv {} s" and ps: "\<forall>p\<in>set ps. unscheduled s p"
  shows "post (schedule_jobs k E t pool ps deps s) (job_inv {})"
  unfolding schedule_jobs_def locked_sched_def
proof (simp only: post_simps, rule post_scheduler_of)
  fix sc
  assume pool: "pool \<noteq> 0"
  have lock: "post (sched_lock t sc s) (\<lambda>s1. job_inv {} s1 \<and> (\<forall>p\<in>set ps. unscheduled s1 p))"
  proof -
    have "post (sched_lock t sc s) (\<lambda>s1. js_jobs s1 = js_jobs s)"
      unfolding sched_lock_def by (simp, rule post_the_sched, rule post_any, simp)
    moreover have "post (sched_lock t sc s) (\<lambda>s1. job_inv {} s1)"
      using inv by (auto intro!: post_sched_lock intro: inv_advances)
    ultimately show ?thesis
      using ps by (auto simp: post_def unscheduled_def)
  qed
  have deps: "post (fold_flow (addDep deps) ps s1) (\<lambda>s2. job_inv {} s2 \<and> (\<forall>p\<in>set ps. unscheduled s2 p))"
    if "job_inv {} s1 \<and> (\<forall>p\<in>set ps. unscheduled s1 p)" for s1
    using that by (rule post_fold_flow) (auto intro: post_weaken [OF addDep_inv])
  have notify: "post (notify_of_deps E t ps deps (False, s2)) (\<lambda>(c, s3). job_inv (set ps) s3)"
    if "job_inv {} s2 \<and> (\<forall>p\<in>set ps. unscheduled s2 p)" for s2
    by (rule post_weaken [OF notify_of_deps_inv [where X = "set ps"]])
      (use that in \<open>auto simp: unscheduled_def elim: job_inv_mono\<close>)
  have attach: "post (fold_flow (attach_or_cancel k E t sc pool c) ps s3) (job_inv {})" if "job_inv (set ps) s3" for c s3
    by (rule post_weaken [OF attach_all_advances [OF pool]])
      (use that in \<open>auto intro: job_inv_pooled inv_advances\<close>)
  show "post (sched_lock t sc s) (\<lambda>s1. post (fold_flow (addDep deps) ps s1) (\<lambda>s2.
      post (notify_of_deps E t ps deps (False, s2)) (\<lambda>x. post (case x of (cancelled, s) \<Rightarrow>
        fold_flow (attach_or_cancel k E t sc pool cancelled) ps s) (\<lambda>s4. post (sched_unlock t sc s4) (job_inv {})))))"
    by (rule post_weaken [OF lock], rule post_weaken [OF deps], assumption, rule post_weaken [OF notify], assumption)
      (auto intro!: post_weaken [OF attach] post_sched_unlock intro: inv_advances)
qed

lemma schedule_checked_inv:
  assumes "job_inv {} s"
  shows "post (schedule_checked k E t pool prio ps deps s) (\<lambda>(r, s'). job_inv {} s')"
  unfolding schedule_checked_def
  by (simp only: post_simps, rule post_weaken [OF check_jobs_unscheduled])
    (use inv_advances [OF assms] in \<open>auto simp: fails_def intro!: post_any [where m = "check_deps _ _ _"]
      post_weaken [OF schedule_jobs_inv] heap_rules intro: inv_advances split: option.split list.split\<close>)

lemma jobs_arg_inv:
  assumes "job_inv X s"
  shows "post (jobs_arg E v s) (\<lambda>(r, s'). job_inv X s')"
  unfolding jobs_arg_def
  using assms
  by (auto intro!: post_any [where m = "job_pointers _"] post_any [where m = "shared_arg _"]
      post_any [where m = "str_arg _"] post_weaken [OF alloc_job_inv] split: leftv.split)

lemma scheduleJob_inv:
  assumes "job_inv {} s"
  shows "post (scheduleJob k J t args s) (\<lambda>(r, s'). job_inv {} s')"
  unfolding scheduleJob_def Let_def
  using assms
  by (auto simp: fails_def intro!: post_any [where m = "pool_arg _ _ _ _"] post_any [where m = "prio_arg _ _"]
      post_any [where m = "deps_arg _ _"] post_weaken [OF jobs_arg_inv] schedule_checked_inv split: sum.split)

end
