(* ===== verification/Job_Steps.thy ===== *)
theory Job_Steps
  imports Job_Runs
begin

text \<open>
  The runs of the library as far as jobs are concerned: the commands on pools, jobs and
  triggers, the functions for C++ callers, the workers, the ends of waits, and whatever else
  happens to threads and shared objects.
\<close>

section \<open>Functions for C++ callers\<close>

lemma job_lock_advances:
  assumes "\<And>s. post (body s) (\<lambda>(r, s'). advances s s')"
  shows "post (with_job_lock t p body s) (\<lambda>(r, s'). advances s s')"
  unfolding with_job_lock_def
  by (auto intro!: post_the_job post_scheduler_of lock_rules post_weaken [OF assms])
    (meson advances_trans)+

lemma cpp_calls_advance:
  assumes "kernel_ok J"
  shows "post (createThreadPool_cpp created E t n s) (\<lambda>(r, s'). advances s s')"
    "post (startJob_cpp E t pool p args s) (\<lambda>(r, s'). advances s s')"
    "post (scheduleJob_cpp k E t pool p deps s) (\<lambda>(r, s'). advances s s')"
    "post (waitJob_cpp k J t p s) (\<lambda>(r, s'). advances s s')"
    "post (setJobData t p d s) (\<lambda>(r, s'). advances s s')"
    "post (addJobArgs E t p args s) (\<lambda>(r, s'). advances s s')"
    "post (getJobData t p s) (\<lambda>(r, s'). advances s s')"
    "post (getJobCancelled t p s) (\<lambda>(r, s'). advances s s')"
    "post (getJobResult E t p s) (\<lambda>(r, s'). advances s s')"
    "post (cancelJob_cpp k t p s) (advances s)" "post (retain p s) (advances s)" "post (release p s) (advances s)"
proof -
  note fields = setJobData_def addJobArgs_def getJobData_def getJobCancelled_def getJobResult_def
  have job: "post (map_flow_value (\<lambda>j. (f j, s)) (the_job p s)) (\<lambda>(r, s'). advances s s')" for f :: "job \<Rightarrow> 'r" and s
    by (auto intro: post_any)
  show "post (createThreadPool_cpp created E t n s) (\<lambda>(r, s'). advances s s')"
    unfolding createThreadPool_cpp_def
    by (auto intro!: new_ThreadPool_advances [THEN post_weaken] create_workers_advances [THEN post_weaken] intro: advances_trans)
  show "post (startJob_cpp E t pool p args s) (\<lambda>(r, s'). advances s s')"
    unfolding startJob_cpp_def
    by (auto intro!: post_the_job addJobArgs_advances [THEN post_step] post_scheduler_of attachJob_inv [THEN post_step]
        intro: advances_trans)
  show "post (scheduleJob_cpp k E t pool p deps s) (\<lambda>(r, s'). advances s s')"
    unfolding scheduleJob_cpp_def by (auto intro!: post_the_job intro: post_any)
  show "post (waitJob_cpp k J t p s) (\<lambda>(r, s'). advances s s')"
    unfolding waitJob_cpp_def by (auto intro!: post_the_job post_scheduler_of waitJob_advances(1) [OF assms])
  show "post (setJobData t p d s) (\<lambda>(r, s'). advances s s')" "post (addJobArgs E t p args s) (\<lambda>(r, s'). advances s s')"
    unfolding fields by (auto intro!: job_lock_advances post_update_job addJobArgs_advances simp: job_le_def)
  show "post (getJobData t p s) (\<lambda>(r, s'). advances s s')" "post (getJobCancelled t p s) (\<lambda>(r, s'). advances s s')"
    unfolding fields by (rule job_lock_advances, rule job)+
  show "post (getJobResult E t p s) (\<lambda>(r, s'). advances s s')"
    unfolding fields by (auto intro!: job_lock_advances post_the_job heap_rules)
  show "post (cancelJob_cpp k t p s) (advances s)"
    unfolding cancelJob_cpp_def by (auto intro!: post_the_job post_scheduler_of cancelJob_advances)
  show "post (retain p s) (advances s)" "post (release p s) (advances s)"
    unfolding retain_def release_def by (auto intro!: heap_rules)
qed

section \<open>Runs\<close>

definition pool_commands :: "nat \<Rightarrow> (nat \<Rightarrow> bool) \<Rightarrow> command list" where
  "pool_commands k created =
     [createThreadPool created, closeThreadPool k, currentThreadPool, setCurrentThreadPool, threadPoolExec,
      createJob, currentJob, startJob, waitJob k, cancelJob_command k, jobCancelled, scheduleJob k,
      createTrigger, updateTrigger, testTrigger, chainTrigger, setSharedName, getSharedName]"

inductive job_step :: "job_env \<Rightarrow> job_sys \<Rightarrow> job_sys \<Rightarrow> bool" for J where
  js_command: "cmd \<in> set (pool_commands k created) \<Longrightarrow> cmd J t args s = Done (r, s') \<Longrightarrow> job_step J s s'"
| js_wait_wake: "waitJob_wake J t sc p s = Done (r, s') \<Longrightarrow> job_step J s s'"
| js_close_wake: "closeThreadPool_wake t sc ph s = Done (r, s') \<Longrightarrow> job_step J s s'"
| js_pool_cpp: "createThreadPool_cpp created (je_env J) t n s = Done (p, s') \<Longrightarrow> job_step J s s'"
| js_close_cpp: "sched_shutdown k J wait t sc s = Done (ph, s') \<Longrightarrow> job_step J s s'"
| js_create_cpp: "alloc_job (je_env J) kd s = Done (p, s') \<Longrightarrow> job_step J s s'"
| js_start_cpp: "startJob_cpp (je_env J) t pool p args s = Done (q, s') \<Longrightarrow> job_step J s s'"
| js_schedule_cpp: "unscheduled s p \<Longrightarrow> schedule_jobs k (je_env J) t pool [p] deps s = Done s' \<Longrightarrow> job_step J s s'"
| js_cancel_cpp: "cancelJob_cpp k t p s = Done s' \<Longrightarrow> job_step J s s'"
| js_wait_cpp: "waitJob_cpp k J t p s = Done (b, s') \<Longrightarrow> job_step J s s'"
| js_data_cpp: "setJobData t p d s = Done (u, s') \<Longrightarrow> job_step J s s'"
| js_args_cpp: "addJobArgs (je_env J) t p args s = Done (u, s') \<Longrightarrow> job_step J s s'"
| js_get_data_cpp: "getJobData t p s = Done (d, s') \<Longrightarrow> job_step J s s'"
| js_get_cancelled_cpp: "getJobCancelled t p s = Done (b, s') \<Longrightarrow> job_step J s s'"
| js_get_result_cpp: "getJobResult (je_env J) t p s = Done (v, s') \<Longrightarrow> job_step J s s'"
| js_retain_cpp: "retain p s = Done s' \<Longrightarrow> job_step J s s'"
| js_release_cpp: "release p s = Done s' \<Longrightarrow> job_step J s s'"
| js_worker: "worker_step J t sc s = Done s' \<Longrightarrow> job_step J s s'"
| js_spurious: "js_scheds s sc = Some S \<Longrightarrow>
    job_step J s (put_sched sc (S\<lparr>sc_cond := spurious_wakeup u (sc_cond S), sc_response := spurious_wakeup v (sc_response S)\<rparr>) s)"
| js_threads: "next_addr (heap s) \<le> next_addr (th_shared T) \<Longrightarrow> job_step J s (s\<lparr>js_threads := T\<rparr>)"

lemma spurious_live:
  assumes "pool_live S"
  shows "pool_live (S\<lparr>sc_cond := spurious_wakeup u (sc_cond S), sc_response := r\<rparr>)"
  using assms
  by (auto simp: pool_live_def cond_ok_def spurious_wakeup_def length_remove1 int_length_pred dest!: map_of_SomeD split: option.splits)

lemma job_step_inv:
  assumes "kernel_ok J" and "job_step J s s'" and "job_inv {} s"
  shows "job_inv {} s'"
proof -
  note advance = pool_commands_advance [OF assms(1)] job_commands_advance [OF assms(1)] chainTrigger_advances
    name_commands_advance
  note inv = createJob_inv startJob_inv threadPoolExec_inv createTrigger_inv scheduleJob_inv
  have keeps: "job_inv {} s'" if "post m (\<lambda>(r, s'). advances s s')" "m = Done (r, s')"
    for m :: "('r \<times> job_sys) flow" and r
    using postD [OF that] inv_advances [OF assms(3)] by simp
  have keeps': "job_inv {} s'" if "post m (advances s)" "m = Done s'" for m
    using postD [OF that] by (rule inv_advances [OF assms(3)])
  show ?thesis
    using assms(2)
  proof cases
    case (js_command cmd k created t args r)
    have "post (cmd J t args s) (\<lambda>(r, s'). job_inv {} s')"
      using js_command(1) advance [THEN post_inv [OF assms(3)]] inv [OF assms(3)]
      by (auto simp: pool_commands_def)
    then show ?thesis using js_command(2) by (auto dest: postD)
  next
    case (js_create_cpp kd p)
    then show ?thesis using postD [OF alloc_job_inv [OF assms(3)]] by auto
  next
    case (js_schedule_cpp p k t pool deps)
    then show ?thesis using postD [OF schedule_jobs_inv [OF assms(3), of "[p]"]] by simp
  next
    case (js_spurious sc S u v)
    then have "advances s s'" by (auto intro!: put_sched_advances [of s sc S] spurious_live)
    then show ?thesis by (rule inv_advances [OF assms(3)])
  next
    case (js_threads T)
    then have "advances s s'" by (intro quiet_same) (simp_all add: in_queue_def heap_def scheds_live_def)
    then show ?thesis by (rule inv_advances [OF assms(3)])
  qed (blast intro: keeps keeps' worker_step_advances cpp_calls_advance shutdown_advances job_commands_advance
      pool_commands_advance assms(1))+
qed

lemma reachable_job_inv:
  assumes "kernel_ok J" and "reach (\<lambda>s. \<exists>n. s = initial_jobs n) (job_step J) s"
  shows "job_inv {} s"
  using assms(2)
proof (induction rule: reach.induct)
  case (reach_init s)
  then show ?case by (auto simp: job_inv_def in_queue_def referred_def initial_jobs_def scheds_live_def)
next
  case (reach_step s s')
  then show ?case using job_step_inv [OF assms(1)] by blast
qed

end
