(* ===== verification/Job_Properties.thy ===== *)
theory Job_Properties
  imports Job_Steps Thread_Table
begin

text \<open>
  What the scheduler promises about dependencies: a job is executed only after the jobs it
  depends on are done. The example run creates a pool, schedules two jobs and lets a worker
  execute them.
\<close>

section \<open>An example run\<close>

text \<open>
  A pool with one thread, a job \<open>f\<close>, and a job \<open>g\<close> that depends on it: the worker takes
  \<open>f\<close>, executes it, and then takes \<open>g\<close>.
\<close>

definition sample_job_env :: job_env where
  "sample_job_env = \<lparr>je_env = sample_env, je_kernel = (\<lambda>_ _. L_none), je_raw_kernel = (\<lambda>_ _ h. h)\<rparr>"

lemma sample_job_env_simps [simp]: "je_env sample_job_env = sample_env" "kernel_ok sample_job_env"
  by (simp_all add: sample_job_env_def kernel_ok_def)

lemma sample_env_more [simp]: "pick sample_env = 0" "executeProc sample_env nm argv = Inr L_none"
  by (simp_all add: sample_env_def executeProc_def)

definition pool_threads :: "nat \<Rightarrow> thread_sys" where
  "pool_threads n = (set_slot 0 (fresh_slot (Other_thread 0) True 0 0 1 new_thread_state) (initial_threads 1))\<lparr>th_next := 2,
     th_counter := int n, th_ids := (\<lambda>_. 0)(1 := int n)\<rparr>"

definition pool_heap :: "int list \<Rightarrow> shared_sys" where
  "pool_heap rcs = (initial_sys 1)\<lparr>next_addr := Suc (length rcs),
     objects := map_of (zip [1, 2, 3, 4] (map2 (\<lambda>(ty, nm) r. \<lparr>so_type = ty, so_name = nm, so_refs = r, so_data = P_other\<rparr>)
       [(410, []), (0, []), (411, text_bytes ''f''), (411, text_bytes ''g'')] rcs))\<rparr>"

definition pool_state :: "nat \<Rightarrow> int list \<Rightarrow> (addr \<times> job) list \<Rightarrow> scheduler \<Rightarrow> addr \<Rightarrow> job_sys" where
  "pool_state n rcs js S cur = \<lparr>js_threads = (pool_threads n)\<lparr>th_shared := pool_heap rcs\<rparr>, js_jobs = map_of js,
     js_pools = [1 \<mapsto> \<lparr>po_scheduler = 2, po_nthreads = 1\<rparr>], js_scheds = [2 \<mapsto> S],
     currentThreadPoolRef = (\<lambda>_. 0), currentJobRef = (\<lambda>_. 0)(1 := cur), js_name_lock = new_lock True\<rparr>"

definition pool_sched :: "64 word \<Rightarrow> addr list \<Rightarrow> addr list \<Rightarrow> lock \<Rightarrow> worker \<Rightarrow> scheduler" where
  "pool_sched n q pend l w = (new_scheduler 1)\<lparr>next_jobid := n, sc_threads := [0], global_queue := q,
     thread_queues := [[], []], pending := pend, sc_lock := l, sc_workers := [(1, 0, w)]\<rparr>"

lemma MAX_THREADS_pos: "0 < MAX_THREADS" by (simp add: MAX_THREADS_def)

lemma free_thread_slot: "find_inactive 0 (th_slots (initial_threads n)) = Some 0"
  "slot 0 (initial_threads n) = new_thread_state" "length (th_slots (initial_threads n)) = 128"
  by (simp_all add: initial_threads_def MAX_THREADS_def numeral_eq_Suc new_thread_state_def slot_def)

lemma set_slot_fields: "th_master (set_slot i ts T) = th_master T" "th_counter (set_slot i ts T) = th_counter T"
  "th_ids (set_slot i ts T) = th_ids T"
  by (simp_all add: set_slot_def)

lemma sample_th: "th_shared (initial_threads n) = initial_sys n" "th_lock (initial_threads n) = new_lock False"
  "th_next (initial_threads n) = 1" "th_master (initial_threads n) = new_lock True"
  "th_counter (initial_threads n) = 0" "th_ids (initial_threads n) = (\<lambda>_. 0)"
  by (simp_all add: initial_threads_def)

lemmas run_defs = run_command_def check_argc_between_def check_argc_min_def check_argc_def check_arg_def check_arg_either_def
  check_init_def nth_arg_def have_threads_def unless_def typ_of_def is_string_def fails_def test_arg_def
  sample_shared_types_def sample_tokens_def Let_def

lemmas heap_defs = new_object_def on_heap_def heap_def set_heap_def allocate_def set_object_def reply_object_def
  reply_shared_def new_shared_def acquire_in_def release_in_def acquireShared_def incref_def deref_def releaseShared_def decref_def

lemmas sync_defs = lock_lock_def unlock_lock_def new_lock_def is_locked_def cond_signal_def pthread_cond_signal_def
  cond_wait_def break_lock_def cond_wait_return_def resume_lock_def new_cond_def

lemmas state_defs = c_string_def text_bytes_def pool_state_def pool_heap_def pool_threads_def pool_sched_def new_scheduler_def
  update_sched_def the_sched_def lookup_ptr_def put_sched_def initial_sys_def update_job_def the_job_def

lemma run_createThreadPool: "createThreadPool (\<lambda>_. True) sample_job_env 0 [L_int 1] (initial_jobs 1) = 
  Done (Reply (L_blackbox 410 1), pool_state 0 [1, 2] [] (pool_sched 0 [] [] (new_lock True) W_start) 0)"
  by (simp add: createThreadPool_def run_defs new_ThreadPool_def heap_defs newThread_cases free_thread_slot sample_th
    addThread_def state_defs initial_jobs_def)
    (simp add: initial_threads_def set_slot_def fun_eq_iff slot_def fresh_slot_def MAX_THREADS_pos)

definition first_job :: "bool \<Rightarrow> bool \<Rightarrow> addr list \<Rightarrow> bytes \<Rightarrow> job" where
  "first_job r d ns res = (new_job (ProcJob (text_bytes ''f'')))\<lparr>jb_pool := 1, jb_running := r, jb_done := d, jb_notify := ns, jb_result := res\<rparr>"

lemma run_startJob: "startJob sample_job_env 0 [L_blackbox 410 1, L_string (text_bytes ''f'')]
    (pool_state 0 [1, 2] [] (pool_sched 0 [] [] (new_lock True) W_start) 0) = 
  Done (Reply (L_blackbox 411 3), pool_state 0 [1, 2, 2] [(3, first_job False False [] [])] (pool_sched 1 [3] [] (new_lock True) W_start) 0)"
  by (simp add: startJob_def start_job_def run_defs heap_defs has_pool_def has_prio_def prio_arg_def pool_arg_def
    alloc_job_def addJobArgs_unlocked_def scheduler_of_def attachJob_def locked_sched_def sched_lock_def sched_unlock_def job_ready_def kind_ready_def
    push_global_def signal_cond_def sync_defs state_defs first_job_def new_job_def)
    (simp add: fun_upd_twist)

definition second_job :: "job" where
  "second_job = (new_job (ProcJob (text_bytes ''g'')))\<lparr>jb_pool := 1, jb_id := 1, jb_deps := [3], pending_index := 0\<rparr>"

lemma run_scheduleJob: "scheduleJob 5 sample_job_env 0 [L_blackbox 410 1, L_string (text_bytes ''g''), L_blackbox 411 3]
   (pool_state 0 [1, 2, 2] [(3, first_job False False [] [])] (pool_sched 1 [3] [] (new_lock True) W_start) 0) = 
  Done (Reply (L_blackbox 411 4), pool_state 0 [1, 2, 2, 2] [(3, first_job False False [4] []), (4, second_job)]
     (pool_sched 2 [3] [4] (new_lock True) W_start) 0)"
  by (simp add: scheduleJob_def schedule_checked_def jobs_arg_def is_dependency_def schedule_jobs_def addDep_def addNotify_def attach_or_cancel_def run_defs heap_defs has_pool_def has_prio_def prio_arg_def pool_arg_def
    alloc_job_def addJobArgs_unlocked_def scheduler_of_def attachJob_def locked_sched_def sched_lock_def sched_unlock_def job_ready_def kind_ready_def
    push_global_def add_pending_def signal_cond_def sync_defs state_defs first_job_def second_job_def new_job_def)
    (simp add: fun_upd_twist)

lemma run_worker_begins: "worker_step sample_job_env 1 2 (pool_state 0 [1, 2, 2, 2] [(3, first_job False False [4] []), (4, second_job)]
     (pool_sched 2 [3] [4] (new_lock True) W_start) 0) = 
  Done (pool_state 1 [1, 2, 2, 2] [(3, first_job False False [4] []), (4, second_job)]
     (pool_sched 2 [3] [4] \<lparr>mutex = Some 1, owner = Some 1, locked = 1, recursive = True\<rparr> W_loop) 0)"
  by (simp add: worker_step_def main_start_def set_worker_def thread_init_def sched_lock_def sync_defs state_defs sample_th set_slot_fields)
    (simp add: initial_threads_def set_slot_def new_lock_def)?

lemma run_worker_takes: "worker_step sample_job_env 1 2 (pool_state 1 [1, 2, 2, 2] [(3, first_job False False [4] []), (4, second_job)]
     (pool_sched 2 [3] [4] \<lparr>mutex = Some 1, owner = Some 1, locked = 1, recursive = True\<rparr> W_loop) 0) = 
  Done (pool_state 1 [1, 2, 2, 2] [(3, first_job True False [4] []), (4, second_job)]
     (pool_sched 2 [] [4] (new_lock True) (W_run 3)) 3)"
  by (simp add: worker_step_def main_pass_def queue_top_def job_after_def JobCompare_def main_run_def run_begin_def
    scheduler_of_job_def scheduler_of_def remove_nth_def first_job_def new_job_def
    set_worker_def thread_init_def sched_lock_def sched_unlock_def sync_defs state_defs)
   (simp add: fun_upd_twist)?


lemma encode_none: obtains str where "\<And>h. encode_value sample_env L_none h = Done (str, h)"
proof -
  have "transferable sample_env L_none" by (simp add: transferable_def sample_env_def)
  from value_encoding [OF sample_env_ok this] obtain str where "\<And>h. encode_value sample_env L_none h = Done (str, add_refs sample_env L_none h)"
    by blast
  moreover have "add_refs sample_env L_none h = h" for h
    by (cases h) (auto simp: add_refs_def set_refs_def refs_in_def fun_eq_iff split: option.split)
  ultimately show thesis using that by simp
qed

lemma run_worker_finishes: assumes enc: "\<And>h. encode_value sample_env L_none h = Done (str, h)"
  shows "worker_step sample_job_env 1 2 (pool_state 1 [1, 2, 2, 2] [(3, first_job True False [4] []), (4, second_job)]
     (pool_sched 2 [] [4] (new_lock True) (W_run 3)) 3) = 
  Done (pool_state 1 [1, 2, 2, 2] [(3, first_job False True [4] str), (4, second_job\<lparr>jb_queued := True\<rparr>)]
     (pool_sched 2 [4] [4] \<lparr>mutex = Some 1, owner = Some 1, locked = 1, recursive = True\<rparr> W_loop) 0)"
  by (simp add: worker_step_def main_finish_def run_end_def execute_def job_argv_def append_args_def set_job_result_def encode_in_def enc
    cleanup_in_def main_after_def notifyDeps_def notify_job_def queueJob_def locked_sched_def push_global_def signal_cond_def signal_response_def
    job_ready_def kind_ready_def
    scheduler_of_job_def scheduler_of_def heap_defs first_job_def second_job_def new_job_def
    set_worker_def thread_init_def sched_lock_def sched_unlock_def sync_defs state_defs)
   (simp add: fun_upd_twist)?

lemma run_worker_takes_next: 
  shows "main_pass sample_env 1 2 0 0 (pool_state 1 [1, 2, 2, 2] [(3, first_job False True [4] str), (4, second_job\<lparr>jb_queued := True\<rparr>)]
     (pool_sched 2 [4] [4] \<lparr>mutex = Some 1, owner = Some 1, locked = 1, recursive = True\<rparr> W_loop) 0) =
   Done (W_run 4, pool_state 1 [1, 2, 2, 2] [(3, first_job False True [4] str), (4, second_job\<lparr>jb_queued := True, jb_running := True\<rparr>)]
     (pool_sched 2 [] [4] (new_lock True) W_loop) 4)"
  by (simp add: main_pass_def queue_top_def job_after_def JobCompare_def main_run_def run_begin_def
    scheduler_of_job_def scheduler_of_def remove_nth_def second_job_def new_job_def
    set_worker_def thread_init_def sched_lock_def sched_unlock_def sync_defs state_defs)
   (simp add: fun_upd_twist)?

text \<open>The states of the example's runs.\<close>

definition sample_reach :: "job_sys \<Rightarrow> bool" where
  "sample_reach = reach (\<lambda>s. \<exists>n. s = initial_jobs n) (job_step sample_job_env)"

lemma sample_command:
  "sample_reach s \<Longrightarrow> c \<in> set (pool_commands 5 (\<lambda>_. True)) \<Longrightarrow> c sample_job_env 0 args s = Done (r, s') \<Longrightarrow> sample_reach s'"
  unfolding sample_reach_def by (blast intro: reach_step js_command)

lemma sample_work: "sample_reach s \<Longrightarrow> worker_step sample_job_env 1 2 s = Done s' \<Longrightarrow> sample_reach s'"
  unfolding sample_reach_def by (blast intro: reach_step js_worker)

lemma sample_started:
  "sample_reach (pool_state 0 [1, 2, 2] [(3, first_job False False [] [])] (pool_sched 1 [3] [] (new_lock True) W_start) 0)"
proof -
  have "sample_reach (initial_jobs 1)" by (auto simp: sample_reach_def intro: reach_init)
  then have "sample_reach (pool_state 0 [1, 2] [] (pool_sched 0 [] [] (new_lock True) W_start) 0)"
    by (rule sample_command [where c = "createThreadPool (\<lambda>_. True)", OF _ _ run_createThreadPool]) (simp add: pool_commands_def)
  then show ?thesis
    by (rule sample_command [where c = "startJob", OF _ _ run_startJob]) (simp add: pool_commands_def)
qed

section \<open>Dependencies\<close>

text \<open>
  C3. A job is executed only after all its dependencies are done: in every run, when a
  worker takes a job out of a queue to execute it, every job it depends on is done; and the
  job belongs to a pool.
\<close>

theorem jobs_run_after_dependencies:
  assumes "kernel_ok J" and "reach (\<lambda>s. \<exists>n. s = initial_jobs n) (job_step J) s"
    and "main_pass (je_env J) t sc num target s = Done (W_run p, s')"
  shows "\<exists>j. js_jobs s p = Some j \<and> jb_pool j \<noteq> 0 \<and>
    (\<forall>d\<in>set (jb_deps j). \<exists>j'. js_jobs s d = Some j' \<and> jb_done j')"
proof -
  have "in_queue s p" using postD [OF main_pass_takes assms(3)] by simp
  then have "deps_done s p" "in_pool s p"
    using reachable_job_inv [OF assms(1,2)] unfolding job_inv_def by blast+
  then show ?thesis by (auto simp: deps_done_def in_pool_def)
qed

theorem jobs_run_after_dependencies_witness:
  "\<exists>s s' j j'. reach (\<lambda>s. \<exists>n. s = initial_jobs n) (job_step sample_job_env) s \<and>
     main_pass sample_env 1 2 0 0 s = Done (W_run 4, s') \<and>
     js_jobs s 4 = Some j \<and> jb_deps j = [3] \<and> js_jobs s 3 = Some j' \<and> jb_done j'"
proof -
  obtain str where str: "\<And>h. encode_value sample_env L_none h = Done (str, h)" by (rule encode_none) blast
  have "sample_reach (pool_state 0 [1, 2, 2, 2] [(3, first_job False False [4] []), (4, second_job)]
     (pool_sched 2 [3] [4] (new_lock True) W_start) 0)"
    by (rule sample_command [where c = "scheduleJob 5", OF sample_started _ run_scheduleJob]) (simp add: pool_commands_def)
  from sample_work [OF sample_work [OF sample_work [OF this run_worker_begins] run_worker_takes] run_worker_finishes [OF str]]
  have "reach (\<lambda>s. \<exists>n. s = initial_jobs n) (job_step sample_job_env)
     (pool_state 1 [1, 2, 2, 2] [(3, first_job False True [4] str), (4, second_job\<lparr>jb_queued := True\<rparr>)]
     (pool_sched 2 [4] [4] \<lparr>mutex = Some 1, owner = Some 1, locked = 1, recursive = True\<rparr> W_loop) 0)"
    (is "reach _ _ ?s") unfolding sample_reach_def .
  moreover have "js_jobs ?s 4 = Some (second_job\<lparr>jb_queued := True\<rparr>)" "jb_deps (second_job\<lparr>jb_queued := True\<rparr>) = [3]"
    by (simp_all add: pool_state_def second_job_def)
  moreover from jobs_run_after_dependencies [OF sample_job_env_simps(2) calculation(1), unfolded sample_job_env_simps,
      OF run_worker_takes_next] calculation(2,3)
  obtain j' where "js_jobs ?s 3 = Some j'" "jb_done j'" by auto
  ultimately show ?thesis using run_worker_takes_next [of str] by blast
qed

end
