(* ===== verification/Double_Run.thy ===== *)
theory Double_Run
  imports Job_Properties
begin

text \<open>
  A job that is scheduled when its dependency is already done is queued twice and executed
  twice. The run is given state by state: each lemma is one step of it.
\<close>

section \<open>The run\<close>

text \<open>The lock of the scheduler in the hands of the worker.\<close>

definition held :: lock where "held = \<lparr>mutex = Some 1, owner = Some 1, locked = 1, recursive = True\<rparr>"

lemmas run_worker_defs = worker_step_def main_start_def main_pass_def main_run_def run_begin_def main_finish_def run_end_def main_wake_def
  queue_top_def job_after_def JobCompare_def remove_nth_def scheduler_of_job_def scheduler_of_def
  execute_def job_argv_def append_args_def set_job_result_def encode_in_def cleanup_in_def main_after_def notifyDeps_def
  signal_cond_def signal_response_def job_ready_def kind_ready_def set_worker_def thread_init_def sched_lock_def sched_unlock_def
  first_job_def new_job_def held_def

lemma rerun_begins: "worker_step sample_job_env 1 2 (pool_state 0 [1, 2, 2] [(3, first_job False False [] [])]
     (pool_sched 1 [3] [] (new_lock True) W_start) 0) = 
  Done (pool_state 1 [1, 2, 2] [(3, first_job False False [] [])] (pool_sched 1 [3] [] held W_loop) 0)"
  by (simp add: run_worker_defs sync_defs state_defs sample_th set_slot_fields)
    (simp add: initial_threads_def set_slot_def new_lock_def)?

lemma rerun_takes_first: "worker_step sample_job_env 1 2 (pool_state 1 [1, 2, 2] [(3, first_job False False [] [])] (pool_sched 1 [3] [] held W_loop) 0) =
  Done (pool_state 1 [1, 2, 2] [(3, first_job True False [] [])] (pool_sched 1 [] [] (new_lock True) (W_run 3)) 3)"
  by (simp add: run_worker_defs sync_defs state_defs) (simp add: fun_upd_twist)?

lemma rerun_finishes_first:
  assumes enc: "\<And>h. encode_value sample_env L_none h = Done (str, h)"
  shows "worker_step sample_job_env 1 2 (pool_state 1 [1, 2, 2] [(3, first_job True False [] [])] (pool_sched 1 [] [] (new_lock True) (W_run 3)) 3) =
  Done (pool_state 1 [1, 2, 2] [(3, first_job False True [] str)] (pool_sched 1 [] [] held W_loop) 0)"
  by (simp add: run_worker_defs enc heap_defs sync_defs state_defs) (simp add: fun_upd_twist)?

definition asleep :: cond_var where "asleep = \<lparr>cv_waiting = 1, sleepers = [(1, 1)], woken = []\<rparr>"

lemma rerun_waits: "worker_step sample_job_env 1 2 (pool_state 1 [1, 2, 2] [(3, first_job False True [] str)] (pool_sched 1 [] [] held W_loop) 0) =
  Done (pool_state 1 [1, 2, 2] [(3, first_job False True [] str)] ((pool_sched 1 [] [] (new_lock True) W_wait)\<lparr>sc_cond := asleep\<rparr>) 0)"
  by (simp add: run_worker_defs heap_defs sync_defs state_defs asleep_def) (simp add: fun_upd_twist)?

definition g_job :: "bool \<Rightarrow> bool \<Rightarrow> bytes \<Rightarrow> job" where
  "g_job r d res = (new_job (ProcJob (text_bytes ''g'')))\<lparr>jb_pool := 1, jb_id := 1, jb_deps := [3], jb_queued := True,
     jb_running := r, jb_done := d, jb_result := res\<rparr>"

definition woken_up :: cond_var where "woken_up = \<lparr>cv_waiting = 1, sleepers = [], woken = [(1, 1)]\<rparr>"

lemma rerun_schedules: "scheduleJob 5 sample_job_env 0 [L_blackbox 410 1, L_string (text_bytes ''g''), L_blackbox 411 3]
   (pool_state 1 [1, 2, 2] [(3, first_job False True [] str)] ((pool_sched 1 [] [] (new_lock True) W_wait)\<lparr>sc_cond := asleep\<rparr>) 0) =
  Done (Reply (L_blackbox 411 4), pool_state 1 [1, 2, 3, 2] [(3, first_job False True [4] str), (4, g_job False False [])]
     ((pool_sched 2 [4, 4] [] (new_lock True) W_wait)\<lparr>sc_cond := woken_up\<rparr>) 0)"
  by (simp add: scheduleJob_def schedule_checked_def jobs_arg_def is_dependency_def schedule_jobs_def addDep_def addNotify_def attach_or_cancel_def run_defs heap_defs has_pool_def has_prio_def prio_arg_def pool_arg_def
    alloc_job_def addJobArgs_unlocked_def scheduler_of_def scheduler_of_job_def attachJob_def locked_sched_def sched_lock_def sched_unlock_def job_ready_def kind_ready_def
    notifyDeps_def notify_job_def queueJob_def
    push_global_def add_pending_def signal_cond_def sync_defs state_defs first_job_def g_job_def new_job_def asleep_def woken_up_def remove_nth_def)
    (simp add: fun_upd_twist)


lemma rerun_wakes: "worker_step sample_job_env 1 2 (pool_state 1 [1, 2, 3, 2] [(3, first_job False True [4] str), (4, g_job False False [])]
     ((pool_sched 2 [4, 4] [] (new_lock True) W_wait)\<lparr>sc_cond := woken_up\<rparr>) 0) =
  Done (pool_state 1 [1, 2, 3, 2] [(3, first_job False True [4] str), (4, g_job False False [])]
     (pool_sched 2 [4, 4] [] held W_loop) 0)"
  by (simp add: run_worker_defs woken_up_def sync_defs state_defs)

lemma rerun_takes: "worker_step sample_job_env 1 2 (pool_state 1 [1, 2, 3, 2] [(3, first_job False True [4] str), (4, g_job False False [])]
     (pool_sched 2 [4, 4] [] held W_loop) 0) =
  Done (pool_state 1 [1, 2, 3, 2] [(3, first_job False True [4] str), (4, g_job True False [])]
     (pool_sched 2 [4] [] (new_lock True) (W_run 4)) 4)"
  by (simp add: run_worker_defs g_job_def sync_defs state_defs)(simp add: fun_upd_twist)?

lemma rerun_finishes:
  assumes enc: "\<And>h. encode_value sample_env L_none h = Done (str, h)"
    and args: "\<And>argv h. appendArg sample_env argv str h = Done (argv, h)"
  shows "worker_step sample_job_env 1 2 (pool_state 1 [1, 2, 3, 2] [(3, first_job False True [4] str), (4, g_job True False [])]
     (pool_sched 2 [4] [] (new_lock True) (W_run 4)) 4) =
  Done (pool_state 1 [1, 2, 3, 2] [(3, first_job False True [4] str), (4, g_job False True str)]
     (pool_sched 2 [4] [] held W_loop) 0)"
  by (simp add: run_worker_defs g_job_def enc args heap_defs sync_defs state_defs)(simp add: fun_upd_twist)?

lemma rerun_takes_again: "main_pass sample_env 1 2 0 0 (pool_state 1 [1, 2, 3, 2] [(3, first_job False True [4] str), (4, g_job False True str)]
     (pool_sched 2 [4] [] held W_loop) 0) =
  Done (W_run 4, pool_state 1 [1, 2, 3, 2] [(3, first_job False True [4] str), (4, g_job True True str)]
     (pool_sched 2 [] [] (new_lock True) W_loop) 4)"
  by (simp add: run_worker_defs g_job_def sync_defs state_defs)(simp add: fun_upd_twist)?

lemma none_value:
  obtains str where "\<And>h. encode_value sample_env L_none h = Done (str, h)"
    and "\<And>argv h. appendArg sample_env argv str h = Done (argv, h)"
proof -
  have "transferable sample_env L_none" by (simp add: transferable_def sample_env_def)
  from value_encoding [OF sample_env_ok this] obtain str where
    "\<And>h. encode_value sample_env L_none h = Done (str, add_refs sample_env L_none h)"
    "\<And>h. decode_value sample_env str h = Done (value_image (interp sample_env) L_none, add_refs sample_env L_none h)"
    by blast
  moreover have "add_refs sample_env L_none h = h" for h
    by (cases h) (auto simp: add_refs_def set_refs_def refs_in_def fun_eq_iff split: option.split)
  ultimately have str: "\<And>h. encode_value sample_env L_none h = Done (str, h)"
      "\<And>h. decode_value sample_env str h = Done (L_none, h)" by simp_all
  then have "appendArg sample_env argv str h = Done (argv, h)" for argv h
    by (simp add: appendArg_def typ_of_def)
  with str(1) show thesis by (rule that)
qed

section \<open>What it shows\<close>


end
