(* ===== verification/Pool_Wakeups.thy ===== *)
theory Pool_Wakeups
  imports Double_Run
begin

text \<open>
  No job that is queued in a pool is forgotten: while there are queued jobs and a worker
  sleeps, another one is awake. The example is a pool with two workers.
\<close>

section \<open>A pool with two workers\<close>

definition duo_threads :: "nat \<Rightarrow> (thread \<Rightarrow> int) \<Rightarrow> thread_sys" where
  "duo_threads n ids = (set_slot 1 (fresh_slot (Other_thread 1) True 0 1 2 new_thread_state)
     (set_slot 0 (fresh_slot (Other_thread 0) True 0 0 1 new_thread_state) (initial_threads 1)))\<lparr>th_next := 3,
     th_counter := int n, th_ids := ids\<rparr>"

definition duo_state :: "nat \<Rightarrow> (thread \<Rightarrow> int) \<Rightarrow> int list \<Rightarrow> (addr \<times> job) list \<Rightarrow> scheduler \<Rightarrow> job_sys" where
  "duo_state n ids rcs js S = \<lparr>js_threads = (duo_threads n ids)\<lparr>th_shared := pool_heap rcs\<rparr>, js_jobs = map_of js,
     js_pools = [1 \<mapsto> \<lparr>po_scheduler = 2, po_nthreads = 2\<rparr>], js_scheds = [2 \<mapsto> S],
     currentThreadPoolRef = (\<lambda>_. 0), currentJobRef = (\<lambda>_. 0), js_name_lock = new_lock True\<rparr>"

definition duo_sched :: "64 word \<Rightarrow> addr list \<Rightarrow> lock \<Rightarrow> cond_var \<Rightarrow> worker \<Rightarrow> worker \<Rightarrow> scheduler" where
  "duo_sched n q l c w w' = (new_scheduler 2)\<lparr>next_jobid := n, sc_threads := [0, 1], global_queue := q,
     thread_queues := [[], [], []], sc_cond := c, sc_lock := l, sc_workers := [(1, 0, w), (2, 1, w')]\<rparr>"

lemmas duo_defs = duo_state_def duo_sched_def duo_threads_def

lemma second_slot:
  shows "ts_active ts \<Longrightarrow> find_inactive 0 ((replicate MAX_THREADS new_thread_state)[0 := ts]) = Some 1"
    and "replicate MAX_THREADS new_thread_state ! Suc 0 = new_thread_state" and "Suc 0 < MAX_THREADS"
  by (simp_all add: MAX_THREADS_def numeral_eq_Suc new_thread_state_def)

lemma two_numbers: "[0..<2] = [0, 1]"
  by (simp add: upt_rec)

lemma duo_createThreadPool: "createThreadPool (\<lambda>_. True) sample_job_env 0 [L_int 2] (initial_jobs 1) =
  Done (Reply (L_blackbox 410 1), duo_state 0 (\<lambda>_. 0) [1, 3] [] (duo_sched 0 [] (new_lock True) new_cond W_start W_start))"
  by (simp add: createThreadPool_def run_defs new_ThreadPool_def heap_defs newThread_cases free_thread_slot sample_th
    addThread_def state_defs duo_defs initial_jobs_def two_numbers second_slot)
    (simp add: newThread_cases heap_defs addThread_def update_sched_def the_sched_def lookup_ptr_def put_sched_def initial_threads_def set_slot_def fun_eq_iff slot_def fresh_slot_def MAX_THREADS_pos second_slot numeral_2_eq_2 numeral_3_eq_3
      sample_shared_types_def)

text \<open>Both workers wait.\<close>

definition waiting :: "thread list \<Rightarrow> thread list \<Rightarrow> cond_var" where
  "waiting as bs = \<lparr>cv_waiting = int (length as + length bs), sleepers = map (\<lambda>t. (t, 1)) as, woken = map (\<lambda>t. (t, 1)) bs\<rparr>"

definition held_by :: "thread \<Rightarrow> lock" where
  "held_by t = \<lparr>mutex = Some t, owner = Some t, locked = 1, recursive = True\<rparr>"

lemma duo_first_begins: "worker_step sample_job_env 1 2 (duo_state 0 (\<lambda>_. 0) [1, 3] [] (duo_sched 0 [] (new_lock True) new_cond W_start W_start)) =
  Done (duo_state 1 ((\<lambda>_. 0)(1 := 1)) [1, 3] [] (duo_sched 0 [] (held_by 1) new_cond W_loop W_start))"
  by (simp add: run_worker_defs held_by_def sync_defs state_defs duo_defs sample_th set_slot_fields)
    (simp add: initial_threads_def set_slot_def new_lock_def)?

lemma duo_first_waits: "worker_step sample_job_env 1 2 (duo_state 1 ((\<lambda>_. 0)(1 := 1)) [1, 3] [] (duo_sched 0 [] (held_by 1) new_cond W_loop W_start)) =
  Done (duo_state 1 ((\<lambda>_. 0)(1 := 1)) [1, 3] [] (duo_sched 0 [] (new_lock True) (waiting [1] []) W_wait W_start))"
  by (simp add: run_worker_defs held_by_def waiting_def sync_defs state_defs duo_defs)

lemma duo_second_begins: "worker_step sample_job_env 2 2 (duo_state 1 ((\<lambda>_. 0)(1 := 1)) [1, 3] [] (duo_sched 0 [] (new_lock True) (waiting [1] []) W_wait W_start)) =
  Done (duo_state 2 ((\<lambda>_. 0)(1 := 1, 2 := 2)) [1, 3] [] (duo_sched 0 [] (held_by 2) (waiting [1] []) W_wait W_loop))"
  by (simp add: run_worker_defs held_by_def waiting_def sync_defs state_defs duo_defs sample_th set_slot_fields)
    (simp add: initial_threads_def set_slot_def new_lock_def)?

lemma duo_second_waits: "worker_step sample_job_env 2 2 (duo_state 2 ((\<lambda>_. 0)(1 := 1, 2 := 2)) [1, 3] [] (duo_sched 0 [] (held_by 2) (waiting [1] []) W_wait W_loop)) =
  Done (duo_state 2 ((\<lambda>_. 0)(1 := 1, 2 := 2)) [1, 3] [] (duo_sched 0 [] (new_lock True) (waiting [1, 2] []) W_wait W_wait))"
  by (simp add: run_worker_defs held_by_def waiting_def sync_defs state_defs duo_defs)

lemma duo_startJob: "startJob sample_job_env 0 [L_blackbox 410 1, L_string (text_bytes ''f'')]
    (duo_state 2 ((\<lambda>_. 0)(1 := 1, 2 := 2)) [1, 3] [] (duo_sched 0 [] (new_lock True) (waiting [1, 2] []) W_wait W_wait)) =
  Done (Reply (L_blackbox 411 3), duo_state 2 ((\<lambda>_. 0)(1 := 1, 2 := 2)) [1, 3, 2] [(3, first_job False False [] [])]
     (duo_sched 1 [3] (new_lock True) (waiting [2] [1]) W_wait W_wait))"
  by (simp add: startJob_def start_job_def run_defs heap_defs has_pool_def has_prio_def prio_arg_def pool_arg_def
    alloc_job_def addJobArgs_unlocked_def scheduler_of_def attachJob_def locked_sched_def sched_lock_def sched_unlock_def job_ready_def kind_ready_def
    push_global_def signal_cond_def sync_defs state_defs duo_defs waiting_def first_job_def new_job_def remove_nth_def)
    (simp add: fun_upd_twist)

lemma sample_work_of: "sample_reach s \<Longrightarrow> worker_step sample_job_env t sc s = Done s' \<Longrightarrow> sample_reach s'"
  unfolding sample_reach_def by (blast intro: reach_step js_worker)

lemma duo_reached:
  "sample_reach (duo_state 2 ((\<lambda>_. 0)(1 := 1, 2 := 2)) [1, 3, 2] [(3, first_job False False [] [])]
     (duo_sched 1 [3] (new_lock True) (waiting [2] [1]) W_wait W_wait))"
proof -
  have "sample_reach (initial_jobs 1)" by (auto simp: sample_reach_def intro: reach_init)
  then have "sample_reach (duo_state 0 (\<lambda>_. 0) [1, 3] [] (duo_sched 0 [] (new_lock True) new_cond W_start W_start))"
    by (rule sample_command [where c = "createThreadPool (\<lambda>_. True)", OF _ _ duo_createThreadPool]) (simp add: pool_commands_def)
  note duo = sample_work_of [OF sample_work_of [OF sample_work_of [OF sample_work_of [OF this duo_first_begins]
    duo_first_waits] duo_second_begins] duo_second_waits]
  show ?thesis
    by (rule sample_command [where c = "startJob", OF duo _ duo_startJob]) (simp add: pool_commands_def)
qed

section \<open>No queued job is forgotten\<close>

text \<open>
  C4. No queued job is forgotten: in every run, when a job is in the queue of a pool that is not
  shutting down and a worker sleeps on the condition variable of the pool, then somebody has been
  woken up to look into the queue, or a worker is not waiting, and will look into the queue
  before it waits. That is so although \<open>signal\<close> reaches one sleeper only, jobs come in from
  commands, triggers and finished jobs, and sleepers may wake up for no reason. (The queues of
  single workers, which \<open>threadPoolExec\<close> fills without a signal, have no such guarantee.)
\<close>

theorem queued_jobs_are_noticed:
  assumes "kernel_ok J" and "reach (\<lambda>s. \<exists>n. s = initial_jobs n) (job_step J) s"
    and "js_scheds s sc = Some S" and "global_queue S \<noteq> []" and "\<not> shutting_down S"
    and "sleepers (sc_cond S) \<noteq> []"
  shows "woken (sc_cond S) \<noteq> [] \<or>
    (\<exists>t num w. map_of (sc_workers S) t = Some (num, w) \<and> w \<noteq> W_wait \<and> w \<noteq> W_exit)"
proof -
  have "pool_live S"
    using reachable_job_inv [OF assms(1,2)] assms(3) by (simp add: job_inv_def scheds_live_def)
  moreover have "active_worker w \<longleftrightarrow> w \<noteq> W_wait \<and> w \<noteq> W_exit" for w by (cases w) simp_all
  ultimately show ?thesis using assms(4-6) by (simp add: pool_live_def has_active_def)
qed

theorem queued_jobs_are_noticed_witness:
  "\<exists>s S. reach (\<lambda>s. \<exists>n. s = initial_jobs n) (job_step sample_job_env) s \<and> js_scheds s 2 = Some S \<and>
     global_queue S = [3] \<and> sleepers (sc_cond S) = [(2, 1)] \<and> woken (sc_cond S) \<noteq> []"
proof -
  let ?S = "duo_sched 1 [3] (new_lock True) (waiting [2] [1]) W_wait W_wait"
  let ?s = "duo_state 2 ((\<lambda>_. 0)(1 := 1, 2 := 2)) [1, 3, 2] [(3, first_job False False [] [])] ?S"
  have r: "reach (\<lambda>s. \<exists>n. s = initial_jobs n) (job_step sample_job_env) ?s"
    using duo_reached by (simp add: sample_reach_def)
  have S: "js_scheds ?s 2 = Some ?S" by (simp add: duo_state_def)
  have q: "global_queue ?S = [3]" "\<not> shutting_down ?S" "sleepers (sc_cond ?S) = [(2, 1)]"
    by (simp_all add: duo_sched_def new_scheduler_def waiting_def)
  have "w = W_wait" if "map_of (sc_workers ?S) t = Some (num, w)" for t num w
    using that by (simp add: duo_sched_def split: if_splits)
  with queued_jobs_are_noticed [OF sample_job_env_simps(2) r S] q
  have "woken (sc_cond ?S) \<noteq> []" by fastforce
  with r S q show ?thesis by blast
qed

end
