(* ===== verification/Job_Order.thy ===== *)
theory Job_Order
  imports Scheduler Value_Transfer "HOL-Library.Multiset"
begin

text \<open>
  The order in which a scheduler takes jobs out of its global queue, and the number of
  activations after which a trigger fires.
\<close>

section \<open>The order of the global queue\<close>

text \<open>The reference: higher priority first, then the job attached earlier.\<close>

datatype job_rank = Rank (rank_prio: int) (rank_id: "64 word")

lemma job_rank_eq: "x = y \<longleftrightarrow> rank_prio x = rank_prio y \<and> rank_id x = rank_id y"
  by (cases x; cases y) simp

instantiation job_rank :: linorder
begin

definition less_job_rank :: "job_rank \<Rightarrow> job_rank \<Rightarrow> bool" where
  "x < y \<longleftrightarrow> rank_prio y < rank_prio x \<or> rank_prio x = rank_prio y \<and> rank_id x < rank_id y"

definition less_eq_job_rank :: "job_rank \<Rightarrow> job_rank \<Rightarrow> bool" where
  "(x :: job_rank) \<le> y \<longleftrightarrow> x < y \<or> x = y"

instance
  by intro_classes (auto simp: less_job_rank_def less_eq_job_rank_def job_rank_eq)

end

definition rank :: "job_sys \<Rightarrow> addr \<Rightarrow> job_rank" where
  "rank s p = Rank (jb_prio (the (js_jobs s p))) (jb_id (the (js_jobs s p)))"

definition equally_fast :: "job_sys \<Rightarrow> addr list \<Rightarrow> bool" where
  "equally_fast s q \<longleftrightarrow> (\<forall>p\<in>set q. js_jobs s p \<noteq> None) \<and>
     (\<forall>p\<in>set q. \<forall>r\<in>set q. jb_fast (the (js_jobs s p)) = jb_fast (the (js_jobs s r)))"

lemma job_after_rank:
  assumes "equally_fast s q" and "p \<in> set q" and "r \<in> set q"
  shows "job_after s p r \<longleftrightarrow> rank s r < rank s p"
proof -
  from assms obtain a b where "js_jobs s p = Some a" "js_jobs s r = Some b"
    unfolding equally_fast_def by blast
  moreover from this have "jb_fast a = jb_fast b" using assms unfolding equally_fast_def by (metis option.sel)
  ultimately show ?thesis by (auto simp: job_after_def JobCompare_def rank_def less_job_rank_def)
qed

lemma queue_top_rank:
  assumes fast: "equally_fast s q" and "q \<noteq> []"
  shows "queue_top pk (job_after s) q < length q \<and>
    (\<forall>r\<in>set q. rank s (q ! queue_top pk (job_after s) q) \<le> rank s r)"
proof -
  let ?P = "\<lambda>i. list_all (\<lambda>y. \<not> job_after s (q ! i) y) q"
  have P: "i < length q \<Longrightarrow> ?P i \<longleftrightarrow> (\<forall>r\<in>set q. rank s (q ! i) \<le> rank s r)" for i
    using job_after_rank [OF fast, of "q ! i"] by (auto simp: list_all_iff not_less)
  have "Min (rank s ` set q) \<in> rank s ` set q" using assms(2) by (intro Min_in) simp_all
  then obtain r where r: "r \<in> set q" "rank s r = Min (rank s ` set q)" by (metis imageE)
  then obtain k where k: "k < length q" "q ! k = r" by (auto simp: in_set_conv_nth)
  have "\<forall>x\<in>set q. rank s (q ! k) \<le> rank s x" using k(2) r(2) by simp
  then have "?P k" using P [OF k(1)] by blast
  then obtain i where i: "find ?P [0..<length q] = Some i"
    using k(1) by (cases "find ?P [0..<length q]") (auto simp: find_None_iff)
  then have "i < length q" "?P i" by (auto simp: find_Some_iff)
  with P i show ?thesis by (simp add: queue_top_def)
qed

lemma mset_remove_nth: "i < length q \<Longrightarrow> mset q = add_mset (q ! i) (mset (remove_nth i q))"
  by (subst id_take_nth_drop [of i q]) (simp_all add: remove_nth_def)

text \<open>
  The abstract queue is the list of the jobs in the order of their ranks: pushing inserts
  into it, taking the top takes its first element.
\<close>

definition in_order :: "job_sys \<Rightarrow> addr list \<Rightarrow> addr list" where
  "in_order s q = sort_key (rank s) q"

lemma sorted_unique:
  assumes "mset ps = mset qs" and "sorted (map f ps)" and "sorted (map f qs)" and "inj_on f (set qs)"
  shows "ps = qs"
proof -
  have "map f ps = sort (map f qs)"
    using assms(1,2) by (intro properties_for_sort [symmetric]) (simp_all add: mset_map)
  also have "\<dots> = map f qs" using assms(3) by (simp add: sorted_sort_id)
  finally have "map f ps = map f qs" .
  moreover have "set ps = set qs" using assms(1) by (rule mset_eq_setD)
  ultimately show ?thesis using assms(4) by (intro map_inj_on [of f ps qs]) simp_all
qed

lemma in_order_push:
  assumes "inj_on (rank s) (set (p # q))"
  shows "in_order s (q @ [p]) = insort_key (rank s) p (in_order s q)"
  unfolding in_order_def
proof (rule sorted_unique)
  show "inj_on (rank s) (set (insort_key (rank s) p (sort_key (rank s) q)))"
    using assms by (simp add: set_insort_key)
qed (simp_all add: sorted_insort_key)

lemma in_order_top:
  assumes "equally_fast s q" and "inj_on (rank s) (set q)" and "q \<noteq> []"
  shows "in_order s q = q ! queue_top pk (job_after s) q # in_order s (remove_nth (queue_top pk (job_after s) q) q)"
proof -
  let ?i = "queue_top pk (job_after s) q"
  from queue_top_rank [OF assms(1,3), of pk] have i: "?i < length q"
    and least: "\<forall>r\<in>set q. rank s (q ! ?i) \<le> rank s r" by auto
  note bag = mset_remove_nth [OF i]
  have subset: "set (remove_nth ?i q) \<subseteq> set q" and "set (q ! ?i # remove_nth ?i q) = set q"
    using mset_eq_setD [of q "q ! ?i # remove_nth ?i q"] bag by auto
  with least bag assms(2) show ?thesis
    unfolding in_order_def by (intro sorted_unique) auto
qed

text \<open>
  A worker (or the thread that waits in a pool without workers) at the head of its loop, with
  the lock, nothing in its own queue, and jobs of this scheduler in the global one, none of
  which has been cancelled.
\<close>

definition at_queue :: "thread \<Rightarrow> addr \<Rightarrow> nat \<Rightarrow> addr \<Rightarrow> job_sys \<Rightarrow> scheduler \<Rightarrow> bool" where
  "at_queue t sc num target s S \<longleftrightarrow> sc \<noteq> 0 \<and> js_scheds s sc = Some S \<and> is_locked t (sc_lock S) \<and>
     \<not> shutting_down S \<and> num < length (thread_queues S) \<and> thread_queues S ! num = [] \<and>
     (target \<noteq> 0 \<longrightarrow> (\<exists>j. js_jobs s target = Some j \<and> \<not> jb_done j)) \<and> global_queue S \<noteq> [] \<and>
     (\<forall>p\<in>set (global_queue S). p \<noteq> 0 \<and> scheduler_of_job p s = Done sc \<and>
        (\<exists>j. js_jobs s p = Some j \<and> \<not> jb_cancelled j))"

lemma signal_cond_held:
  assumes "sc \<noteq> 0" and "js_scheds s sc = Some S" and "is_locked t (sc_lock S)"
  shows "\<exists>c. (if b then signal_cond pk t sc s else Done s) = Done (put_sched sc (S\<lparr>sc_cond := c\<rparr>) s)"
proof (cases b)
  case True
  moreover obtain c where "cond_signal pk t (sc_lock S) (sc_cond S) = Done c"
    using assms(3) by (simp add: cond_signal_def)
  ultimately show ?thesis using assms by (auto simp: signal_cond_def the_sched_def lookup_ptr_def)
next
  case False
  have "put_sched sc (S\<lparr>sc_cond := sc_cond S\<rparr>) s = s" using assms(2) by (simp add: put_sched_def map_upd_triv)
  then show ?thesis using False by (intro exI [of _ "sc_cond S"]) simp
qed

lemma rank_put_sched [simp]: "rank (put_sched sc S s) = rank s"
  by (simp add: rank_def put_sched_def fun_eq_iff)

lemma main_run_begins:
  assumes "sc \<noteq> 0" and "js_scheds s sc = Some S" and "is_locked t (sc_lock S)"
    and "p \<noteq> 0" and "js_jobs s p = Some j" and "\<not> jb_cancelled j" and "scheduler_of_job p s = Done sc"
  shows "\<exists>s' S'. main_run E t sc p s = Done (W_run p, s') \<and> js_scheds s' sc = Some S' \<and>
    global_queue S' = global_queue S \<and> rank s' = rank s"
proof -
  obtain c where c: "(if global_queue S \<noteq> [] then signal_cond (pick E) t sc s else Done s) = Done (put_sched sc (S\<lparr>sc_cond := c\<rparr>) s)"
    using signal_cond_held [OF assms(1-3)] by blast
  obtain l where l: "unlock_lock t (sc_lock S) = Done l"
    using assms(3) by (cases "locked (sc_lock S) = 1") (auto simp: is_locked_def unlock_lock_def)
  obtain P where pool: "jb_pool j \<noteq> 0" "js_pools s (jb_pool j) = Some P" "po_scheduler P = sc"
    using assms(4,5,7) by (auto simp: scheduler_of_job_def the_job_def scheduler_of_def lookup_ptr_def split: if_splits option.splits)
  let ?s = "put_sched sc (S\<lparr>sc_cond := c, sc_lock := l\<rparr>) (s\<lparr>currentJobRef := (currentJobRef s)(t := p),
    js_jobs := (js_jobs s)(p \<mapsto> j\<lparr>jb_running := True\<rparr>)\<rparr>)"
  have "main_run E t sc p s = Done (W_run p, ?s)"
    using assms(1-6) c l pool by (simp add: main_run_def run_begin_def the_sched_def the_job_def update_job_def lookup_ptr_def
        scheduler_of_job_def scheduler_of_def sched_unlock_def put_sched_def)
  moreover have "rank ?s = rank s"
    using assms(5) by (auto simp: rank_def put_sched_def)
  ultimately show ?thesis by (intro exI [of _ ?s] exI) (auto simp: put_sched_def)
qed

lemma main_pass_takes_top:
  assumes "at_queue t sc num target s S" and i: "i = queue_top (pick E) (job_after s) (global_queue S)"
    and "i < length (global_queue S)"
  shows "\<exists>s' S'. main_pass E t sc num target s = Done (W_run (global_queue S ! i), s') \<and> js_scheds s' sc = Some S' \<and>
    global_queue S' = remove_nth i (global_queue S) \<and> rank s' = rank s"
proof -
  let ?p = "global_queue S ! i" and ?S = "S\<lparr>global_queue := remove_nth i (global_queue S)\<rparr>"
  have S: "sc \<noteq> 0" "js_scheds s sc = Some S" "is_locked t (sc_lock S)" using assms(1) by (simp_all add: at_queue_def)
  have "?p \<in> set (global_queue S)" using assms(3) by simp
  then obtain j where p: "?p \<noteq> 0" "js_jobs s ?p = Some j" "\<not> jb_cancelled j" "scheduler_of_job ?p s = Done sc"
    using assms(1) unfolding at_queue_def by blast
  obtain x q where q: "global_queue S = x # q" using assms(3) by (cases "global_queue S") auto
  have "main_pass E t sc num target s = main_run E t sc ?p (put_sched sc ?S s)"
    using assms(1) q unfolding i
    by (auto simp: at_queue_def main_pass_def the_sched_def the_job_def lookup_ptr_def update_sched_def Let_def)
  moreover have "js_scheds (put_sched sc ?S s) sc = Some ?S" "js_jobs (put_sched sc ?S s) ?p = Some j"
    "scheduler_of_job ?p (put_sched sc ?S s) = Done sc"
    using p by (simp_all add: put_sched_def scheduler_of_job_def the_job_def scheduler_of_def)
  ultimately show ?thesis
    using main_run_begins [OF S(1), of "put_sched sc ?S s" ?S t ?p j E] S(3) p(1,3) by simp
qed

text \<open>
  C28. The global queue keeps the jobs in the order of their priorities and, among jobs of
  equal priority, in the order in which they were attached, when all of them are triggers or
  none is and their ranks (priority and number) are distinct: \<open>push_global\<close> inserts a job into
  that order, and a pass of the main loop that finds its own queue empty takes the first job
  and leaves the others. With triggers among other jobs there is no such order: of a trigger
  and a job of higher priority, \<open>JobCompare\<close> says of each that it comes after the other.
\<close>

theorem queue_order:
  assumes "at_queue t sc num target s S" and "equally_fast s (global_queue S)"
    and "inj_on (rank s) (insert p (set (global_queue S)))"
  shows "(\<exists>s' S'. push_global sc p s = Done s' \<and> js_scheds s' sc = Some S' \<and>
      in_order s' (global_queue S') = insort_key (rank s) p (in_order s (global_queue S))) \<and>
    (\<exists>s' S' first. main_pass E t sc num target s = Done (W_run first, s') \<and> js_scheds s' sc = Some S' \<and>
      in_order s (global_queue S) = first # in_order s' (global_queue S')) \<and>
    (jb_fast a \<and> \<not> jb_fast b \<and> jb_prio a < jb_prio b \<longrightarrow> JobCompare a b \<and> JobCompare b a)"
proof (intro conjI)
  have S: "sc \<noteq> 0" "js_scheds s sc = Some S" "global_queue S \<noteq> []" using assms(1) by (simp_all add: at_queue_def)
  let ?s = "put_sched sc (S\<lparr>global_queue := global_queue S @ [p]\<rparr>) s"
  have "push_global sc p s = Done ?s"
    using S by (simp add: push_global_def update_sched_def the_sched_def lookup_ptr_def)
  moreover have "in_order ?s = in_order s" by (intro ext) (simp add: in_order_def)
  ultimately show "\<exists>s' S'. push_global sc p s = Done s' \<and> js_scheds s' sc = Some S' \<and>
      in_order s' (global_queue S') = insort_key (rank s) p (in_order s (global_queue S))"
    using in_order_push [of s p "global_queue S"] assms(3) by (simp add: put_sched_def)
  let ?i = "queue_top (pick E) (job_after s) (global_queue S)"
  have "?i < length (global_queue S)" using queue_top_rank [OF assms(2) S(3)] by simp
  from main_pass_takes_top [OF assms(1) refl this] obtain s' S' where
    "main_pass E t sc num target s = Done (W_run (global_queue S ! ?i), s')" "js_scheds s' sc = Some S'"
    "global_queue S' = remove_nth ?i (global_queue S)" "rank s' = rank s" by blast
  moreover from this have "in_order s' = in_order s" using \<open>rank s' = rank s\<close> by (intro ext) (simp only: in_order_def)
  moreover have "inj_on (rank s) (set (global_queue S))" using assms(3) by (simp add: inj_on_def)
  ultimately show "\<exists>s' S' first. main_pass E t sc num target s = Done (W_run first, s') \<and> js_scheds s' sc = Some S' \<and>
      in_order s (global_queue S) = first # in_order s' (global_queue S')"
    using in_order_top [OF assms(2) _ S(3), of "pick E"] by metis
qed (simp add: JobCompare_def)

definition order_sched :: scheduler where
  "order_sched = (new_scheduler 1)\<lparr>next_jobid := 3, global_queue := [1, 3], thread_queues := [[], []],
     sc_lock := \<lparr>mutex = Some 7, owner = Some 7, locked = 1, recursive = True\<rparr>\<rparr>"

definition order_sys :: job_sys where
  "order_sys = (initial_jobs 1)\<lparr>js_jobs := [1 \<mapsto> (new_job EvalJob)\<lparr>jb_pool := 8, jb_id := 0\<rparr>,
     2 \<mapsto> (new_job EvalJob)\<lparr>jb_pool := 8, jb_prio := 5, jb_id := 1\<rparr>,
     3 \<mapsto> (new_job EvalJob)\<lparr>jb_pool := 8, jb_prio := 5, jb_id := 2\<rparr>],
     js_pools := [8 \<mapsto> \<lparr>po_scheduler = 9, po_nthreads = 1\<rparr>], js_scheds := [9 \<mapsto> order_sched]\<rparr>"

theorem queue_order_witness:
  "(\<exists>s' S'. push_global 9 2 order_sys = Done s' \<and> js_scheds s' 9 = Some S' \<and> in_order s' (global_queue S') = [2, 3, 1]) \<and>
   (\<exists>s' S'. main_pass sample_env 7 9 0 0 order_sys = Done (W_run 3, s') \<and> js_scheds s' 9 = Some S' \<and>
     in_order s' (global_queue S') = [1])"
proof -
  have rank: "rank order_sys 1 = Rank 0 0" "rank order_sys 2 = Rank 5 1" "rank order_sys 3 = Rank 5 2"
    by (simp_all add: rank_def order_sys_def new_job_def)
  have q: "global_queue order_sched = [1, 3]" by (simp add: order_sched_def)
  have fast: "equally_fast order_sys [1, 3]" by (simp add: equally_fast_def order_sys_def new_job_def)
  have inj: "inj_on (rank order_sys) (insert 2 (set [1, 3]))" by (simp add: rank)
  have at: "at_queue 7 9 0 0 order_sys order_sched"
    by (simp add: at_queue_def q scheduler_of_job_def scheduler_of_def the_job_def lookup_ptr_def)
      (simp add: order_sys_def order_sched_def new_scheduler_def new_job_def is_locked_def)
  have "in_order order_sys [1, 3] = [3, 1]"
    by (simp add: in_order_def rank less_eq_job_rank_def less_job_rank_def)
  moreover have "insort_key (rank order_sys) 2 [3, 1] = [2, 3, 1]"
    by (simp add: rank less_eq_job_rank_def less_job_rank_def)
  ultimately show ?thesis
    using queue_order [OF at, unfolded q, OF fast inj, of sample_env] by auto metis
qed

section \<open>Triggers\<close>

lemma unat_count: "0 \<le> n \<Longrightarrow> n < 2 ^ 63 \<Longrightarrow> unat (word_of_int n :: 64 word) = nat n"
  by (simp add: unsigned_of_int take_bit_int_eq_self)

lemma ready_no_deps: "js_jobs s p = Some j \<Longrightarrow> p \<noteq> 0 \<Longrightarrow> jb_deps j = [] \<Longrightarrow> job_ready p s = Done (kind_ready j)"
  by (simp add: job_ready_def the_job_def lookup_ptr_def)

lemma count_run:
  assumes "js_jobs s p = Some j" and "p \<noteq> 0" and "jb_deps j = []" and "jb_kind j = CountTrigger n" and "0 \<le> n"
  shows "\<exists>s' j'. fold_flow (\<lambda>_. activate E t p []) (replicate k ()) s = Done s' \<and> js_jobs s' p = Some j' \<and>
    jb_deps j' = [] \<and> jb_kind j' = CountTrigger (max 0 (n - int k))"
  using assms
proof (induction k arbitrary: s j n)
  case (Suc k)
  note ready = ready_no_deps [OF Suc.prems(1-3)]
  show ?case
  proof (cases "n = 0")
    case True
    then have "activate E t p [] s = Done s"
      using Suc.prems ready by (simp add: activate_def count_activate_def the_job_def lookup_ptr_def kind_ready_def count_ready_def)
    then show ?thesis using Suc.IH [OF Suc.prems] True by simp
  next
    case False
    let ?j = "j\<lparr>jb_kind := CountTrigger (n - 1)\<rparr>"
    let ?s = "s\<lparr>js_jobs := (js_jobs s)(p \<mapsto> ?j)\<rparr>"
    have "activate E t p [] s = Done ?s"
      using Suc.prems ready False by (simp add: activate_def count_activate_def update_job_def the_job_def
          lookup_ptr_def kind_ready_def count_ready_def)
    moreover have "max 0 (n - 1 - int k) = max 0 (n - int (Suc k))" by simp
    ultimately show ?thesis
      using Suc.IH [of ?s ?j "n - 1"] Suc.prems False by simp
  qed
qed simp

lemma acc_run:
  assumes "env_ok E" and "\<forall>v\<in>set vs. transferable E v"
    and "js_jobs s p = Some j" and "p \<noteq> 0" and "jb_deps j = []" and "jb_kind j = AccTrigger n" and "0 \<le> n" and "n < 2 ^ 63"
    and "int (length (jb_args j)) \<le> n"
  shows "\<exists>s' j'. fold_flow (\<lambda>v. activate E t p [v]) vs s = Done s' \<and> js_jobs s' p = Some j' \<and> jb_deps j' = [] \<and>
    jb_kind j' = AccTrigger n \<and> int (length (jb_args j')) = min n (int (length (jb_args j) + length vs))"
  using assms
proof (induction vs arbitrary: s j)
  case (Cons v vs)
  note ready = ready_no_deps [OF Cons.prems(3-5)]
  have kind: "kind_ready j' \<longleftrightarrow> n \<le> int (length (jb_args j'))" if "jb_kind j' = AccTrigger n" for j'
    using that Cons.prems(7,8) by (simp add: kind_ready_def acc_ready_def unat_count nat_le_iff)
  show ?case
  proof (cases "n \<le> int (length (jb_args j))")
    case True
    then have "activate E t p [v] s = Done s"
      using Cons.prems ready kind by (simp add: activate_def the_job_def lookup_ptr_def)
    then show ?thesis using Cons.IH [OF Cons.prems(1) _ Cons.prems(3-9)] Cons.prems(2,9) True by simp
  next
    case False
    have "transferable E v" using Cons.prems(2) by simp
    from value_encoding [OF Cons.prems(1) this] obtain str where
      str: "\<And>h. encode_value E v h = Done (str, add_refs E v h)" by blast
    let ?j = "j\<lparr>jb_args := jb_args j @ [str]\<rparr>"
    let ?s = "(set_heap (add_refs E v (heap s)) s)\<lparr>js_jobs := (js_jobs s)(p \<mapsto> ?j)\<rparr>"
    have "job_ready p ?s = Done (kind_ready ?j)"
      using Cons.prems by (intro ready_no_deps) (simp_all add: set_heap_def)
    then have "activate E t p [v] s = Done ?s"
      using Cons.prems ready kind False str
      by (simp add: activate_def update_job_def the_job_def lookup_ptr_def encode_in_def on_heap_def set_heap_def)
    then show ?thesis
      using Cons.IH [of ?s ?j] Cons.prems False by simp
  qed
qed simp

text \<open>
  C39. Triggers without dependencies fire after the right number of activations, except one
  kind: a trigger that counts to \<open>n\<close> is ready exactly from the \<open>n\<close>-th activation on, one that
  accumulates \<open>n\<close> values exactly when it has been given \<open>n\<close>, but one that waits for a set of
  numbers that is not empty takes no notice of any number and never gets ready.
\<close>

theorem triggers_fire:
  assumes "js_jobs s p = Some j" and "p \<noteq> 0" and "jb_deps j = []" and "0 \<le> n" and "n < 2 ^ 63"
    and "env_ok E" and "\<forall>v\<in>set vs. transferable E v"
  shows "(jb_kind j = CountTrigger n \<longrightarrow>
      (\<exists>s'. fold_flow (\<lambda>_. activate E t p []) (replicate k ()) s = Done s' \<and> job_ready p s' = Done (n \<le> int k))) \<and>
    (jb_kind j = AccTrigger n \<and> jb_args j = [] \<longrightarrow>
      (\<exists>s'. fold_flow (\<lambda>v. activate E t p [v]) vs s = Done s' \<and> job_ready p s' = Done (n \<le> int (length vs)))) \<and>
    (jb_kind j = SetTrigger seen 0 \<and> seen \<noteq> [] \<longrightarrow>
      fold_flow (\<lambda>i. activate E t p [L_int i]) nums s = Done s \<and> job_ready p s = Done False)"
proof (intro conjI impI)
  assume "jb_kind j = CountTrigger n"
  from count_run [OF assms(1-3) this assms(4), of E t k] assms(2)
  show "\<exists>s'. fold_flow (\<lambda>_. activate E t p []) (replicate k ()) s = Done s' \<and> job_ready p s' = Done (n \<le> int k)"
    by (auto simp: ready_no_deps kind_ready_def count_ready_def)
next
  assume "jb_kind j = AccTrigger n \<and> jb_args j = []"
  with acc_run [OF assms(6,7,1-3) _ assms(4,5), of t] assms(2,4,5)
  show "\<exists>s'. fold_flow (\<lambda>v. activate E t p [v]) vs s = Done s' \<and> job_ready p s' = Done (n \<le> int (length vs))"
    by (auto simp: ready_no_deps kind_ready_def acc_ready_def unat_count nat_le_iff)
next
  assume set: "jb_kind j = SetTrigger seen 0 \<and> seen \<noteq> []"
  then show ready: "job_ready p s = Done False"
    using assms(1-3) by (simp add: ready_no_deps kind_ready_def set_ready_def)
  have "activate E t p [L_int i] s = Done s" for i
    using assms(1,2) set ready by (simp add: activate_def set_activate_def the_job_def lookup_ptr_def Let_def not_less)
  then show "fold_flow (\<lambda>i. activate E t p [L_int i]) nums s = Done s" by (induction nums) simp_all
qed

definition trigger_sys :: job_sys where
  "trigger_sys = (initial_jobs 1)\<lparr>js_jobs := [4 \<mapsto> new_job (CountTrigger 2), 5 \<mapsto> new_job (AccTrigger 2),
     6 \<mapsto> new_job (SetTrigger [False, False] 0)]\<rparr>"

theorem triggers_fire_witness:
  "(\<exists>s'. fold_flow (\<lambda>_. activate sample_env 0 4 []) (replicate 2 ()) trigger_sys = Done s' \<and> job_ready 4 s' = Done True) \<and>
   (\<exists>s'. fold_flow (\<lambda>v. activate sample_env 0 5 [v]) [sample_message] trigger_sys = Done s' \<and> job_ready 5 s' = Done False) \<and>
   fold_flow (\<lambda>i. activate sample_env 0 6 [L_int i]) [0, 1] trigger_sys = Done trigger_sys \<and>
   job_ready 6 trigger_sys = Done False"
proof -
  have jobs: "js_jobs trigger_sys 4 = Some (new_job (CountTrigger 2))" "js_jobs trigger_sys 5 = Some (new_job (AccTrigger 2))"
    "js_jobs trigger_sys 6 = Some (new_job (SetTrigger [False, False] 0))" by (simp_all add: trigger_sys_def)
  have deps: "jb_deps (new_job kd) = []" "jb_args (new_job kd) = []" "jb_kind (new_job kd) = kd" for kd
    by (simp_all add: new_job_def)
  note fire = triggers_fire [OF _ _ deps(1) _ _ sample_env_ok, where vs = "[sample_message]" and n = 2]
  show ?thesis
    using fire [OF jobs(1), where k = 2] fire [OF jobs(2)] fire [OF jobs(3), where nums = "[0, 1]" and seen = "[False, False]"]
    by (simp add: deps sample_message_ok(1) del: fold_flow.simps replicate.simps)
qed

end
