(* ===== verification/Job_Results.thy ===== *)
theory Job_Results
  imports Pool_Wakeups Job_Order
begin

text \<open>
  What a job computes: a procedure called with values in another thread, and its result
  fetched from there. A pool with a worker at rest is taken through all the steps.
\<close>

section \<open>The scheduler's lock and conditions on known shapes\<close>

lemma held_lock [lock_simps]:
  "lock_lock t (new_lock True) = Done (held_by t)" "unlock_lock t (held_by t) = Done (new_lock True)"
  "u \<noteq> t \<Longrightarrow> lock_lock u (held_by t) = Block"
  by (simp_all add: held_by_def new_lock_def lock_lock_def unlock_lock_def)

lemma held_fold [lock_simps]: "\<lparr>mutex = Some t, owner = Some t, locked = 1, recursive = True\<rparr> = held_by t"
  by (simp add: held_by_def)

lemma held_wait [lock_simps]:
  "cond_wait t (held_by t) (waiters A B) = Done (new_lock True, waiters (A @ [t]) B)"
  by (simp add: cond_wait_def held_by_def is_locked_def break_lock_def new_lock_def waiters_def)

lemma held_return [lock_simps]:
  "cond_wait_return t (new_lock True) (waiters A [t]) = Done (held_by t, waiters A [])"
  by (simp add: cond_wait_return_def held_by_def new_lock_def waiters_def resume_lock_def)

lemma held_signal [lock_simps]:
  "cond_signal pk t (held_by t) (waiters [] B) = Done (waiters [] B)"
  "cond_signal pk t (held_by t) (waiters [u] B) = Done (waiters [] (B @ [u]))"
  by (simp_all add: cond_signal_def held_by_def is_locked_def waiters_def pthread_cond_signal_def remove_nth_def)

section \<open>Reference counts\<close>

definition bump_refs :: "int \<Rightarrow> addr \<Rightarrow> shared_sys \<Rightarrow> shared_sys" where
  "bump_refs n p h = h\<lparr>objects := (objects h)(p := map_option (\<lambda>obj. obj\<lparr>so_refs := so_refs obj + n\<rparr>) (objects h p))\<rparr>"

lemma bump_refs_simps [simp]:
  "objects (bump_refs n p h) q = None \<longleftrightarrow> objects h q = None" "next_addr (bump_refs n p h) = next_addr h"
  by (simp_all add: bump_refs_def)

lemma counting:
  assumes "p \<noteq> 0" and "objects h p \<noteq> None"
  shows "acquireShared p h = Done (bump_refs 1 p h)" "releaseShared p h = Done (bump_refs (- 1) p h)"
    "incref p n h = Done (bump_refs 1 p h)"
  using assms
  by (auto simp: acquireShared_def releaseShared_def incref_def decref_def deref_def set_object_def bump_refs_def)

section \<open>Arguments and results\<close>

definition add_all_refs :: "env \<Rightarrow> leftv list \<Rightarrow> shared_sys \<Rightarrow> shared_sys" where
  "add_all_refs E vs h = fold (add_refs E) vs h"

lemma add_all_refs_simps [simp]:
  "objects (add_all_refs E vs h) q = None \<longleftrightarrow> objects h q = None" "next_addr (add_all_refs E vs h) = next_addr h"
  unfolding add_all_refs_def by (induction vs arbitrary: h) simp_all

text \<open>A value that is handed to a procedure as it is: it is not left out of the arguments.\<close>

definition passable :: "env \<Rightarrow> leftv \<Rightarrow> bool" where
  "passable E v \<longleftrightarrow> transferable E v \<and> typ_of E (value_image (interp E) v) \<noteq> t_NONE (tok (interp E))"

lemma decode_empty: "decode_value E [] h \<noteq> Done r"
proof -
  have "decode_prefix k S (source_lintree [] rc) = Crash Out_of_bounds" for k S rc
    by (simp add: decode_prefix_def get_int_def get_bytes_def source_lintree_def)
  then show ?thesis
    by (cases "fuel E") (simp_all add: decode_value_def from_string_def decode.simps)
qed

lemma argument_encoding:
  assumes "env_ok E" and "passable E v"
  obtains str where "\<And>h. encode_value E v h = Done (str, add_refs E v h)"
    and "\<And>argv h. appendArg E argv str h = Done (argv @ [value_image (interp E) v], add_refs E v h)"
proof -
  have "transferable E v" using assms(2) by (simp add: passable_def)
  from value_encoding [OF assms(1) this] obtain str where
    str: "\<And>h. encode_value E v h = Done (str, add_refs E v h)"
      "\<And>h. decode_value E str h = Done (value_image (interp E) v, add_refs E v h)" by blast
  moreover have "str \<noteq> []" using str(2) decode_empty by metis
  ultimately show thesis using assms(2) by (intro that [of str]) (simp_all add: appendArg_def passable_def)
qed

definition conveys_args :: "env \<Rightarrow> leftv list \<Rightarrow> bytes list \<Rightarrow> bool" where
  "conveys_args E vs strs \<longleftrightarrow>
     (\<forall>s p j. p \<noteq> 0 \<longrightarrow> js_jobs s p = Some j \<longrightarrow> addJobArgs_unlocked E p vs s =
        Done ((set_heap (add_all_refs E vs (heap s)) s)\<lparr>js_jobs := (js_jobs s)(p \<mapsto> j\<lparr>jb_args := jb_args j @ strs\<rparr>)\<rparr>)) \<and>
     (\<forall>argv s. append_args E strs (argv, s) =
        Done (argv @ map (value_image (interp E)) vs, set_heap (add_all_refs E vs (heap s)) s))"

lemma conveys_no_args: "conveys_args E [] []"
  by (simp add: conveys_args_def addJobArgs_unlocked_def append_args_def add_all_refs_def set_heap_def heap_def map_upd_triv)

lemma conveys_more_args:
  assumes "conveys_args E vs strs" and str: "\<And>h. encode_value E v h = Done (str, add_refs E v h)"
    "\<And>argv h. appendArg E argv str h = Done (argv @ [value_image (interp E) v], add_refs E v h)"
  shows "conveys_args E (v # vs) (str # strs)"
  unfolding conveys_args_def
proof (intro conjI allI impI)
  fix s p and j :: job
  let ?j = "j\<lparr>jb_args := jb_args j @ [str]\<rparr>"
  let ?s = "(set_heap (add_refs E v (heap s)) s)\<lparr>js_jobs := (js_jobs s)(p \<mapsto> ?j)\<rparr>"
  assume p: "p \<noteq> (0 :: addr)" "js_jobs s p = Some j"
  then have "addJobArgs_unlocked E p (v # vs) s = addJobArgs_unlocked E p vs ?s"
    by (simp add: addJobArgs_unlocked_def encode_in_def on_heap_def str update_job_def the_job_def lookup_ptr_def)
  also have "\<dots> = Done ((set_heap (add_all_refs E vs (heap ?s)) ?s)\<lparr>js_jobs :=
      (js_jobs ?s)(p \<mapsto> ?j\<lparr>jb_args := jb_args ?j @ strs\<rparr>)\<rparr>)"
    using p assms(1) by (simp add: conveys_args_def)
  finally show "addJobArgs_unlocked E p (v # vs) s = Done ((set_heap (add_all_refs E (v # vs) (heap s)) s)\<lparr>js_jobs :=
      (js_jobs s)(p \<mapsto> j\<lparr>jb_args := jb_args j @ str # strs\<rparr>)\<rparr>)"
    by (simp add: add_all_refs_def set_heap_def heap_def)
next
  fix argv s
  have "append_args E (str # strs) (argv, s) =
      append_args E strs (argv @ [value_image (interp E) v], set_heap (add_refs E v (heap s)) s)"
    by (simp add: append_args_def on_heap_def str)
  also have "\<dots> = Done (argv @ map (value_image (interp E)) (v # vs), set_heap (add_all_refs E (v # vs) (heap s)) s)"
    using assms(1) unfolding conveys_args_def by (simp add: add_all_refs_def set_heap_def heap_def)
  finally show "append_args E (str # strs) (argv, s) =
      Done (argv @ map (value_image (interp E)) (v # vs), set_heap (add_all_refs E (v # vs) (heap s)) s)" .
qed

lemma arguments_encoding:
  assumes "env_ok E" and "\<forall>v\<in>set vs. passable E v"
  shows "\<exists>strs. conveys_args E vs strs"
  using assms(2)
proof (induction vs)
  case (Cons v vs)
  then obtain strs where "conveys_args E vs strs" by auto
  moreover have "passable E v" using Cons.prems by simp
  ultimately show ?case using argument_encoding [OF assms(1)] conveys_more_args by metis
qed (blast intro: conveys_no_args)

text \<open>A result without shared objects: freeing it releases nothing.\<close>

fun plain :: "leftv \<Rightarrow> bool" where
  "plain (L_blackbox _ _) = False"
| "plain (L_list vs) = list_all plain vs"
| "plain (L_command _ _ a b c) = (plain a \<and> plain b \<and> plain c)"
| "plain _ = True"

lemma cleanup_plain: "plain v \<Longrightarrow> cleanup E t v h = Done h"
proof (induction v arbitrary: h rule: plain.induct)
  case (2 vs)
  then have "\<And>v h. v \<in> set vs \<Longrightarrow> cleanup E t v h = Done h" by (simp add: list_all_iff)
  then show ?case by (induction vs) simp_all
qed simp_all

section \<open>The states of the run\<close>

text \<open>
  The state \<open>s\<close> with the heap \<open>h\<close>, a job \<open>p\<close>, a scheduler \<open>sc\<close>, and the current job of
  each thread.
\<close>

definition job_at :: "addr \<Rightarrow> addr \<Rightarrow> job_sys \<Rightarrow> shared_sys \<Rightarrow> job \<Rightarrow> scheduler \<Rightarrow> (thread \<Rightarrow> addr) \<Rightarrow> job_sys" where
  "job_at p sc s h j S cur = s\<lparr>js_threads := (js_threads s)\<lparr>th_shared := h\<rparr>, js_jobs := (js_jobs s)(p \<mapsto> j),
     js_scheds := (js_scheds s)(sc \<mapsto> S), currentJobRef := cur\<rparr>"

lemma job_at_fields:
  "heap (job_at p sc s h j S cur) = h" "set_heap h' (job_at p sc s h j S cur) = job_at p sc s h' j S cur"
  "js_jobs (job_at p sc s h j S cur) p = Some j" "js_pools (job_at p sc s h j S cur) = js_pools s"
  "currentJobRef (job_at p sc s h j S cur) = cur"
  "(job_at p sc s h j S cur)\<lparr>currentJobRef := cur'\<rparr> = job_at p sc s h j S cur'"
  "(job_at p sc s h j S cur)\<lparr>js_jobs := (js_jobs (job_at p sc s h j S cur))(p \<mapsto> j')\<rparr> = job_at p sc s h j' S cur"
  "put_sched sc S' (job_at p sc s h j S cur) = job_at p sc s h j S' cur"
  by (simp_all add: job_at_def heap_def set_heap_def put_sched_def)

lemma job_at_access:
  assumes "p \<noteq> 0" and "sc \<noteq> 0"
  shows "the_job p (job_at p sc s h j S cur) = Done j"
    "update_job p f (job_at p sc s h j S cur) = Done (job_at p sc s h (f j) S cur)"
    "the_sched sc (job_at p sc s h j S cur) = Done S"
    "update_sched sc g (job_at p sc s h j S cur) = Done (job_at p sc s h j (g S) cur)"
  using assms
  by (simp_all add: the_job_def update_job_def the_sched_def update_sched_def lookup_ptr_def job_at_fields)
    (simp_all add: job_at_def put_sched_def)

lemma job_at_heap:
  assumes "p \<noteq> 0" and "objects h p \<noteq> None"
  shows "acquire_in p (job_at p sc s h j S cur) = Done (job_at p sc s (bump_refs 1 p h) j S cur)"
    "release_in p (job_at p sc s h j S cur) = Done (job_at p sc s (bump_refs (- 1) p h) j S cur)"
    "reply_object ty p (job_at p sc s h j S cur) = Done (Reply (L_blackbox ty p), job_at p sc s (bump_refs 1 p h) j S cur)"
  using counting [OF assms]
  by (simp_all add: acquire_in_def release_in_def reply_object_def on_heap_def reply_shared_def new_shared_def job_at_fields)

lemma job_at_locks:
  assumes "p \<noteq> 0" and "sc \<noteq> 0"
  shows "sched_lock t sc (job_at p sc s h j S cur) =
      map_flow_value (\<lambda>l. job_at p sc s h j (S\<lparr>sc_lock := l\<rparr>) cur) (lock_lock t (sc_lock S))"
    "sched_unlock t sc (job_at p sc s h j S cur) =
      map_flow_value (\<lambda>l. job_at p sc s h j (S\<lparr>sc_lock := l\<rparr>) cur) (unlock_lock t (sc_lock S))"
    "signal_cond pk t sc (job_at p sc s h j S cur) =
      map_flow_value (\<lambda>c. job_at p sc s h j (S\<lparr>sc_cond := c\<rparr>) cur) (cond_signal pk t (sc_lock S) (sc_cond S))"
    "signal_response pk t sc (job_at p sc s h j S cur) =
      map_flow_value (\<lambda>c. job_at p sc s h j (S\<lparr>sc_response := c\<rparr>) cur) (cond_signal pk t (sc_lock S) (sc_response S))"
  by (simp_all add: sched_lock_def sched_unlock_def signal_cond_def signal_response_def job_at_access [OF assms] job_at_fields)

lemmas job_at_rules = job_at_fields job_at_access job_at_heap job_at_locks

text \<open>A pool at rest: its worker \<open>w\<close> sleeps, there is nothing to do, and nobody waits.\<close>

definition at_rest :: "thread \<Rightarrow> nat \<Rightarrow> scheduler \<Rightarrow> bool" where
  "at_rest w num S \<longleftrightarrow> \<not> single_threaded S \<and> \<not> shutting_down S \<and> sc_lock S = new_lock True \<and> global_queue S = [] \<and>
     num < length (thread_queues S) \<and> thread_queues S ! num = [] \<and> sc_cond S = waiters [w] [] \<and>
     sc_response S = waiters [] [] \<and> map_of (sc_workers S) w = Some (num, W_wait)"

text \<open>The job on its way.\<close>

definition proc_job :: "bytes \<Rightarrow> addr \<Rightarrow> 64 word \<Rightarrow> bytes list \<Rightarrow> job" where
  "proc_job nm pool n strs = (new_job (ProcJob nm))\<lparr>jb_pool := pool, jb_id := n, jb_args := strs\<rparr>"

lemma proc_job_fields [simp]:
  "jb_kind (proc_job nm pool n strs) = ProcJob nm" "jb_pool (proc_job nm pool n strs) = pool"
  "jb_args (proc_job nm pool n strs) = strs" "jb_deps (proc_job nm pool n strs) = []"
  "jb_notify (proc_job nm pool n strs) = []" "jb_triggers (proc_job nm pool n strs) = []"
  "\<not> jb_cancelled (proc_job nm pool n strs)" "\<not> jb_done (proc_job nm pool n strs)"
  by (simp_all add: proc_job_def new_job_def)

definition pool_ready :: "job_sys \<Rightarrow> addr \<Rightarrow> addr \<Rightarrow> thread \<Rightarrow> nat \<Rightarrow> scheduler \<Rightarrow> bool" where
  "pool_ready s pool sc w num S \<longleftrightarrow> pool \<noteq> 0 \<and> sc \<noteq> 0 \<and>
     (\<exists>P. js_pools s pool = Some P \<and> po_scheduler P = sc) \<and> js_scheds s sc = Some S \<and> at_rest w num S \<and>
     0 < next_addr (heap s) \<and> next_addr (heap s) < 2 ^ 64"

lemma ready_scheduler:
  assumes "pool_ready s pool sc w num S"
  shows "scheduler_of pool (job_at p sc s h j S' cur) = Done sc"
  using assms by (auto simp: pool_ready_def scheduler_of_def lookup_ptr_def job_at_fields)

lemma ready_scheduler_of_job:
  assumes "pool_ready s pool sc w num S" and "p \<noteq> 0" and "jb_pool j = pool"
  shows "scheduler_of_job p (job_at p sc s h j S' cur) = Done sc"
  using assms ready_scheduler [OF assms(1)]
  by (auto simp: scheduler_of_job_def job_at_access pool_ready_def)

lemma ready_alloc:
  assumes "pool_ready s pool sc w num S"
  obtains p h where "p \<noteq> 0" "objects h p \<noteq> None"
    "alloc_job E (ProcJob nm) s = Done (p, job_at p sc s h (new_job (ProcJob nm)) S (currentJobRef s))"
proof -
  let ?p = "word_of_nat (next_addr (heap s)) :: addr"
  have "?p \<noteq> 0" using assms by (auto simp: pool_ready_def word_of_nat_eq_0_iff dest: dvd_imp_le)
  moreover have "js_scheds s sc = Some S" "next_addr (heap s) < 2 ^ 64" using assms by (simp_all add: pool_ready_def)
  ultimately show thesis
    by (intro that [of ?p]) (auto simp: alloc_job_def new_object_def on_heap_def allocate_def Let_def job_at_def set_heap_def
        fun_upd_idem)
qed

text \<open>A type number the library got is none of the interpreter's.\<close>

lemma string_type:
  assumes "env_ok E"
  shows "t_STRING_CMD (tok (interp E)) \<noteq> t_INT_CMD (tok (interp E))"
    "t_STRING_CMD (tok (interp E)) \<noteq> type_job (types E)" "t_STRING_CMD (tok (interp E)) \<noteq> type_threadpool (types E)"
proof -
  have fresh: "distinct (token_list (tok (interp E)))"
    "\<And>ty. ty \<in> set (shared_type_list (types E)) \<Longrightarrow> ty \<notin> set (token_list (tok (interp E)))"
    using assms unfolding env_ok_def tokens_ok_def fresh_types_def by blast+
  show "t_STRING_CMD (tok (interp E)) \<noteq> t_INT_CMD (tok (interp E))"
    by (rule not_sym) (use fresh(1) in \<open>simp add: token_list_def\<close>)
  have "t_STRING_CMD (tok (interp E)) \<in> set (token_list (tok (interp E)))" by (simp add: token_list_def)
  moreover have "{type_job (types E), type_threadpool (types E)} \<subseteq> set (shared_type_list (types E))"
    by (simp add: shared_type_list_def)
  ultimately show "t_STRING_CMD (tok (interp E)) \<noteq> type_job (types E)"
    "t_STRING_CMD (tok (interp E)) \<noteq> type_threadpool (types E)" using fresh(2) by fastforce+
qed

lemma start_gives_job:
  assumes "env_ok (je_env J)" and ready: "pool_ready s pool sc w num S" and args: "conveys_args (je_env J) vs strs"
  obtains p h where "p \<noteq> 0" "objects h p \<noteq> None"
    "startJob J t (L_blackbox (type_threadpool (types (je_env J))) pool # L_string nm # vs) s =
       Done (Reply (L_blackbox (type_job (types (je_env J))) p), job_at p sc s h (proc_job (c_string nm) pool (next_jobid S) strs)
         (S\<lparr>next_jobid := next_jobid S + 1, global_queue := [p], sc_cond := waiters [] [w]\<rparr>) (currentJobRef s))"
proof -
  let ?E = "je_env J" and ?cur = "currentJobRef s"
  obtain p h where p: "p \<noteq> 0" "objects h p \<noteq> None" and alloc:
    "alloc_job ?E (ProcJob (c_string nm)) s = Done (p, job_at p sc s h (new_job (ProcJob (c_string nm))) S ?cur)"
    using ready_alloc [OF ready] .
  have sc: "sc \<noteq> 0" "pool \<noteq> 0" using ready by (simp_all add: pool_ready_def)
  have rest: "sc_lock S = new_lock True" "global_queue S = []" "sc_cond S = waiters [w] []"
    using ready by (simp_all add: pool_ready_def at_rest_def)
  have unscheduled_new: "jb_pool (new_job k) = 0" for k by (simp add: new_job_def)
  let ?h = "add_all_refs ?E vs h" and ?j = "(new_job (ProcJob (c_string nm)))\<lparr>jb_args := strs\<rparr>"
  let ?S = "S\<lparr>next_jobid := next_jobid S + 1, global_queue := [p], sc_cond := waiters [] [w]\<rparr>"
  have addArgs: "addJobArgs_unlocked ?E p vs (job_at p sc s h (new_job (ProcJob (c_string nm))) S ?cur) =
      Done (job_at p sc s ?h ?j S ?cur)"
    using args p(1) by (simp add: conveys_args_def job_at_fields new_job_def) (simp add: job_at_def set_heap_def heap_def)
  have attach: "attachJob (pick ?E) t sc pool p (job_at p sc s ?h (?j\<lparr>jb_prio := 0\<rparr>) S ?cur) =
      Done (job_at p sc s (bump_refs 1 p ?h) (proc_job (c_string nm) pool (next_jobid S) strs) ?S ?cur)"
    using p sc rest
    by (simp add: attachJob_def locked_sched_def job_at_rules lock_simps job_ready_def kind_ready_def push_global_def
        proc_job_def new_job_def) (use rest in \<open>cases S; simp\<close>)
  show thesis
  proof (rule that [of p "bump_refs 1 p (bump_refs 1 p ?h)"])
    show "startJob J t (L_blackbox (type_threadpool (types ?E)) pool # L_string nm # vs) s =
        Done (Reply (L_blackbox (type_job (types ?E)) p), job_at p sc s (bump_refs 1 p (bump_refs 1 p ?h))
          (proc_job (c_string nm) pool (next_jobid S) strs) ?S ?cur)"
      using string_type [OF assms(1)] p sc
      by (simp add: startJob_def start_job_def Let_def has_pool_def has_prio_def test_arg_def typ_of_def prio_arg_def pool_arg_def
          run_command_def check_argc_min_def check_init_def check_arg_either_def nth_arg_def unless_def alloc addArgs
          job_at_rules ready_scheduler [OF ready] attach unscheduled_new)
  qed (use p in simp_all)
qed

text \<open>The scheduler while the worker is about the job: with the lock \<open>l\<close> and its queue \<open>q\<close>.\<close>

definition busy :: "thread \<Rightarrow> nat \<Rightarrow> scheduler \<Rightarrow> addr list \<Rightarrow> lock \<Rightarrow> worker \<Rightarrow> scheduler" where
  "busy w num S q l x = S\<lparr>next_jobid := next_jobid S + 1, global_queue := q, sc_cond := waiters [] [], sc_lock := l,
     sc_workers := AList.update w (num, x) (sc_workers S)\<rparr>"

lemma busy_fields [simp]:
  "global_queue (busy w num S q l x) = q" "sc_lock (busy w num S q l x) = l" "sc_cond (busy w num S q l x) = waiters [] []"
  "map_of (sc_workers (busy w num S q l x)) w = Some (num, x)" "shutting_down (busy w num S q l x) = shutting_down S"
  "single_threaded (busy w num S q l x) = single_threaded S" "thread_queues (busy w num S q l x) = thread_queues S"
  "sc_response (busy w num S q l x) = sc_response S"
  "(busy w num S q l x)\<lparr>sc_lock := l'\<rparr> = busy w num S q l' x"
  "(busy w num S q l x)\<lparr>global_queue := q'\<rparr> = busy w num S q' l x"
  "(busy w num S q l x)\<lparr>sc_workers := AList.update w (num, x') (sc_workers (busy w num S q l x))\<rparr> = busy w num S q l x'"
  by (simp_all add: busy_def update_conv')

lemma busy_response: "sc_response S = c \<Longrightarrow> (busy w num S q l x)\<lparr>sc_response := c\<rparr> = busy w num S q l x"
  by (cases S) (simp add: busy_def)

lemma worker_wakes:
  assumes ready: "pool_ready s pool sc w num S" and "p \<noteq> 0"
  shows "worker_step J w sc (job_at p sc s h j
      (S\<lparr>next_jobid := next_jobid S + 1, global_queue := [p], sc_cond := waiters [] [w]\<rparr>) cur) =
    Done (job_at p sc s h j (busy w num S [p] (held_by w) W_loop) cur)"
proof -
  have "sc \<noteq> 0" "map_of (sc_workers S) w = Some (num, W_wait)" "sc_lock S = new_lock True"
    using ready by (simp_all add: pool_ready_def at_rest_def)
  then show ?thesis
    using assms(2)
    by (simp add: worker_step_def main_wake_def set_worker_def job_at_rules lock_simps) (cases S; simp add: busy_def)
qed

lemma worker_takes:
  assumes ready: "pool_ready s pool sc w num S" and "p \<noteq> 0" and "jb_pool j = pool" and "\<not> jb_cancelled j"
  shows "worker_step J w sc (job_at p sc s h j (busy w num S [p] (held_by w) W_loop) cur) =
    Done (job_at p sc s h (j\<lparr>jb_running := True\<rparr>) (busy w num S [] (new_lock True) (W_run p)) (cur(w := p)))"
proof -
  have rest: "sc \<noteq> 0" "\<not> shutting_down S" "num < length (thread_queues S)" "thread_queues S ! num = []"
    using ready by (simp_all add: pool_ready_def at_rest_def)
  have top: "queue_top pk after [p] = 0" for pk after
    using queue_top_less [of "[p]" pk after] by simp
  show ?thesis
    using assms(2-4) rest
    by (simp add: worker_step_def main_pass_def Let_def top remove_nth_def main_run_def run_begin_def set_worker_def
        job_at_rules lock_simps ready_scheduler_of_job [OF ready])
qed

text \<open>A procedure's job executed, for any scheduler nobody waits on.\<close>

lemma finish_at:
  assumes p: "p \<noteq> 0" "objects h p \<noteq> None" "sc \<noteq> 0"
    and sc: "\<And>h j S cur. jb_pool j = pool \<Longrightarrow> scheduler_of_job p (job_at p sc s h j S cur) = Done sc"
    and j: "jb_kind j = ProcJob nm" "jb_pool j = pool" "jb_deps j = []" "jb_notify j = []" "jb_triggers j = []"
    and args: "conveys_args (je_env J) vs (jb_args j)"
    and call: "executeProc (je_env J) nm (map (value_image (interp (je_env J))) vs) = Inr r" and "plain r"
    and enc: "\<And>h. encode_value (je_env J) r h = Done (res, add_refs (je_env J) r h)"
    and S: "sc_lock S = new_lock True" "sc_response S = waiters [] []"
  shows "main_finish J t sc p (job_at p sc s h j S cur) = Done (W_loop, job_at p sc s
    (bump_refs (- 1) p (bump_refs 1 p (add_refs (je_env J) r (add_all_refs (je_env J) vs h))))
    (j\<lparr>jb_result := res, jb_running := False, jb_done := True\<rparr>) (S\<lparr>sc_lock := held_by t\<rparr>) (cur(t := 0)))"
proof -
  let ?E = "je_env J"
  have argv: "append_args ?E (jb_args j) ([], job_at p sc s h j S cur) =
      Done (map (value_image (interp ?E)) vs, job_at p sc s (add_all_refs ?E vs h) j S cur)"
    using args unfolding conveys_args_def by (simp add: job_at_fields)
  have none: "append_args ?E [] x = Done x" for x by (simp add: append_args_def)
  have executed: "execute J t p (job_at p sc s h j S cur) =
      Done (job_at p sc s (add_refs ?E r (add_all_refs ?E vs h)) (j\<lparr>jb_result := res\<rparr>) S cur)"
    using p j call assms(12)
    by (simp add: execute_def Let_def job_argv_def argv none set_job_result_def encode_in_def on_heap_def enc cleanup_in_def
        cleanup_plain job_at_rules)
  have same: "S\<lparr>sc_lock := l, sc_response := waiters [] []\<rparr> = S\<lparr>sc_lock := l\<rparr>" for l using S(2) by (cases S) simp
  show ?thesis
    using p j S executed
    by (simp add: same main_finish_def run_end_def sc main_after_def notifyDeps_def counting job_at_rules lock_simps)
qed

lemma worker_finishes:
  assumes ready: "pool_ready s pool sc w num S" and p: "p \<noteq> 0" "objects h p \<noteq> None"
    and args: "conveys_args (je_env J) vs strs"
    and call: "executeProc (je_env J) nm (map (value_image (interp (je_env J))) vs) = Inr r" and "plain r"
    and enc: "\<And>h. encode_value (je_env J) r h = Done (res, add_refs (je_env J) r h)"
  obtains h' j where "objects h' p \<noteq> None" "jb_pool j = pool" "jb_done j" "\<not> jb_cancelled j" "jb_result j = res"
    "worker_step J w sc (job_at p sc s h ((proc_job nm pool n strs)\<lparr>jb_running := True\<rparr>)
        (busy w num S [] (new_lock True) (W_run p)) (cur(w := p))) =
      Done (job_at p sc s h' j (busy w num S [] (held_by w) W_loop) (cur(w := 0)))"
proof -
  have sc: "sc \<noteq> 0" "sc_response S = waiters [] []" using ready by (simp_all add: pool_ready_def at_rest_def)
  let ?j = "(proc_job nm pool n strs)\<lparr>jb_running := True\<rparr>" and ?S = "busy w num S [] (new_lock True) (W_run p)"
  have "conveys_args (je_env J) vs (jb_args ?j)" using args by simp
  note finish = finish_at [of p h sc pool s ?j nm J vs r res ?S w "cur(w := p)", OF p sc(1) ready_scheduler_of_job [OF ready p(1)]
    _ _ _ _ _ this call assms(6) enc]
  show thesis
  proof (rule that [of "bump_refs (- 1) p (bump_refs 1 p (add_refs (je_env J) r (add_all_refs (je_env J) vs h)))"
        "?j\<lparr>jb_result := res, jb_running := False, jb_done := True\<rparr>"])
    show "worker_step J w sc (job_at p sc s h ?j ?S (cur(w := p))) =
      Done (job_at p sc s (bump_refs (- 1) p (bump_refs 1 p (add_refs (je_env J) r (add_all_refs (je_env J) vs h))))
        (?j\<lparr>jb_result := res, jb_running := False, jb_done := True\<rparr>) (busy w num S [] (held_by w) W_loop) (cur(w := 0)))"
      using p sc finish by (simp add: worker_step_def set_worker_def job_at_rules)
  qed (use p in simp_all)
qed

lemma worker_rests:
  assumes ready: "pool_ready s pool sc w num S" and "p \<noteq> 0"
  shows "worker_step J w sc (job_at p sc s h j (busy w num S [] (held_by w) W_loop) cur) =
    Done (job_at p sc s h j (S\<lparr>next_jobid := next_jobid S + 1\<rparr>) cur)"
proof -
  have rest: "sc \<noteq> 0" "\<not> shutting_down S" "num < length (thread_queues S)" "thread_queues S ! num = []" "\<not> single_threaded S"
    "sc_lock S = new_lock True" "sc_cond S = waiters [w] []" "global_queue S = []"
    "AList.update w (num, W_wait) (sc_workers S) = sc_workers S"
    using ready by (simp_all add: pool_ready_def at_rest_def update_triv)
  then show ?thesis
    using assms(2)
    by (simp add: worker_step_def main_pass_def set_worker_def job_at_rules lock_simps) (cases S; simp add: busy_def)
qed

lemma wait_returns:
  assumes ready: "pool_ready s pool sc w num S" and p: "p \<noteq> 0"
    and j: "jb_pool j = pool" "jb_done j" "\<not> jb_cancelled j" "jb_result j = res" "res \<noteq> []"
    and dec: "\<And>h. decode_value (je_env J) res h = Done (v, g h)"
  shows "waitJob k J u [L_blackbox (type_job (types (je_env J))) p] (job_at p sc s h j (S\<lparr>next_jobid := n\<rparr>) cur) =
    Done (Reply v, job_at p sc s (g h) j (S\<lparr>next_jobid := n\<rparr>) cur)"
proof -
  have rest: "sc \<noteq> 0" "pool \<noteq> 0" "\<not> single_threaded S" "sc_lock S = new_lock True" "sc_response S = waiters [] []"
    using ready by (simp_all add: pool_ready_def at_rest_def)
  then show ?thesis
    using p j
    by (simp add: waitJob_def run_command_def check_argc_def check_arg_def check_init_def nth_arg_def unless_def typ_of_def
        ready_scheduler [OF ready] sched_waitJob_def wait_loop_def wait_reply_def decode_in_def on_heap_def dec
        job_at_rules lock_simps) (cases S; simp)
qed

section \<open>A job from start to end\<close>

text \<open>
  C5. A job computes what its procedure computes, in another thread: when a pool's worker is
  at rest, \<open>startJob\<close> with a name and values wakes it; it takes the job, calls the procedure
  with the values (on whose journey names and commands in them are evaluated), and goes back
  to sleep; \<open>waitJob\<close> by any thread then returns the result, and the pool is as it was,
  except for the number of its next job.
\<close>

theorem job_computes:
  assumes "env_ok (je_env J)" and "pool_ready s pool sc w num S" and "\<forall>v\<in>set vs. passable (je_env J) v"
    and "executeProc (je_env J) (c_string nm) (map (value_image (interp (je_env J))) vs) = Inr r"
    and "transferable (je_env J) r" and "plain r"
  shows "\<exists>p s1 s2 s3 s4 s5 s6.
    startJob J t (L_blackbox (type_threadpool (types (je_env J))) pool # L_string nm # vs) s =
      Done (Reply (L_blackbox (type_job (types (je_env J))) p), s1) \<and>
    worker_step J w sc s1 = Done s2 \<and> worker_step J w sc s2 = Done s3 \<and>
    worker_step J w sc s3 = Done s4 \<and> worker_step J w sc s4 = Done s5 \<and>
    waitJob k J u [L_blackbox (type_job (types (je_env J))) p] s5 =
      Done (Reply (value_image (interp (je_env J)) r), s6) \<and>
    js_scheds s6 sc = Some (S\<lparr>next_jobid := next_jobid S + 1\<rparr>)"
proof -
  obtain strs where args: "conveys_args (je_env J) vs strs" using arguments_encoding [OF assms(1,3)] ..
  obtain res where res: "\<And>h. encode_value (je_env J) r h = Done (res, add_refs (je_env J) r h)"
    "\<And>h. decode_value (je_env J) res h = Done (value_image (interp (je_env J)) r, add_refs (je_env J) r h)"
    using value_encoding [OF assms(1,5)] by blast
  have "res \<noteq> []" using res(2) decode_empty by metis
  obtain p h where p: "p \<noteq> 0" "objects h p \<noteq> None" and 1:
    "startJob J t (L_blackbox (type_threadpool (types (je_env J))) pool # L_string nm # vs) s =
       Done (Reply (L_blackbox (type_job (types (je_env J))) p), job_at p sc s h (proc_job (c_string nm) pool (next_jobid S) strs)
         (S\<lparr>next_jobid := next_jobid S + 1, global_queue := [p], sc_cond := waiters [] [w]\<rparr>) (currentJobRef s))"
    using start_gives_job [OF assms(1,2) args] .
  note 2 = worker_wakes [OF assms(2) p(1)]
  note 3 = worker_takes [OF assms(2) p(1), of "proc_job (c_string nm) pool (next_jobid S) strs", simplified proc_job_fields]
  obtain h' j where j: "jb_pool j = pool" "jb_done j" "\<not> jb_cancelled j" "jb_result j = res" and 4:
    "worker_step J w sc (job_at p sc s h ((proc_job (c_string nm) pool (next_jobid S) strs)\<lparr>jb_running := True\<rparr>)
        (busy w num S [] (new_lock True) (W_run p)) ((currentJobRef s)(w := p))) =
      Done (job_at p sc s h' j (busy w num S [] (held_by w) W_loop) ((currentJobRef s)(w := 0)))"
    using worker_finishes [OF assms(2) p args assms(4,6) res(1)] by blast
  note 5 = worker_rests [OF assms(2) p(1)]
  note 6 = wait_returns [OF assms(2) p(1) j \<open>res \<noteq> []\<close> res(2)]
  have "js_scheds (job_at p sc s h j S' cur) sc = Some S'" for h j S' cur by (simp add: job_at_def)
  then show ?thesis by (intro exI conjI) (rule 1 2 3 4 5 6 | simp)+
qed

text \<open>An environment whose procedures return the list of their arguments.\<close>

definition listing_env :: env where
  "listing_env = sample_env\<lparr>call_proc := \<lambda>_ argv. Some (L_list argv)\<rparr>"

definition listing_job_env :: job_env where
  "listing_job_env = sample_job_env\<lparr>je_env := listing_env\<rparr>"

lemma listing_env_simps [simp]:
  "je_env listing_job_env = listing_env" "interp listing_env = sample_singular" "types listing_env = sample_shared_types"
  "executeProc listing_env nm argv = Inr (L_list argv)" "env_ok listing_env"
  "transferable listing_env v = transferable sample_env v"
  using sample_env_ok
  by (simp_all add: listing_job_env_def listing_env_def sample_env_def executeProc_def env_ok_def transferable_def)

definition resting_pool :: job_sys where
  "resting_pool = pool_state 1 [1, 2] [] ((pool_sched 0 [] [] (new_lock True) W_wait)\<lparr>sc_cond := waiters [1] []\<rparr>) 0"

theorem job_computes_witness:
  "\<exists>p s1 s2 s3 s4 s5 s6.
    startJob listing_job_env 0 [L_blackbox 410 1, L_string [102], L_int 5, L_string [104, 105]] resting_pool =
      Done (Reply (L_blackbox 411 p), s1) \<and>
    worker_step listing_job_env 1 2 s1 = Done s2 \<and> worker_step listing_job_env 1 2 s2 = Done s3 \<and>
    worker_step listing_job_env 1 2 s3 = Done s4 \<and> worker_step listing_job_env 1 2 s4 = Done s5 \<and>
    waitJob 0 listing_job_env 7 [L_blackbox 411 p] s5 = Done (Reply (L_list [L_int 5, L_string [104, 105]]), s6) \<and>
    js_scheds s6 2 \<noteq> None"
proof -
  let ?S = "(pool_sched 0 [] [] (new_lock True) W_wait)\<lparr>sc_cond := waiters [1] []\<rparr>"
  let ?vs = "[L_int 5, L_string [104, 105]]"
  have ready: "pool_ready resting_pool 1 2 1 0 ?S"
    by (simp add: pool_ready_def at_rest_def resting_pool_def pool_state_def pool_sched_def new_scheduler_def heap_def
        pool_heap_def lock_simps)
  have image: "value_image sample_singular (L_int 5) = L_int 5"
    "value_image sample_singular (L_string [104, 105]) = L_string [104, 105]" "value_image sample_singular (L_list ?vs) = L_list ?vs"
    by (simp_all add: c_string_def sample_singular_def)
  have transfer: "transferable sample_env (L_int 5)" "transferable sample_env (L_string [104, 105])" "transferable sample_env (L_list ?vs)"
    by (simp_all add: transferable_def c_string_def) (simp_all add: sample_env_def sample_singular_def)
  have "\<forall>v\<in>set ?vs. passable listing_env v"
    using transfer image by (simp add: passable_def typ_of_def sample_tokens_def)
  with job_computes [where J = listing_job_env, OF _ ready, of ?vs "[102]" "L_list ?vs" 0 0 7] transfer image
  show ?thesis by (simp add: sample_shared_types_def) blast
qed

end
