(* ===== verification/Solo_Pool.thy ===== *)
theory Solo_Pool
  imports Job_Results
begin

text \<open>
  Pools without threads: the thread that waits for a job runs the jobs of the queue, in
  their order, until that job is done.
\<close>

section \<open>Jobs and pools\<close>

text \<open>
  A pool without threads, its lock aside; and a job of a procedure that returns \<open>r\<close>, which
  depends on no job and on which no job or trigger depends.
\<close>

definition solo_pool :: "job_sys \<Rightarrow> addr \<Rightarrow> addr \<Rightarrow> scheduler \<Rightarrow> bool" where
  "solo_pool s pool sc S \<longleftrightarrow> pool \<noteq> 0 \<and> sc \<noteq> 0 \<and> (\<exists>P. js_pools s pool = Some P \<and> po_scheduler P = sc) \<and>
     js_scheds s sc = Some S \<and> objects (heap s) sc \<noteq> None \<and> single_threaded S \<and> \<not> shutting_down S \<and>
     0 < length (thread_queues S) \<and> thread_queues S ! 0 = [] \<and> sc_cond S = waiters [] [] \<and> sc_response S = waiters [] []"

definition returns :: "job_env \<Rightarrow> job \<Rightarrow> leftv \<Rightarrow> bool" where
  "returns J j r \<longleftrightarrow> (\<exists>nm vs. jb_kind j = ProcJob nm \<and> conveys_args (je_env J) vs (jb_args j) \<and>
     executeProc (je_env J) nm (map (value_image (interp (je_env J))) vs) = Inr r) \<and>
     transferable (je_env J) r \<and> plain r"

definition simple_job :: "job_env \<Rightarrow> job_sys \<Rightarrow> addr \<Rightarrow> addr \<Rightarrow> leftv \<Rightarrow> bool" where
  "simple_job J s pool p r \<longleftrightarrow> p \<noteq> 0 \<and> objects (heap s) p \<noteq> None \<and>
     (\<exists>j. js_jobs s p = Some j \<and> returns J j r \<and> jb_pool j = pool \<and> jb_deps j = [] \<and> jb_notify j = [] \<and>
        jb_triggers j = [] \<and> \<not> jb_cancelled j \<and> \<not> jb_done j \<and> \<not> jb_fast j)"

lemma job_at_same:
  "js_jobs s p = Some j \<Longrightarrow> js_scheds s sc = Some S \<Longrightarrow> job_at p sc s (heap s) j S (currentJobRef s) = s"
  by (cases s) (auto simp: job_at_def heap_def map_upd_triv)

lemma solo_scheduler: "solo_pool s pool sc S \<Longrightarrow> scheduler_of pool (job_at p sc s h j S' cur) = Done sc"
  by (auto simp: solo_pool_def scheduler_of_def lookup_ptr_def job_at_fields)

section \<open>One job\<close>

lemma solo_pass:
  assumes solo: "solo_pool s pool sc S" and "sc_lock S = held_by t" and p: "p \<noteq> 0" "jb_pool j = pool" "\<not> jb_cancelled j"
    and i: "queue_top (pick E) (job_after (job_at p sc s h j S cur)) (global_queue S) = i" "global_queue S \<noteq> []"
      "global_queue S ! i = p"
    and target: "target \<noteq> 0" "the_job target (job_at p sc s h j S cur) = Done j0" "\<not> jb_done j0"
  shows "main_pass E t sc 0 target (job_at p sc s h j S cur) = Done (W_run p, job_at p sc s h (j\<lparr>jb_running := True\<rparr>)
    (S\<lparr>global_queue := remove_nth i (global_queue S), sc_lock := new_lock True\<rparr>) (cur(t := p)))"
proof -
  have S: "sc \<noteq> 0" "single_threaded S" "\<not> shutting_down S" "thread_queues S ! 0 = []" "thread_queues S \<noteq> []"
    "sc_cond S = waiters [] []" "pool \<noteq> 0"
    using solo by (auto simp: solo_pool_def)
  obtain x q where q: "global_queue S = x # q" using i(2) by (cases "global_queue S") auto
  have same: "S\<lparr>global_queue := u, sc_cond := waiters [] []\<rparr> = S\<lparr>global_queue := u\<rparr>" for u using S(6) by (cases S) simp
  show ?thesis
    using p i target S assms(2)
    by (simp add: main_pass_def Let_def main_run_def run_begin_def scheduler_of_job_def solo_scheduler [OF solo] q
        job_at_rules lock_simps same)
qed

text \<open>
  What the loop does with the first job of the queue: the job is done, with the result \<open>r\<close>
  of its procedure, and nothing else changes.
\<close>

definition finished :: "job_env \<Rightarrow> addr \<Rightarrow> leftv \<Rightarrow> job_sys \<Rightarrow> job_sys \<Rightarrow> bool" where
  "finished J p r s s' \<longleftrightarrow> (\<exists>j res. js_jobs s p = Some j \<and>
     js_jobs s' p = Some (j\<lparr>jb_result := res, jb_running := False, jb_done := True\<rparr>) \<and>
     (\<forall>h. decode_value (je_env J) res h = Done (value_image (interp (je_env J)) r, add_refs (je_env J) r h)))"

definition ran :: "job_env \<Rightarrow> addr \<Rightarrow> leftv \<Rightarrow> job_sys \<Rightarrow> job_sys \<Rightarrow> bool" where
  "ran J p r s s' \<longleftrightarrow> finished J p r s s' \<and> (\<forall>q. q \<noteq> p \<longrightarrow> js_jobs s' q = js_jobs s q) \<and>
     (\<forall>q. objects (heap s') q = None \<longleftrightarrow> objects (heap s) q = None)"

lemma solo_step:
  assumes env: "env_ok (je_env J)" and solo: "solo_pool s pool sc S" and lock: "sc_lock S = held_by t"
    and i: "queue_top (pick (je_env J)) (job_after s) (global_queue S) = i" "global_queue S \<noteq> []" "global_queue S ! i = p"
    and job: "simple_job J s pool p r"
    and target: "target \<noteq> 0" "js_jobs s target = Some j0" "\<not> jb_done j0"
  shows "\<exists>s'. main_loop (Suc k) J t sc target s = main_loop k J t sc target s' \<and> ran J p r s s' \<and>
    solo_pool s' pool sc (S\<lparr>global_queue := remove_nth i (global_queue S)\<rparr>)"
proof -
  let ?E = "je_env J" and ?S = "S\<lparr>global_queue := remove_nth i (global_queue S)\<rparr>" and ?cur = "currentJobRef s"
  obtain j nm vs where p: "p \<noteq> 0" "objects (heap s) p \<noteq> None" and js: "js_jobs s p = Some j"
    and j: "jb_kind j = ProcJob nm" "jb_pool j = pool" "jb_deps j = []" "jb_notify j = []" "jb_triggers j = []" "\<not> jb_cancelled j"
    and args: "conveys_args ?E vs (jb_args j)" and call: "executeProc ?E nm (map (value_image (interp ?E)) vs) = Inr r"
    and r: "transferable ?E r" "plain r"
    using job by (auto simp: simple_job_def returns_def)
  have S: "js_scheds s sc = Some S" "sc \<noteq> 0" "sc_response S = waiters [] []" using solo by (simp_all add: solo_pool_def)
  note here = job_at_same [OF js S(1)]
  obtain res where enc: "\<And>h. encode_value ?E r h = Done (res, add_refs ?E r h)"
    and dec: "\<And>h. decode_value ?E res h = Done (value_image (interp ?E) r, add_refs ?E r h)"
    using value_encoding [OF env r(1)] by blast
  let ?h = "bump_refs (- 1) p (bump_refs 1 p (add_refs ?E r (add_all_refs ?E vs (heap s))))"
  let ?j = "j\<lparr>jb_running := True, jb_result := res, jb_running := False, jb_done := True\<rparr>"
  let ?s = "job_at p sc s ?h ?j (?S\<lparr>sc_lock := held_by t\<rparr>) (?cur(t := 0))"
  have pass: "main_pass ?E t sc 0 target s = Done (W_run p, job_at p sc s (heap s) (j\<lparr>jb_running := True\<rparr>)
      (?S\<lparr>sc_lock := new_lock True\<rparr>) (?cur(t := p)))"
    using solo_pass [OF solo lock p(1) j(2,6), where cur = ?cur and h = "heap s" and E = ?E, unfolded here, OF i target(1) _ target(3)] target
    by (simp add: the_job_def lookup_ptr_def)
  have sched: "scheduler_of_job p (job_at p sc s h x S' cur) = Done sc" if "jb_pool x = pool" for h x S' cur
    using that p S(2) solo solo_scheduler [OF solo] by (auto simp: scheduler_of_job_def job_at_access solo_pool_def)
  have finish: "main_finish J t sc p (job_at p sc s (heap s) (j\<lparr>jb_running := True\<rparr>) (?S\<lparr>sc_lock := new_lock True\<rparr>) (?cur(t := p))) =
      Done (W_loop, ?s)"
    by (subst finish_at [OF p S(2) sched _ _ _ _ _ _ call r(2) enc]) (use j args S(3) in simp_all)
  have "main_loop (Suc k) J t sc target s = main_loop k J t sc target ?s"
    by (simp add: pass finish)
  moreover have "ran J p r s ?s"
    using js dec by (auto simp: ran_def finished_def job_at_fields) (auto simp: job_at_def)
  moreover have "solo_pool ?s pool sc ?S"
    using solo lock by (auto simp: solo_pool_def job_at_fields) (cases S; simp add: job_at_def)
  ultimately show ?thesis by blast
qed

section \<open>The loop\<close>

text \<open>The jobs that are run: those that come before the target in the queue, and the target.\<close>

definition due :: "job_sys \<Rightarrow> addr \<Rightarrow> addr \<Rightarrow> bool" where
  "due s target p \<longleftrightarrow> rank s p \<le> rank s target"

lemma ran_fields:
  assumes "ran J p r s s'"
  shows "q \<noteq> p \<Longrightarrow> js_jobs s' q = js_jobs s q" "rank s' q = rank s q" "q \<noteq> p \<Longrightarrow> simple_job J s' pool q x \<longleftrightarrow> simple_job J s pool q x"
proof -
  show "rank s' q = rank s q" using assms by (cases "q = p") (auto simp: ran_def finished_def rank_def)
qed (use assms in \<open>auto simp: ran_def simple_job_def\<close>)

lemma solo_exit:
  assumes "solo_pool s pool sc S" and "sc_lock S = held_by t" and "js_jobs s target = Some j" and "jb_done j" and "target \<noteq> 0"
  shows "\<exists>s'. main_loop (Suc k) J t sc target s = Done s' \<and> solo_pool s' pool sc (S\<lparr>sc_lock := new_lock True\<rparr>) \<and>
    js_jobs s' = js_jobs s"
proof -
  let ?s = "put_sched sc (S\<lparr>sc_lock := new_lock True\<rparr>) s"
  have "main_loop (Suc k) J t sc target s = Done ?s"
    using assms by (simp add: main_pass_def the_sched_def the_job_def lookup_ptr_def sched_unlock_def lock_simps solo_pool_def)
  moreover have "solo_pool ?s pool sc (S\<lparr>sc_lock := new_lock True\<rparr>)"
    using assms(1) by (simp add: solo_pool_def put_sched_def heap_def)
  ultimately show ?thesis by (auto simp: put_sched_def)
qed

lemma filter_remove_nth: "i < length q \<Longrightarrow> \<not> P (q ! i) \<Longrightarrow> filter P (remove_nth i q) = filter P q"
  by (subst (2) id_take_nth_drop [of i q]) (simp_all add: remove_nth_def)

lemma set_remove_nth_distinct: "distinct q \<Longrightarrow> i < length q \<Longrightarrow> set (remove_nth i q) = set q - {q ! i} \<and> distinct (remove_nth i q)"
  by (subst (2) id_take_nth_drop [of i q], assumption, subst (asm) id_take_nth_drop [of i q], assumption)
    (auto simp: remove_nth_def)

lemma solo_loop:
  assumes env: "env_ok (je_env J)" and "solo_pool s pool sc S" and "sc_lock S = held_by t" and "distinct (global_queue S)"
    and "\<forall>p\<in>set (global_queue S). simple_job J s pool p (r p)" and "inj_on (rank s) (set (global_queue S))"
    and "target \<in> set (global_queue S)" and "length (global_queue S) < k"
  shows "\<exists>s'. main_loop k J t sc target s = Done s' \<and>
    solo_pool s' pool sc (S\<lparr>sc_lock := new_lock True, global_queue := filter (\<lambda>p. rank s target < rank s p) (global_queue S)\<rparr>) \<and>
    (\<forall>p. p \<notin> set (global_queue S) \<or> rank s target < rank s p \<longrightarrow> js_jobs s' p = js_jobs s p) \<and>
    (\<forall>p\<in>set (global_queue S). rank s p \<le> rank s target \<longrightarrow> finished J p (r p) s s')"
  using assms(2-)
proof (induction "length (global_queue S)" arbitrary: s S k)
  case 0
  then show ?case by simp
next
  case (Suc n)
  let ?q = "global_queue S" and ?i = "queue_top (pick (je_env J)) (job_after s) (global_queue S)"
  let ?p = "?q ! ?i" and ?S = "S\<lparr>global_queue := remove_nth ?i ?q\<rparr>"
  have "?q \<noteq> []" using Suc.prems(6) by auto
  have "equally_fast s ?q" using Suc.prems(4) unfolding equally_fast_def simple_job_def by fastforce
  from queue_top_rank [OF this \<open>?q \<noteq> []\<close>, of "pick (je_env J)"]
  have i: "?i < length ?q" and least: "\<And>x. x \<in> set ?q \<Longrightarrow> rank s ?p \<le> rank s x" by auto
  then have p: "?p \<in> set ?q" by simp
  obtain j0 where target: "target \<noteq> 0" "js_jobs s target = Some j0" "\<not> jb_done j0"
    using Suc.prems(4,6) by (auto simp: simple_job_def)
  obtain k' where k: "k = Suc k'" "n < k'" using Suc.prems(7) Suc.hyps(2) by (cases k) auto
  obtain s1 where s1: "main_loop k J t sc target s = main_loop k' J t sc target s1" "ran J ?p (r ?p) s s1" "solo_pool s1 pool sc ?S"
    using solo_step [OF env Suc.prems(1,2) refl \<open>?q \<noteq> []\<close> refl _ target, of "r ?p" k'] Suc.prems(4) p unfolding k by blast
  have rest: "set (remove_nth ?i ?q) = set ?q - {?p}" "distinct (remove_nth ?i ?q)"
    using set_remove_nth_distinct [OF Suc.prems(3) i] by auto
  note same = ran_fields [OF s1(2)]
  have fin: "finished J ?p (r ?p) s s1" using s1(2) by (simp add: ran_def)
  have filter: "filter (\<lambda>x. rank s target < rank s x) (remove_nth ?i ?q) = filter (\<lambda>x. rank s target < rank s x) ?q"
    using least [OF Suc.prems(6)] by (intro filter_remove_nth [OF i]) simp
  have swap: "S\<lparr>global_queue := u, sc_lock := l\<rparr> = S\<lparr>sc_lock := l, global_queue := u\<rparr>" for u l by (cases S) simp
  show ?case
  proof (cases "?p = target")
    case True
    then obtain j where "js_jobs s1 target = Some j" "jb_done j" using fin by (auto simp: finished_def)
    moreover obtain k'' where "k' = Suc k''" using k(2) by (cases k') auto
    ultimately obtain s' where s': "main_loop k' J t sc target s1 = Done s'" "solo_pool s' pool sc (?S\<lparr>sc_lock := new_lock True\<rparr>)"
      "js_jobs s' = js_jobs s1"
      using solo_exit [OF s1(3), of t target j] Suc.prems(2) target(1) by force
    have later: "rank s target < rank s x" if "x \<in> set (remove_nth ?i ?q)" for x
      using that rest least True Suc.prems(5) p by (metis DiffD1 DiffD2 inj_onD insertI1 order_le_imp_less_or_eq)
    then have "filter (\<lambda>x. rank s target < rank s x) ?q = remove_nth ?i ?q"
      unfolding filter [symmetric] by (simp add: filter_id_conv)
    then have "solo_pool s' pool sc (S\<lparr>sc_lock := new_lock True, global_queue := filter (\<lambda>x. rank s target < rank s x) ?q\<rparr>)"
      using s'(2) by (simp add: swap)
    moreover have "js_jobs s' x = js_jobs s x" if "x \<notin> set ?q \<or> rank s target < rank s x" for x
      using that True p same(1) [of x] s'(3) by auto
    moreover have "finished J x (r x) s s'" if "x \<in> set ?q" "rank s x \<le> rank s target" for x
    proof -
      have "x = target" using that later [of x] rest(1) True by fastforce
      then show ?thesis using fin True s'(3) by (simp add: finished_def)
    qed
    ultimately show ?thesis using s1(1) s'(1) by (intro exI [of _ s']) simp
  next
    case False
    have "\<exists>s'. main_loop k' J t sc target s1 = Done s' \<and>
      solo_pool s' pool sc (?S\<lparr>sc_lock := new_lock True, global_queue := filter (\<lambda>p. rank s1 target < rank s1 p) (global_queue ?S)\<rparr>) \<and>
      (\<forall>p. p \<notin> set (global_queue ?S) \<or> rank s1 target < rank s1 p \<longrightarrow> js_jobs s' p = js_jobs s1 p) \<and>
      (\<forall>p\<in>set (global_queue ?S). rank s1 p \<le> rank s1 target \<longrightarrow> finished J p (r p) s1 s')"
    proof (rule Suc.hyps(1) [OF _ s1(3)])
      show "n = length (global_queue ?S)" using Suc.hyps(2) i by (simp add: length_remove_nth)
      then show "length (global_queue ?S) < k'" using k(2) by simp
      show "sc_lock ?S = held_by t" "distinct (global_queue ?S)" "target \<in> set (global_queue ?S)"
        using Suc.prems(2,6) rest False by simp_all
      show "\<forall>p\<in>set (global_queue ?S). simple_job J s1 pool p (r p)" using Suc.prems(4) rest(1) same(3) by simp
      show "inj_on (rank s1) (set (global_queue ?S))"
        using Suc.prems(5) rest(1) unfolding inj_on_def same(2) by auto
    qed
    then obtain s' where s': "main_loop k' J t sc target s1 = Done s'"
      "solo_pool s' pool sc (?S\<lparr>sc_lock := new_lock True, global_queue := filter (\<lambda>p. rank s target < rank s p) (remove_nth ?i ?q)\<rparr>)"
      "\<And>x. x \<notin> set (remove_nth ?i ?q) \<or> rank s target < rank s x \<Longrightarrow> js_jobs s' x = js_jobs s1 x"
      "\<And>x. x \<in> set (remove_nth ?i ?q) \<Longrightarrow> rank s x \<le> rank s target \<Longrightarrow> finished J x (r x) s1 s'"
      by (auto simp: same(2))
    have "solo_pool s' pool sc (S\<lparr>sc_lock := new_lock True, global_queue := filter (\<lambda>x. rank s target < rank s x) ?q\<rparr>)"
      using s'(2) by (simp add: filter)
    moreover have "js_jobs s' x = js_jobs s x" if "x \<notin> set ?q \<or> rank s target < rank s x" for x
    proof -
      have "x \<noteq> ?p" using that p least [OF Suc.prems(6)] by auto
      then show ?thesis using that same(1) [of x] s'(3) [of x] rest(1) by auto
    qed
    moreover have "finished J x (r x) s s'" if x: "x \<in> set ?q" "rank s x \<le> rank s target" for x
    proof (cases "x = ?p")
      case True
      then show ?thesis using fin s'(3) [of x] rest(1) by (simp add: finished_def)
    next
      case False
      then show ?thesis using s'(4) [of x] x rest(1) same(1) [of x] by (simp add: finished_def)
    qed
    ultimately show ?thesis using s1(1) s'(1) by (intro exI [of _ s']) simp
  qed
qed

section \<open>Waiting\<close>

lemma solo_start:
  assumes "solo_pool s pool sc S" and "sc_lock S = new_lock True"
  shows "\<exists>s'. main_single k J t sc target s = main_loop k J t sc target s' \<and> js_jobs s' = js_jobs s \<and>
    (\<forall>q. objects (heap s') q = None \<longleftrightarrow> objects (heap s) q = None) \<and> solo_pool s' pool sc (S\<lparr>sc_lock := held_by t\<rparr>)"
proof -
  let ?s = "put_sched sc (S\<lparr>sc_lock := held_by t\<rparr>) (set_heap (bump_refs 1 sc (heap s)) s)"
  have S: "sc \<noteq> 0" "js_scheds s sc = Some S" "objects (heap s) sc \<noteq> None" "single_threaded S"
    using assms(1) by (simp_all add: solo_pool_def)
  then have "main_single k J t sc target s = main_loop k J t sc target ?s"
    using assms(2) by (simp add: main_single_def acquire_in_def counting main_start_def the_sched_def lookup_ptr_def sched_lock_def lock_simps)
  moreover have "solo_pool ?s pool sc (S\<lparr>sc_lock := held_by t\<rparr>)"
    using assms(1) by (auto simp: solo_pool_def put_sched_def set_heap_def heap_def)
  ultimately show ?thesis by (intro exI [of _ ?s]) simp
qed

text \<open>
  C6. In a pool without threads \<open>waitJob\<close> returns, with the result of the job. The jobs in the
  queue are procedures that return values which can be sent to another thread; they depend on
  no job, no job or trigger is to be notified of them, none is cancelled, and no two have the
  same priority and number. Then fuel for one round of the main loop more than there are jobs
  is enough. The thread that waits executes those jobs that come no later than the awaited one
  in the order of priorities and, among equals, of starting; the others stay in the queue,
  untouched.
\<close>

theorem solo_pool_runs_in_order:
  assumes "env_ok (je_env J)" and "solo_pool s pool sc S" and "sc_lock S = new_lock True" and "distinct (global_queue S)"
    and "\<forall>p\<in>set (global_queue S). simple_job J s pool p (r p)" and "inj_on (rank s) (set (global_queue S))"
    and "target \<in> set (global_queue S)" and "length (global_queue S) < k"
  shows "\<exists>s' S'. waitJob k J t [L_blackbox (type_job (types (je_env J))) target] s =
      Done (Reply (value_image (interp (je_env J)) (r target)), s') \<and>
    (\<forall>p\<in>set (global_queue S). if rank s p \<le> rank s target then finished J p (r p) s s' else js_jobs s' p = js_jobs s p) \<and>
    js_scheds s' sc = Some S' \<and> global_queue S' = filter (\<lambda>p. rank s target < rank s p) (global_queue S)"
proof -
  let ?q = "global_queue S"
  obtain s0 where s0: "main_single k J t sc target s = main_loop k J t sc target s0" "js_jobs s0 = js_jobs s"
    "\<And>q. objects (heap s0) q = None \<longleftrightarrow> objects (heap s) q = None" "solo_pool s0 pool sc (S\<lparr>sc_lock := held_by t\<rparr>)"
    using solo_start [OF assms(2,3)] by blast
  have rank: "rank s0 = rank s" using s0(2) by (simp add: rank_def fun_eq_iff)
  have simple: "\<forall>p\<in>set ?q. simple_job J s0 pool p (r p)" using assms(5) s0(2,3) by (simp add: simple_job_def)
  obtain s1 where s1: "main_loop k J t sc target s0 = Done s1"
    "solo_pool s1 pool sc (S\<lparr>sc_lock := new_lock True, global_queue := filter (\<lambda>p. rank s target < rank s p) ?q\<rparr>)"
    "\<And>p. p \<notin> set ?q \<or> rank s target < rank s p \<Longrightarrow> js_jobs s1 p = js_jobs s p"
    "\<And>p. p \<in> set ?q \<Longrightarrow> rank s p \<le> rank s target \<Longrightarrow> finished J p (r p) s s1"
    using solo_loop [OF assms(1) s0(4), of t r target k] simple assms(4,6-8) s0(2) by (auto simp: rank finished_def)
  obtain j where j: "js_jobs s target = Some j" "jb_pool j = pool" "\<not> jb_cancelled j" "target \<noteq> 0"
    using assms(5,7) by (auto simp: simple_job_def)
  obtain res where res: "js_jobs s1 target = Some (j\<lparr>jb_result := res, jb_running := False, jb_done := True\<rparr>)"
    "\<And>h. decode_value (je_env J) res h = Done (value_image (interp (je_env J)) (r target), add_refs (je_env J) (r target) h)"
    using s1(4) [OF assms(7)] j(1) by (auto simp: finished_def)
  have "res \<noteq> []" using res(2) decode_empty by metis
  let ?s = "set_heap (add_refs (je_env J) (r target) (heap s1)) s1"
  have "scheduler_of pool s = Done sc" "single_threaded S" "js_scheds s sc = Some S" "sc \<noteq> 0" "pool \<noteq> 0"
    using assms(2) by (auto simp: solo_pool_def scheduler_of_def lookup_ptr_def)
  then have "waitJob k J t [L_blackbox (type_job (types (je_env J))) target] s =
      Done (Reply (value_image (interp (je_env J)) (r target)), ?s)"
    using j res \<open>res \<noteq> []\<close>
    by (simp add: waitJob_def run_command_def check_argc_def check_arg_def check_init_def nth_arg_def unless_def typ_of_def
        the_job_def lookup_ptr_def sched_waitJob_def the_sched_def s0(1) s1(1) wait_reply_def decode_in_def on_heap_def)
  moreover have "js_jobs ?s = js_jobs s1" "js_scheds ?s = js_scheds s1" by simp_all
  ultimately show ?thesis
    using s1(2-4) by (intro exI [of _ ?s] exI) (auto simp: solo_pool_def finished_def)
qed

definition solo_job :: "string \<Rightarrow> int \<Rightarrow> 64 word \<Rightarrow> job" where
  "solo_job nm prio n = (new_job (ProcJob (text_bytes nm)))\<lparr>jb_pool := 1, jb_prio := prio, jb_id := n\<rparr>"

definition solo_state :: job_sys where
  "solo_state = (pool_state 0 [1, 2, 2, 2] [(3, solo_job ''f'' 0 0), (4, solo_job ''g'' 5 1)]
     ((new_scheduler 0)\<lparr>next_jobid := 2, global_queue := [3, 4]\<rparr>) 0)\<lparr>js_pools := [1 \<mapsto> \<lparr>po_scheduler = 2, po_nthreads = 0\<rparr>]\<rparr>"

theorem solo_pool_runs_in_order_witness:
  "\<exists>s' j S'. waitJob 3 listing_job_env 0 [L_blackbox 411 4] solo_state = Done (Reply (L_list []), s') \<and>
     js_jobs s' 3 = Some (solo_job ''f'' 0 0) \<and> js_jobs s' 4 = Some j \<and> jb_done j \<and>
     js_scheds s' 2 = Some S' \<and> global_queue S' = [3]"
proof -
  let ?S = "(new_scheduler 0)\<lparr>next_jobid := 2, global_queue := [3, 4]\<rparr>"
  have solo: "solo_pool solo_state 1 2 ?S"
    by (simp add: solo_pool_def solo_state_def pool_state_def heap_def pool_heap_def new_scheduler_def lock_simps)
  have jobs: "js_jobs solo_state 3 = Some (solo_job ''f'' 0 0)" "js_jobs solo_state 4 = Some (solo_job ''g'' 5 1)"
    by (simp_all add: solo_state_def pool_state_def)
  have "conveys_args listing_env [] (jb_args (solo_job a b c))" "jb_kind (solo_job a b c) = ProcJob (text_bytes a)" for a b c
    using conveys_no_args [of listing_env] by (simp_all add: solo_job_def new_job_def)
  moreover have "transferable sample_env (L_list [])" by (simp add: transferable_def sample_env_def sample_singular_def)
  ultimately have "returns listing_job_env (solo_job a b c) (L_list [])" for a b c
    unfolding returns_def by (intro conjI exI [of _ "text_bytes a"] exI [of _ "[]"]) simp_all
  then have simple: "\<forall>p\<in>set [3, 4]. simple_job listing_job_env solo_state 1 p (L_list [])"
    by (simp add: simple_job_def jobs) (simp add: solo_job_def new_job_def solo_state_def pool_state_def heap_def pool_heap_def)
  have rank: "rank solo_state 3 = Rank 0 0" "rank solo_state 4 = Rank 5 1"
    by (simp_all add: rank_def jobs) (simp_all add: solo_job_def new_job_def)
  have order: "\<not> rank solo_state 3 \<le> rank solo_state 4" "rank solo_state 4 < rank solo_state 3" "inj_on (rank solo_state) (set [3, 4])"
    by (simp_all add: rank less_eq_job_rank_def less_job_rank_def)
  have q: "global_queue ?S = [3, 4]" "sc_lock ?S = new_lock True" by (simp_all add: new_scheduler_def)
  have image: "value_image sample_singular (L_list []) = L_list []" by simp
  note run = solo_pool_runs_in_order [where J = listing_job_env and r = "\<lambda>_. L_list []" and target = 4 and k = 3 and t = 0,
      OF _ solo q(2), unfolded q(1)]
  from run simple order image show ?thesis
    by (simp add: sample_shared_types_def finished_def jobs) fastforce
qed

end
