(* ===== verification/Lost_Waits.thy ===== *)
theory Lost_Waits
  imports Job_Results
begin

text \<open>
  A thread that waits for a job sleeps on when the job is cancelled: the run is given state
  by state. The job depends on a trigger that does not fire, so it is in no queue.
\<close>

section \<open>The run\<close>

definition trig_heap :: "int list \<Rightarrow> shared_sys" where
  "trig_heap rcs = (initial_sys 1)\<lparr>next_addr := Suc (length rcs),
     objects := map_of (zip [1, 2, 3, 4] (map2 (\<lambda>(ty, nm) r. \<lparr>so_type = ty, so_name = nm, so_refs = r, so_data = P_other\<rparr>)
       [(410, []), (0, []), (412, []), (411, text_bytes ''g'')] rcs))\<rparr>"

definition trig_state :: "nat \<Rightarrow> int list \<Rightarrow> (addr \<times> job) list \<Rightarrow> scheduler \<Rightarrow> job_sys" where
  "trig_state n rcs js S = (pool_state n [] js S 0)\<lparr>js_threads := (pool_threads n)\<lparr>th_shared := trig_heap rcs\<rparr>\<rparr>"

definition trig_sched :: "addr list \<Rightarrow> lock \<Rightarrow> cond_var \<Rightarrow> cond_var \<Rightarrow> worker \<Rightarrow> scheduler" where
  "trig_sched pend l c r w = (pool_sched (word_of_nat (length pend)) [] pend l w)\<lparr>sc_cond := c, sc_response := r\<rparr>"

definition counting_trigger :: "addr list \<Rightarrow> job" where
  "counting_trigger ns = (new_job (CountTrigger 1))\<lparr>jb_pool := 1, pending_index := 0, jb_notify := ns\<rparr>"

definition waiting_job :: "bool \<Rightarrow> job" where
  "waiting_job c = (new_job (ProcJob (text_bytes ''g'')))\<lparr>jb_pool := 1, jb_id := 1, jb_deps := [3], pending_index := 1,
     jb_done := c, jb_cancelled := c\<rparr>"

lemmas trig_defs = trig_state_def trig_heap_def trig_sched_def counting_trigger_def waiting_job_def new_job_def waiters_def

lemma lost_createTrigger: "createTrigger sample_job_env 0 [L_blackbox 410 1, L_string (text_bytes ''count''), L_int 1]
     (pool_state 0 [1, 2] [] (pool_sched 0 [] [] (new_lock True) W_start) 0) =
  Done (Reply (L_blackbox 412 3), trig_state 0 [1, 2, 2] [(3, counting_trigger [])]
     (trig_sched [3] (new_lock True) (waiters [] []) (waiters [] []) W_start))"
  by (simp add: createTrigger_def trigger_kind_def run_defs heap_defs has_pool_def has_prio_def prio_arg_def pool_arg_def
    alloc_job_def scheduler_of_def attachJob_def locked_sched_def sched_lock_def sched_unlock_def job_ready_def kind_ready_def
    count_ready_def push_global_def add_pending_def signal_cond_def sync_defs state_defs trig_defs)
    (simp add: fun_upd_twist)

lemma lost_scheduleJob: "scheduleJob 5 sample_job_env 0 [L_blackbox 410 1, L_string (text_bytes ''g''), L_blackbox 412 3]
   (trig_state 0 [1, 2, 2] [(3, counting_trigger [])]
     (trig_sched [3] (new_lock True) (waiters [] []) (waiters [] []) W_start)) =
  Done (Reply (L_blackbox 411 4), trig_state 0 [1, 2, 2, 2] [(3, counting_trigger [4]), (4, waiting_job False)]
     (trig_sched [3, 4] (new_lock True) (waiters [] []) (waiters [] []) W_start))"
  by (simp add: scheduleJob_def schedule_checked_def jobs_arg_def is_dependency_def schedule_jobs_def addDep_def addNotify_def attach_or_cancel_def run_defs heap_defs has_pool_def has_prio_def prio_arg_def pool_arg_def
    alloc_job_def addJobArgs_unlocked_def scheduler_of_def attachJob_def locked_sched_def sched_lock_def sched_unlock_def job_ready_def kind_ready_def
    push_global_def add_pending_def signal_cond_def sync_defs state_defs trig_defs)
    (simp add: fun_upd_twist)

lemma lost_waitJob: "waitJob 5 sample_job_env 8 [L_blackbox 411 4]
   (trig_state 0 [1, 2, 2, 2] [(3, counting_trigger [4]), (4, waiting_job False)]
     (trig_sched [3, 4] (new_lock True) (waiters [] []) (waiters [] []) W_start)) =
  Done (Asleep, trig_state 0 [1, 2, 2, 2] [(3, counting_trigger [4]), (4, waiting_job False)]
     (trig_sched [3, 4] (new_lock True) (waiters [] []) (waiters [8] []) W_start))"
  by (simp add: waitJob_def sched_waitJob_def wait_loop_def wait_response_def wait_reply_def run_defs heap_defs
    scheduler_of_def sched_lock_def sync_defs state_defs trig_defs)

lemma lost_cancelJob: "cancelJob_command (Suc k) sample_job_env 0 [L_blackbox 411 4]
   (trig_state 0 [1, 2, 2, 2] [(3, counting_trigger [4]), (4, waiting_job False)]
     (trig_sched [3, 4] (new_lock True) (waiters [] []) (waiters [8] []) W_start)) =
  Done (Reply L_none, trig_state 0 [1, 2, 2, 2] [(3, counting_trigger [4]), (4, waiting_job True)]
     (trig_sched [3, 4] (new_lock True) (waiters [] []) (waiters [8] []) W_start))"
  by (simp add: cancelJob_command_def locked_sched_def run_defs heap_defs
    scheduler_of_def sched_lock_def sched_unlock_def sync_defs state_defs trig_defs) (simp add: fun_upd_twist)

lemma lost_worker_begins: "worker_step sample_job_env 1 2
   (trig_state 0 [1, 2, 2, 2] [(3, counting_trigger [4]), (4, waiting_job True)]
     (trig_sched [3, 4] (new_lock True) (waiters [] []) (waiters [8] []) W_start)) =
  Done (trig_state 1 [1, 2, 2, 2] [(3, counting_trigger [4]), (4, waiting_job True)]
     (trig_sched [3, 4] (held_by 1) (waiters [] []) (waiters [8] []) W_loop))"
  by (simp add: run_worker_defs held_by_def sync_defs state_defs trig_defs sample_th set_slot_fields)
    (simp add: initial_threads_def set_slot_def new_lock_def)?

lemma lost_worker_waits: "worker_step sample_job_env 1 2
   (trig_state 1 [1, 2, 2, 2] [(3, counting_trigger [4]), (4, waiting_job True)]
     (trig_sched [3, 4] (held_by 1) (waiters [] []) (waiters [8] []) W_loop)) =
  Done (trig_state 1 [1, 2, 2, 2] [(3, counting_trigger [4]), (4, waiting_job True)]
     (trig_sched [3, 4] (new_lock True) (waiters [1] []) (waiters [8] []) W_wait))"
  by (simp add: run_worker_defs held_by_def sync_defs state_defs trig_defs)

section \<open>What it shows\<close>


end
