(* ===== verification/Cancelling.thy ===== *)
theory Cancelling
  imports Job_Commands
begin

text \<open>
  \<open>cancelJob\<close>: it ends, and it cancels the jobs that can be reached over jobs that have
  not started, and no others. The recursion of \<open>cancelJob\<close> and \<open>cancelDeps\<close> is a depth-first
  search that marks a job before it looks at the jobs to be notified.
\<close>

section \<open>The jobs to be cancelled\<close>

type_synonym job_map = "addr \<Rightarrow> job option"

definition uncancelled :: "job_map \<Rightarrow> addr set" where
  "uncancelled J = {p. \<exists>j. J p = Some j \<and> \<not> jb_cancelled j}"

text \<open>A job that waits passes its cancellation on to the jobs it would notify.\<close>

definition passes_on :: "job_map \<Rightarrow> (addr \<times> addr) set" where
  "passes_on J = {(p, q). \<exists>j. J p = Some j \<and> \<not> jb_cancelled j \<and> \<not> jb_running j \<and> \<not> jb_done j \<and> q \<in> set (jb_notify j)}"

definition dependents :: "job_map \<Rightarrow> addr \<Rightarrow> addr set" where
  "dependents J p = {q \<in> uncancelled J. (p, q) \<in> (passes_on J)\<^sup>*}"

definition cancelled_job :: "job \<Rightarrow> job" where
  "cancelled_job j = j\<lparr>jb_cancelled := True, jb_done := jb_done j \<or> \<not> jb_running j\<rparr>"

definition cancel_all :: "addr set \<Rightarrow> job_map \<Rightarrow> job_map" where
  "cancel_all C J = (\<lambda>p. if p \<in> C then map_option cancelled_job (J p) else J p)"

definition cancel_in :: "addr set \<Rightarrow> job_sys \<Rightarrow> job_sys" where
  "cancel_in C s = s\<lparr>js_jobs := cancel_all C (js_jobs s)\<rparr>"

lemma cancel_all_empty [simp]: "cancel_all {} J = J"
  by (simp add: cancel_all_def)

lemma cancelled_job_twice [simp]: "cancelled_job (cancelled_job j) = cancelled_job j"
  by (auto simp: cancelled_job_def)

lemma cancel_all_twice [simp]: "cancel_all C (cancel_all D J) = cancel_all (C \<union> D) J"
  by (auto simp: cancel_all_def fun_eq_iff option.map_comp comp_def)

lemma cancel_in_simps [simp]:
  "cancel_in {} s = s" "cancel_in C (cancel_in D s) = cancel_in (C \<union> D) s"
  "js_jobs (cancel_in C s) = cancel_all C (js_jobs s)" "js_scheds (cancel_in C s) = js_scheds s"
  by (simp_all add: cancel_in_def)

lemma uncancelled_cancel_all: "uncancelled (cancel_all C J) = uncancelled J - C"
  by (auto simp: uncancelled_def cancel_all_def cancelled_job_def split: if_splits)

lemma passes_on_cancel_all: "passes_on (cancel_all C J) = {(p, q) \<in> passes_on J. p \<notin> C}"
  by (auto simp: passes_on_def cancel_all_def cancelled_job_def split: if_splits)

lemma passes_on_uncancelled: "(p, q) \<in> passes_on J \<Longrightarrow> p \<in> uncancelled J"
  by (auto simp: passes_on_def uncancelled_def)

lemma dependents_closed:
  assumes "x \<in> dependents J p" and "(x, y) \<in> (passes_on J)\<^sup>*" and "y \<in> uncancelled J"
  shows "y \<in> dependents J p"
  using assms by (auto simp: dependents_def)

text \<open>Once the dependents of one job are cancelled, those of another are still to be found.\<close>

lemma dependents_after:
  "dependents J p \<union> dependents (cancel_all (dependents J p) J) q = dependents J p \<union> dependents J q"
proof -
  let ?C = "dependents J p" and ?J = "cancel_all (dependents J p) J"
  have "(x, r) \<in> (passes_on J)\<^sup>* \<Longrightarrow> r \<in> uncancelled J \<Longrightarrow> r \<notin> ?C \<Longrightarrow> (x, r) \<in> (passes_on ?J)\<^sup>*" for x r
  proof (induction rule: converse_rtrancl_induct)
    case (step x y)
    have "x \<notin> ?C"
      using dependents_closed [of x J p r] step by (meson converse_rtrancl_into_rtrancl)
    with step have "(x, y) \<in> passes_on ?J" by (simp add: passes_on_cancel_all)
    with step show ?case by (meson converse_rtrancl_into_rtrancl)
  qed simp
  moreover have "(passes_on ?J)\<^sup>* \<subseteq> (passes_on J)\<^sup>*"
    by (rule rtrancl_mono) (auto simp: passes_on_cancel_all)
  ultimately show ?thesis by (auto simp: dependents_def uncancelled_cancel_all)
qed

lemma dependents_none: "p \<notin> uncancelled J \<Longrightarrow> dependents J p = {}"
  by (auto simp: dependents_def elim: converse_rtranclE dest: passes_on_uncancelled)

text \<open>A job that is running or done stops the search; one that waits goes on.\<close>

lemma dependents_last:
  assumes "J p = Some j" and "\<not> jb_cancelled j" and "jb_running j \<or> jb_done j"
  shows "dependents J p = {p}"
  using assms by (auto simp: dependents_def uncancelled_def passes_on_def elim: converse_rtranclE)

lemma dependents_step:
  assumes j: "J p = Some j" "\<not> jb_cancelled j" "\<not> jb_running j" "\<not> jb_done j"
  shows "dependents J p = {p} \<union> (\<Union>r\<in>set (jb_notify j). dependents (cancel_all {p} J) r)"
proof -
  let ?J = "cancel_all {p} J"
  have out: "(p, r) \<in> passes_on J \<longleftrightarrow> r \<in> set (jb_notify j)" for r using j by (simp add: passes_on_def)
  have "(p, q) \<in> (passes_on J)\<^sup>* \<Longrightarrow> q = p \<or> (\<exists>r\<in>set (jb_notify j). (r, q) \<in> (passes_on ?J)\<^sup>*)" for q
  proof (induction rule: rtrancl_induct)
    case (step y z)
    show ?case
    proof (cases "y = p")
      case False
      with step.hyps(2) have "(y, z) \<in> passes_on ?J" by (simp add: passes_on_cancel_all)
      with step.IH False show ?thesis by (meson rtrancl_into_rtrancl)
    qed (use step.hyps(2) out in blast)
  qed simp
  moreover have "(passes_on ?J)\<^sup>* \<subseteq> (passes_on J)\<^sup>*"
    by (rule rtrancl_mono) (auto simp: passes_on_cancel_all)
  moreover have "p \<in> uncancelled J" using j by (simp add: uncancelled_def)
  ultimately show ?thesis
    using out by (auto simp: dependents_def uncancelled_cancel_all intro: converse_rtrancl_into_rtrancl)
qed

section \<open>Where cancelling can run\<close>

text \<open>
  The thread can take the scheduler's recursive lock, and following the pointers to jobs is
  safe.
\<close>

definition lock_usable :: "thread \<Rightarrow> lock \<Rightarrow> bool" where
  "lock_usable t l \<longleftrightarrow> lock_wf l \<and> recursive l \<and> (mutex l = None \<or> mutex l = Some t)"

definition cancel_ready :: "thread \<Rightarrow> addr \<Rightarrow> job_sys \<Rightarrow> bool" where
  "cancel_ready t sc s \<longleftrightarrow> sc \<noteq> 0 \<and> (\<exists>S. js_scheds s sc = Some S \<and> lock_usable t (sc_lock S)) \<and>
     (\<forall>p j. js_jobs s p = Some j \<longrightarrow> p \<noteq> 0 \<and> (\<forall>r\<in>set (jb_notify j). js_jobs s r \<noteq> None))"

lemma cancel_ready_cancel_in: "cancel_ready t sc (cancel_in C s) \<longleftrightarrow> cancel_ready t sc s"
proof -
  have "cancel_all C J p = None \<longleftrightarrow> J p = None" for J p by (simp add: cancel_all_def)
  moreover have "(\<exists>j. cancel_all C J p = Some j \<and> Q (jb_notify j)) \<longleftrightarrow> (\<exists>j. J p = Some j \<and> Q (jb_notify j))" for J p Q
    by (auto simp: cancel_all_def cancelled_job_def)
  from this [of "js_jobs s" _ "\<lambda>ns. \<not> (_ \<noteq> 0 \<and> (\<forall>r\<in>set ns. js_jobs s r \<noteq> None))"]
  have "(\<forall>j. cancel_all C (js_jobs s) p = Some j \<longrightarrow> p \<noteq> 0 \<and> (\<forall>r\<in>set (jb_notify j). js_jobs s r \<noteq> None)) \<longleftrightarrow>
      (\<forall>j. js_jobs s p = Some j \<longrightarrow> p \<noteq> 0 \<and> (\<forall>r\<in>set (jb_notify j). js_jobs s r \<noteq> None))" for p
    by (auto simp: cancel_all_def cancelled_job_def split: if_splits)
  ultimately show ?thesis by (simp add: cancel_ready_def)
qed

lemma lock_usable_cycle:
  assumes "lock_usable t l"
  shows "lock_lock t l = Done (l\<lparr>mutex := Some t, owner := Some t, locked := locked l + 1\<rparr>)"
    and "lock_usable t (l\<lparr>mutex := Some t, owner := Some t, locked := locked l + 1\<rparr>)"
    and "unlock_lock t (l\<lparr>mutex := Some t, owner := Some t, locked := locked l + 1\<rparr>) = Done l"
proof -
  obtain m ow n r where l: "l = \<lparr>mutex = m, owner = ow, locked = n, recursive = r\<rparr>" by (cases l) blast
  note defs = l lock_usable_def lock_lock_def unlock_lock_def lock_wf.simps
  show "lock_lock t l = Done (l\<lparr>mutex := Some t, owner := Some t, locked := locked l + 1\<rparr>)"
    using assms by (cases m) (simp_all add: defs)
  show "lock_usable t (l\<lparr>mutex := Some t, owner := Some t, locked := locked l + 1\<rparr>)"
    using assms by (cases m) (simp_all add: defs)
  show "unlock_lock t (l\<lparr>mutex := Some t, owner := Some t, locked := locked l + 1\<rparr>) = Done l"
    using assms by (cases m) (simp_all add: defs)
qed

text \<open>The lock around a body that only cancels jobs.\<close>

lemma sched_lock_cycle:
  assumes "cancel_ready t sc s"
  obtains s1 where "sched_lock t sc s = Done s1" and "cancel_ready t sc s1" and "js_jobs s1 = js_jobs s"
    and "\<And>C. sched_unlock t sc (cancel_in C s1) = Done (cancel_in C s)"
proof -
  from assms obtain S where S: "sc \<noteq> 0" "js_scheds s sc = Some S" "lock_usable t (sc_lock S)"
    by (auto simp: cancel_ready_def)
  let ?l = "sc_lock S"
  let ?l' = "?l\<lparr>mutex := Some t, owner := Some t, locked := locked ?l + 1\<rparr>"
  note lock = lock_usable_cycle [OF S(3)]
  let ?s1 = "put_sched sc (S\<lparr>sc_lock := ?l'\<rparr>) s"
  have "sched_lock t sc s = Done ?s1"
    using S lock by (simp add: sched_lock_def the_sched_def lookup_ptr_def)
  moreover have "cancel_ready t sc ?s1"
    using assms S lock(2) by (simp add: cancel_ready_def put_sched_def)
  moreover have "sched_unlock t sc (cancel_in C ?s1) = Done (cancel_in C s)" for C
    using S lock by (simp add: sched_unlock_def the_sched_def lookup_ptr_def put_sched_def cancel_in_def)
      (cases s, simp add: fun_upd_idem)
  ultimately show thesis using that by (simp add: put_sched_def)
qed

section \<open>The search\<close>

lemma update_cancelled:
  assumes "js_jobs s p = Some j" and "p \<noteq> 0" and "jb_running j \<or> jb_done j"
  shows "update_job p (\<lambda>j. j\<lparr>jb_cancelled := True\<rparr>) s = Done (cancel_in {p} s)"
  using assms by (cases j) (auto simp: update_job_def the_job_def lookup_ptr_def cancel_in_def cancel_all_def
      cancelled_job_def fun_eq_iff)

lemma update_cancelled_done:
  assumes "js_jobs s p = Some j" and "p \<noteq> 0" and "\<not> jb_running j"
  shows "bind_flow (update_job p (\<lambda>j. j\<lparr>jb_cancelled := True\<rparr>) s) (update_job p (\<lambda>j. j\<lparr>jb_done := True\<rparr>)) =
    Done (cancel_in {p} s)"
  using assms by (auto simp: update_job_def the_job_def lookup_ptr_def cancel_in_def cancel_all_def
      cancelled_job_def fun_eq_iff)

lemma cancelDeps_result:
  assumes "\<And>p s. cancel_ready t sc s \<Longrightarrow> js_jobs s p \<noteq> None \<Longrightarrow> card (uncancelled (js_jobs s)) \<le> k' \<Longrightarrow>
      cancelJob k t sc p s = Done (cancel_in (dependents (js_jobs s) p) s)"
    and "cancel_ready t sc s" and "\<forall>r\<in>set ps. js_jobs s r \<noteq> None" and "card (uncancelled (js_jobs s)) \<le> k'"
  shows "cancelDeps k t sc ps s = Done (cancel_in (\<Union>r\<in>set ps. dependents (js_jobs s) r) s)"
  using assms(2-4)
proof (induction ps arbitrary: s)
  case (Cons p ps)
  let ?J = "js_jobs s" and ?s = "cancel_in (dependents (js_jobs s) p) s"
  from Cons.prems obtain j where j: "?J p = Some j" "p \<noteq> 0" by (auto simp: cancel_ready_def)
  have first: "(if \<not> jb_cancelled j then cancelJob k t sc p s else Done s) = Done ?s"
    using assms(1) [OF Cons.prems(1) _ Cons.prems(3), of p] j by (auto simp: dependents_none uncancelled_def)
  have "card (uncancelled (js_jobs ?s)) \<le> k'"
    using Cons.prems(3) by (simp add: uncancelled_cancel_all) (meson Diff_subset card_mono finite le_trans)
  then have rest: "cancelDeps k t sc ps ?s = Done (cancel_in (\<Union>r\<in>set ps. dependents (js_jobs ?s) r) ?s)"
    using Cons.prems by (intro Cons.IH) (simp_all add: cancel_ready_cancel_in cancel_all_def)
  have "(\<Union>r\<in>set ps. dependents (js_jobs ?s) r) \<union> dependents ?J p = (\<Union>r\<in>set (p # ps). dependents ?J r)"
    using dependents_after [of ?J p] by auto
  with first rest j show ?case by (simp add: the_job_def lookup_ptr_def)
qed simp

lemma cancelJob_result:
  "cancel_ready t sc s \<Longrightarrow> js_jobs s p \<noteq> None \<Longrightarrow> card (uncancelled (js_jobs s)) < k \<Longrightarrow>
   cancelJob k t sc p s = Done (cancel_in (dependents (js_jobs s) p) s)"
proof (induction k arbitrary: p s)
  case (Suc k)
  from Suc.prems obtain j where j: "js_jobs s p = Some j" "p \<noteq> 0" by (auto simp: cancel_ready_def)
  from Suc.prems(1) obtain s1 where s1: "sched_lock t sc s = Done s1" "cancel_ready t sc s1" "js_jobs s1 = js_jobs s"
    and unlock: "\<And>C. sched_unlock t sc (cancel_in C s1) = Done (cancel_in C s)"
    by (rule sched_lock_cycle) blast
  have job: "the_job p s1 = Done j" using j s1(3) by (simp add: the_job_def lookup_ptr_def)
  consider "jb_cancelled j" | "\<not> jb_cancelled j" "jb_running j \<or> jb_done j"
    | "\<not> jb_cancelled j" "\<not> jb_running j" "\<not> jb_done j" by blast
  then show ?case
  proof cases
    case 1
    then have "dependents (js_jobs s) p = {}" using j by (intro dependents_none) (simp add: uncancelled_def)
    then show ?thesis using 1 s1(1) job unlock [of "{}"] by (simp add: locked_sched_def)
  next
    case 2
    then show ?thesis
      using s1 job j unlock [of "{p}"] update_cancelled [of s1 p j] dependents_last [of "js_jobs s" p j]
      by (auto simp: locked_sched_def)
  next
    case 3
    let ?s = "cancel_in {p} s1"
    have up: "p \<in> uncancelled (js_jobs s)" using j 3 by (simp add: uncancelled_def)
    then have "card (uncancelled (js_jobs ?s)) < card (uncancelled (js_jobs s))"
      using card_Diff1_less [OF finite up] by (simp only: cancel_in_simps uncancelled_cancel_all s1(3))
    then have card: "card (uncancelled (js_jobs ?s)) < k" using Suc.prems(3) by simp
    have "cancelDeps k t sc (jb_notify j) ?s =
        Done (cancel_in (\<Union>r\<in>set (jb_notify j). dependents (js_jobs ?s) r) ?s)"
    proof (rule cancelDeps_result [where k' = "k - 1"])
      show "cancel_ready t sc ?s" using s1(2) by (simp add: cancel_ready_cancel_in)
      show "\<forall>r\<in>set (jb_notify j). js_jobs ?s r \<noteq> None"
        using Suc.prems(1) j(1) s1(3) by (auto simp: cancel_ready_def cancel_all_def)
      show "card (uncancelled (js_jobs ?s)) \<le> k - 1" using card by simp
    qed (use Suc.IH card in \<open>simp add: le_simps\<close>)
    then have "cancelDeps k t sc (jb_notify j) ?s = Done (cancel_in (dependents (js_jobs s) p) s1)"
      using dependents_step [of "js_jobs s" p j, OF j(1) 3] s1(3) by (simp add: Un_commute)
    moreover have "bind_flow (update_job p (\<lambda>j. j\<lparr>jb_cancelled := True\<rparr>) s1) (update_job p (\<lambda>j. j\<lparr>jb_done := True\<rparr>)) = Done ?s"
      using update_cancelled_done [of s1 p j] j s1(3) 3 by simp
    ultimately show ?thesis
      using s1(1) job 3 unlock by (simp add: locked_sched_def bind_flow_assoc [symmetric])
  qed
qed simp

text \<open>
  C21. \<open>cancelJob\<close> returns, and cancels exactly the jobs that depend on the job: with fuel
  for every job that is not cancelled yet it finishes, after which a job is cancelled if it
  was before, or if it can be reached from the cancelled job over jobs to be notified that
  were neither running nor done nor cancelled; those that were not running are done. Nothing
  else changes: no job leaves a queue, and the scheduler's lock is as it was. Contrary to the
  documentation the job itself is cancelled also when it had been executed already: it keeps
  its result, but \<open>waitJob\<close> no longer returns it and reports that the job has been cancelled.
\<close>

theorem cancelJob_cancels_dependents:
  assumes "cancel_ready t sc s" and "js_jobs s p \<noteq> None" and "card (uncancelled (js_jobs s)) < k"
  shows "\<exists>s'. cancelJob k t sc p s = Done s' \<and> s' = s\<lparr>js_jobs := js_jobs s'\<rparr> \<and>
    (\<forall>q. js_jobs s' q = (if q \<in> uncancelled (js_jobs s) \<and> (p, q) \<in> (passes_on (js_jobs s))\<^sup>*
       then map_option (\<lambda>j. j\<lparr>jb_cancelled := True, jb_done := jb_done j \<or> \<not> jb_running j\<rparr>) (js_jobs s q)
       else js_jobs s q)) \<and>
    wait_reply J p (True, s') = fails ''waitJob'' ''job has been cancelled'' s'"
proof -
  let ?s = "cancel_in (dependents (js_jobs s) p) s"
  obtain j where j: "js_jobs s p = Some j" "p \<noteq> 0" using assms(1,2) by (auto simp: cancel_ready_def)
  have "\<exists>j'. js_jobs ?s p = Some j' \<and> jb_cancelled j'"
    using j by (auto simp: cancel_all_def cancelled_job_def dependents_def uncancelled_def)
  then have "wait_reply J p (True, ?s) = fails ''waitJob'' ''job has been cancelled'' ?s"
    using j(2) by (auto simp: wait_reply_def the_job_def lookup_ptr_def)
  then show ?thesis
    using cancelJob_result [OF assms]
    by (intro exI [of _ ?s]) (auto simp: cancel_in_def cancel_all_def dependents_def cancelled_job_def [abs_def])
qed

text \<open>Three jobs in a chain, the second of which is running, and a bystander.\<close>

definition chain_jobs :: job_map where
  "chain_jobs = [1 \<mapsto> (new_job EvalJob)\<lparr>jb_notify := [2, 4]\<rparr>, 2 \<mapsto> (new_job EvalJob)\<lparr>jb_running := True, jb_notify := [3]\<rparr>,
     3 \<mapsto> new_job EvalJob, 4 \<mapsto> new_job EvalJob]"

definition chain_sys :: job_sys where
  "chain_sys = (initial_jobs 1)\<lparr>js_jobs := chain_jobs, js_scheds := [7 \<mapsto> new_scheduler 1]\<rparr>"

theorem cancelJob_cancels_dependents_witness:
  "\<exists>s'. cancelJob 5 9 7 1 chain_sys = Done s' \<and> map_option jb_cancelled (js_jobs s' 4) = Some True \<and>
     map_option jb_done (js_jobs s' 2) = Some False \<and> map_option jb_cancelled (js_jobs s' 3) = Some False \<and>
     (\<forall>J. wait_reply J 1 (True, s') = fails ''waitJob'' ''job has been cancelled'' s')"
proof -
  have jobs: "js_jobs chain_sys = chain_jobs" by (simp add: chain_sys_def)
  have ready: "cancel_ready 9 7 chain_sys"
    by (auto simp: cancel_ready_def chain_sys_def chain_jobs_def new_job_def new_scheduler_def new_lock_def
        lock_usable_def lock_wf.simps split: if_splits)
  have un: "uncancelled chain_jobs = {1, 2, 3, 4}"
    by (auto simp: uncancelled_def chain_jobs_def new_job_def split: if_splits)
  have edges: "passes_on chain_jobs = {(1, 2), (1, 4)}"
    by (auto simp: passes_on_def chain_jobs_def new_job_def split: if_splits)
  have "(1, 2) \<in> (passes_on chain_jobs)\<^sup>*" "(1, 4) \<in> (passes_on chain_jobs)\<^sup>*" unfolding edges by blast+
  moreover have "(1, 3) \<notin> (passes_on chain_jobs)\<^sup>*"
  proof
    assume "(1, 3) \<in> (passes_on chain_jobs)\<^sup>*"
    then show False by (cases rule: rtranclE) (simp_all add: edges)
  qed
  moreover have ex: "\<exists>s'. cancelJob 5 9 7 1 chain_sys = Done s' \<and> s' = chain_sys\<lparr>js_jobs := js_jobs s'\<rparr> \<and>
    (\<forall>q. js_jobs s' q = (if q \<in> uncancelled chain_jobs \<and> (1, q) \<in> (passes_on chain_jobs)\<^sup>*
       then map_option (\<lambda>j. j\<lparr>jb_cancelled := True, jb_done := jb_done j \<or> \<not> jb_running j\<rparr>) (chain_jobs q)
       else chain_jobs q)) \<and>
    wait_reply J 1 (True, s') = fails ''waitJob'' ''job has been cancelled'' s'" for J
    by (rule cancelJob_cancels_dependents [OF ready, of 1 5, unfolded jobs]) (simp_all add: un, simp add: chain_jobs_def)
  then obtain s' where s': "cancelJob 5 9 7 1 chain_sys = Done s'" and
    "\<forall>q. js_jobs s' q = (if q \<in> uncancelled chain_jobs \<and> (1, q) \<in> (passes_on chain_jobs)\<^sup>*
       then map_option (\<lambda>j. j\<lparr>jb_cancelled := True, jb_done := jb_done j \<or> \<not> jb_running j\<rparr>) (chain_jobs q)
       else chain_jobs q)" by blast
  moreover have "wait_reply J 1 (True, s') = fails ''waitJob'' ''job has been cancelled'' s'" for J
    using ex [of J] s' by auto
  ultimately show ?thesis
    by (intro exI [of _ s']) (simp add: un, simp add: chain_jobs_def new_job_def)
qed

end
