(* ===== verification/Library_Init.thy ===== *)
theory Library_Init
  imports Value_Transfer Trigger_Commands
begin

text \<open>
  shared.cc, \<open>mod_init\<close>: the types of shared objects are made known to the interpreter, the
  commands are registered, and the codecs are installed. The type numbers come from the
  interpreter (\<open>setBlackboxStuff\<close>), the parameter \<open>new_type\<close>.
\<close>

section \<open>Types of shared objects\<close>

text \<open>
  The table of functions the interpreter calls for values of a type; the functions
  themselves are in theory Shared_Heap.
\<close>

datatype blackbox_fn =
    Shared_init | Shared_destroy | Shared_copy | Shared_string | Shared_assign | Shared_check_assign
  | Rlock_destroy | Rlock_assign

record blackbox =
  blackbox_Init :: blackbox_fn
  blackbox_destroy :: blackbox_fn
  blackbox_Copy :: blackbox_fn
  blackbox_String :: blackbox_fn
  blackbox_Assign :: blackbox_fn
  blackbox_CheckAssign :: blackbox_fn

definition shared_box :: blackbox where
  "shared_box = \<lparr>blackbox_Init = Shared_init, blackbox_destroy = Shared_destroy, blackbox_Copy = Shared_copy,
     blackbox_String = Shared_string, blackbox_Assign = Shared_assign, blackbox_CheckAssign = Shared_check_assign\<rparr>"

definition regionlock_box :: blackbox where
  "regionlock_box = \<lparr>blackbox_Init = Shared_init, blackbox_destroy = Rlock_destroy, blackbox_Copy = Shared_copy,
     blackbox_String = Shared_string, blackbox_Assign = Rlock_assign, blackbox_CheckAssign = Shared_check_assign\<rparr>"

text \<open>
  What loading the library changes: the variables \<open>type_...\<close> (0 before), the interpreter's
  table of types, the registry of codecs, \<open>thread_state\<close> (null before), \<open>master_lock\<close>, and
  the procedures of the interpreter's packages.
\<close>

record library =
  lib_types :: shared_types
  lib_boxes :: "nat \<Rightarrow> blackbox option"
  lib_codecs :: registry
  lib_slots :: "thread_state list option"
  lib_master :: lock
  lib_procs :: "(string \<times> string) set"

definition fresh_library :: library where
  "fresh_library = \<lparr>lib_types = \<lparr>type_region = 0, type_regionlock = 0, type_channel = 0, type_syncvar = 0,
       type_atomic_table = 0, type_shared_table = 0, type_atomic_list = 0, type_shared_list = 0,
       type_thread = 0, type_threadpool = 0, type_job = 0, type_trigger = 0\<rparr>,
     lib_boxes = (\<lambda>_. None), lib_codecs = empty_registry, lib_slots = None, lib_master = new_lock True,
     lib_procs = {}\<rparr>"

definition make_type :: "blackbox \<Rightarrow> (string \<Rightarrow> nat) \<Rightarrow> nat \<Rightarrow> string \<Rightarrow> library \<Rightarrow> nat \<times> library" where
  "make_type box new_type ty name L =
     (if ty \<noteq> 0 then (ty, L)
      else let ty = new_type name
           in (ty, L\<lparr>lib_boxes := (lib_boxes L)(ty \<mapsto> box), lib_codecs := install_shared ty (lib_codecs L)\<rparr>))"

definition makeSharedType :: "(string \<Rightarrow> nat) \<Rightarrow> nat \<Rightarrow> string \<Rightarrow> library \<Rightarrow> nat \<times> library" where
  "makeSharedType = make_type shared_box"

definition makeRegionlockType :: "(string \<Rightarrow> nat) \<Rightarrow> nat \<Rightarrow> string \<Rightarrow> library \<Rightarrow> nat \<times> library" where
  "makeRegionlockType = make_type regionlock_box"

text \<open>The type is passed by reference: \<open>get\<close> and \<open>upd\<close> are the variable.\<close>

definition by_reference ::
    "(shared_types \<Rightarrow> nat) \<Rightarrow> ((nat \<Rightarrow> nat) \<Rightarrow> shared_types \<Rightarrow> shared_types) \<Rightarrow>
     (nat \<Rightarrow> library \<Rightarrow> nat \<times> library) \<Rightarrow> library \<Rightarrow> library" where
  "by_reference get upd maker L =
     (let (ty, L) = maker (get (lib_types L)) L in L\<lparr>lib_types := upd (\<lambda>_. ty) (lib_types L)\<rparr>)"

section \<open>Loading the library\<close>

definition make_types :: "(string \<Rightarrow> nat) \<Rightarrow> library \<Rightarrow> library" where
  "make_types new_type L =
     (let shared = (\<lambda>get upd name. by_reference get upd (\<lambda>ty. makeSharedType new_type ty name));
          L = shared type_atomic_table type_atomic_table_update ''atomic_table'' L;
          L = shared type_atomic_list type_atomic_list_update ''atomic_list'' L;
          L = shared type_shared_table type_shared_table_update ''shared_table'' L;
          L = shared type_shared_list type_shared_list_update ''shared_list'' L;
          L = shared type_channel type_channel_update ''channel'' L;
          L = shared type_syncvar type_syncvar_update ''syncvar'' L;
          L = shared type_region type_region_update ''region'' L;
          L = shared type_thread type_thread_update ''thread'' L;
          L = shared type_threadpool type_threadpool_update ''threadpool'' L;
          L = shared type_job type_job_update ''job'' L;
          L = shared type_trigger type_trigger_update ''trigger'' L
      in by_reference type_regionlock type_regionlock_update (\<lambda>ty. makeRegionlockType new_type ty ''regionlock'') L)"

text \<open>\<open>libname\<close> is the name of the current package, which may be null.\<close>

definition mod_init :: "(string \<Rightarrow> nat) \<Rightarrow> tokens \<Rightarrow> string option \<Rightarrow> thread \<Rightarrow> library \<Rightarrow> library flow" where
  "mod_init new_type T libname t L =
     (let lib = (case libname of None \<Rightarrow> [] | Some name \<Rightarrow> name)
      in bind_flow (lock_lock t (lib_master L)) (\<lambda>l.
         let L = L\<lparr>lib_master := l,
               lib_slots := Some (case lib_slots L of None \<Rightarrow> replicate MAX_THREADS new_thread_state | Some ts \<Rightarrow> ts)\<rparr>;
             L = make_types new_type L;
             L = L\<lparr>lib_procs := lib_procs L \<union> Pair lib ` set (map fst (library_commands 0 (\<lambda>_. True)))\<rparr>;
             L = L\<lparr>lib_codecs := init_lintree T (lib_codecs L)\<rparr>
         in map_flow_value (\<lambda>l. L\<lparr>lib_master := l\<rparr>) (unlock_lock t (lib_master L))))"

definition type_names :: "string list" where
  "type_names = [''atomic_table'', ''atomic_list'', ''shared_table'', ''shared_list'', ''channel'', ''syncvar'',
     ''region'', ''thread'', ''threadpool'', ''job'', ''trigger'', ''regionlock'']"

section \<open>Installing twice\<close>

lemma install_again:
  assumes "registry_wf R" and "lookup_codec (encoders R) t = Some a"
    and "lookup_codec (decoders R) t = Some b" and "lookup_codec (refupdaters R) t = Some c"
  shows "install t a b c R = R"
proof -
  have "t < length (encoders R)" using assms(2) by (simp add: lookup_codec_def split: if_splits)
  then have "grow_registry t R = R" by (simp add: grow_registry.simps)
  moreover have "(encoders R)[t := Some a] = encoders R" "(decoders R)[t := Some b] = decoders R"
    "(refupdaters R)[t := Some c] = refupdaters R"
    using assms by (simp_all add: lookup_codec_def list_update_same_conv split: if_splits)
  ultimately show ?thesis by (simp add: install_def)
qed

lemma set_needs_ring_again: "wants_ring R t \<Longrightarrow> set_needs_ring t R = R"
  by (simp add: wants_ring_def set_needs_ring_def list_update_same_conv)

lemma init_again:
  assumes "tokens_ok (tok S)" and "ready S shared R"
  shows "init_lintree (tok S) R = R"
proof -
  have wf: "registry_wf R"
    and "registry_abs R = ((\<lambda>t. if t \<in> set shared then Some C_shared else None) ++ builtin_codec (tok S),
      (\<lambda>t. if t \<in> set shared then Some C_shared else None) ++ builtin_codec (tok S),
      (\<lambda>t. if t \<in> set shared then Some C_shared else None) ++ builtin_codec (tok S), ring_types (tok S))"
    using assms(2) by (simp_all add: ready_def Let_def)
  then have codec: "install t c c c R = R" if "builtin_codec (tok S) t = Some c" for t c
    using that by (intro install_again) (auto simp: registry_abs_def map_add_def)
  have ring: "set_needs_ring t R = R" if "t \<in> ring_types (tok S)" for t
    using that assms(2) by (intro set_needs_ring_again) (auto simp: ready_def Let_def registry_abs_def)
  show ?thesis
    using assms(1)
    by (simp add: init_lintree_def Let_def codec ring builtin_codec_def tokens_ok_def token_list_def ring_types_def)
qed

section \<open>After loading\<close>

lemma by_reference_make:
  "by_reference get upd (\<lambda>ty. make_type box new_type ty name) L =
     (if get (lib_types L) \<noteq> 0 then L\<lparr>lib_types := upd (\<lambda>_. get (lib_types L)) (lib_types L)\<rparr>
      else L\<lparr>lib_types := upd (\<lambda>_. new_type name) (lib_types L),
        lib_boxes := (lib_boxes L)(new_type name \<mapsto> box),
        lib_codecs := install_shared (new_type name) (lib_codecs L)\<rparr>)"
  by (simp add: by_reference_def make_type_def Let_def)

lemma make_types_again:
  assumes "0 \<notin> set (shared_type_list (lib_types L))"
  shows "make_types new_type L = L"
  using assms
  by (simp add: make_types_def makeSharedType_def makeRegionlockType_def by_reference_make shared_type_list_def)

definition named_types :: "(string \<Rightarrow> nat) \<Rightarrow> shared_types" where
  "named_types f = \<lparr>type_region = f ''region'', type_regionlock = f ''regionlock'', type_channel = f ''channel'',
     type_syncvar = f ''syncvar'', type_atomic_table = f ''atomic_table'', type_shared_table = f ''shared_table'',
     type_atomic_list = f ''atomic_list'', type_shared_list = f ''shared_list'', type_thread = f ''thread'',
     type_threadpool = f ''threadpool'', type_job = f ''job'', type_trigger = f ''trigger''\<rparr>"

definition boxes_of :: "(string \<Rightarrow> nat) \<Rightarrow> nat \<Rightarrow> blackbox option" where
  "boxes_of new_type = (\<lambda>ty. if ty \<in> new_type ` set (butlast type_names) then Some shared_box else None)
     (new_type (last type_names) \<mapsto> regionlock_box)"

lemma fold_same_value:
  "fold (\<lambda>n m. m(f n \<mapsto> x)) ns m = (\<lambda>y. if y \<in> f ` set ns then Some x else m y)"
  by (induction ns arbitrary: m) (auto simp: fun_eq_iff)

lemma boxes_of_eq:
  "boxes_of f = (fold (\<lambda>n m. m(f n \<mapsto> shared_box)) (butlast type_names) Map.empty)(f (last type_names) \<mapsto> regionlock_box)"
  by (simp only: boxes_of_def fold_same_value)

lemma make_types_fresh:
  "make_types new_type \<lparr>lib_types = named_types (\<lambda>_. 0), lib_boxes = (\<lambda>_. None), lib_codecs = R, lib_slots = ts,
     lib_master = l, lib_procs = ps\<rparr> =
   \<lparr>lib_types = named_types new_type, lib_boxes = boxes_of new_type,
     lib_codecs = fold install_shared (map new_type type_names) R, lib_slots = ts, lib_master = l, lib_procs = ps\<rparr>"
  unfolding make_types_def makeSharedType_def makeRegionlockType_def named_types_def Let_def boxes_of_eq type_names_def
  by (simp add: by_reference_make del: fun_upd_apply)

lemma named_types_list: "shared_type_list (named_types f) = map f type_names"
  by (simp add: shared_type_list_def named_types_def type_names_def)

lemma fresh_library_eq: "fresh_library = \<lparr>lib_types = named_types (\<lambda>_. 0), lib_boxes = (\<lambda>_. None),
    lib_codecs = empty_registry, lib_slots = None, lib_master = new_lock True, lib_procs = {}\<rparr>"
  by (simp add: fresh_library_def named_types_def)

text \<open>The state after loading.\<close>

definition loaded_library :: "(string \<Rightarrow> nat) \<Rightarrow> tokens \<Rightarrow> string \<Rightarrow> library" where
  "loaded_library new_type T lib = \<lparr>lib_types = named_types new_type, lib_boxes = boxes_of new_type,
     lib_codecs = library_registry T (map new_type type_names),
     lib_slots = Some (replicate MAX_THREADS new_thread_state), lib_master = new_lock True,
     lib_procs = Pair lib ` set (map fst (library_commands 0 (\<lambda>_. True)))\<rparr>"

lemma load_once:
  "mod_init new_type T libname t fresh_library =
     Done (loaded_library new_type T (case libname of None \<Rightarrow> [] | Some name \<Rightarrow> name))"
  by (simp add: mod_init_def Let_def fresh_library_eq lock_lock_free make_types_fresh unlock_lock_def
      loaded_library_def library_registry_def del: set_map)
    (simp add: new_lock_def)

lemma load_again:
  assumes "tokens_ok T" and "fresh_types T (map new_type type_names)"
  shows "mod_init new_type T libname t (loaded_library new_type T (case libname of None \<Rightarrow> [] | Some name \<Rightarrow> name)) =
    Done (loaded_library new_type T (case libname of None \<Rightarrow> [] | Some name \<Rightarrow> name))"
    (is "_ = Done ?L")
proof -
  define S where "S = sample_singular\<lparr>tok := T\<rparr>"
  have "tok S = T" by (simp add: S_def)
  with init_again [OF _ library_registry_ready, of S] assms(1)
  have codecs: "init_lintree T (library_registry T shared) = library_registry T shared" for shared by metis
  have types: "make_types new_type (?L\<lparr>lib_master := l, lib_slots := ts\<rparr>) = ?L\<lparr>lib_master := l, lib_slots := ts\<rparr>" for l ts
    using assms(2) by (intro make_types_again) (auto simp: loaded_library_def named_types_list fresh_types_def)
  have lock: "lock_lock t (lib_master ?L) = Done \<lparr>mutex = Some t, owner = Some t, locked = 1, recursive = True\<rparr>"
    by (simp add: loaded_library_def lock_lock_free)
  show ?thesis
    unfolding mod_init_def Let_def lock bind_flow.simps types
    by (simp add: loaded_library_def codecs unlock_lock_def del: set_map) (simp add: new_lock_def)
qed

text \<open>
  C25. Loading the library gives every type of shared objects a number of its own and the
  functions written for it, and leaves an environment in which values can be shared between
  threads, as the properties of the commands require; loading it a second time changes
  nothing.
\<close>

theorem library_loads:
  assumes "tokens_ok T" and "fresh_types T (map new_type type_names)" and "inj_on new_type (set type_names)"
  shows "\<exists>L. mod_init new_type T libname t fresh_library = Done L \<and> mod_init new_type T libname t L = Done L \<and>
    types_ok (lib_types L) \<and> lib_slots L = Some (th_slots (initial_threads n)) \<and>
    lib_boxes L = boxes_of new_type \<and>
    (\<forall>E. tok (interp E) = T \<and> gmp_ok (interp E) \<and> types E = lib_types L \<and> codecs E = lib_codecs L \<longrightarrow> env_ok E)"
proof (intro exI conjI)
  let ?L = "loaded_library new_type T (case libname of None \<Rightarrow> [] | Some name \<Rightarrow> name)"
  show "mod_init new_type T libname t fresh_library = Done ?L" by (rule load_once)
  show "mod_init new_type T libname t ?L = Done ?L" by (rule load_again [OF assms(1,2)])
  have "distinct (map new_type type_names)" using assms(3) by (simp only: distinct_map) (simp add: type_names_def)
  then show "types_ok (lib_types ?L)" by (simp add: types_ok_def loaded_library_def named_types_list)
  show "\<forall>E. tok (interp E) = T \<and> gmp_ok (interp E) \<and> types E = lib_types ?L \<and> codecs E = lib_codecs ?L \<longrightarrow> env_ok E"
    using assms(1,2) by (simp add: env_ok_def loaded_library_def named_types_list)
qed (simp_all add: loaded_library_def initial_threads_def)

text \<open>An interpreter that numbers the types in the order of the example.\<close>

definition sample_new_type :: "string \<Rightarrow> nat" where
  "sample_new_type name = the (map_of (zip type_names [401, 408, 407, 403, 405, 406, 402, 409, 410, 411, 412, 404]) name)"

theorem library_loads_witness:
  "\<exists>L. mod_init sample_new_type sample_tokens None 0 fresh_library = Done L \<and>
    mod_init sample_new_type sample_tokens None 0 L = Done L \<and> types_ok (lib_types L)"
proof -
  have "fresh_types sample_tokens (map sample_new_type type_names)" "inj_on sample_new_type (set type_names)"
    by (simp_all add: fresh_types_def sample_new_type_def type_names_def sample_tokens_def token_list_def)
  from library_loads [OF sample_tokens_ok this] show ?thesis by blast
qed

end
