(* ===== verification/Spec2Isabelle.thy ===== *)
theory Spec2Isabelle
  imports Prelude Locks Lock_Steps Monitors Kernel_Sync Shared_Sync Byte_Buf Shared_Library
    Threads Jobs Scheduler Job_Commands Trigger_Commands Value_Transfer Thread_Messages Thread_Table Job_Safety Job_Runs
    Job_Properties Double_Run Pool_Wakeups Job_Results Solo_Pool Lost_Waits Cancelling Job_Order Library_Init
begin

text \<open>
  A model of the thread library of Singular (psingthreadlib): C++ code that lets interpreter threads
  share objects, send each other values, and run jobs in pools of threads.

  The program has four layers. The kernel layer (thread.h, thread.cc, syncvar.h, channel.h,
  bytebuf.h) wraps POSIX mutexes and condition variables. The serialiser (lintree.h, lintree.cc)
  turns interpreter values into strings and back, so that a value can leave the thread that made it;
  shared objects travel as pointers whose reference counts it adjusts. shared.cc has the shared
  objects themselves (regions, tables, lists, channels, synchronisation variables), which
  interpreters name and call commands on; the threads with their messages; and the thread pools,
  whose schedulers run jobs in the order of their priorities once the jobs they depend on are done.
  Loading the library (\<open>mod_init\<close>) makes its types and commands known to the
  interpreter.

  How the code is modelled. An operation is a function from its arguments and the state to
  \<open>flow\<close> (theory Prelude): \<open>Done\<close> with the result and the new state,
  \<open>Block\<close> when the thread has to wait for a lock, \<open>Crash\<close> with the fault
  (null dereference, access out of bounds, a value of another type than the code assumes,
  \<open>ThreadError\<close>, an abort), or \<open>Out_of_fuel\<close>. A function that may sleep on
  a condition variable is cut there into its start and its resumption; a wake-up may be spurious.
  Concurrency is the interleaving of such pieces as steps of inductive relations. Machine integers
  have their width (\<open>32 word\<close>, \<open>64 word\<close>), bytes are \<open>8
  word\<close>, strings of the program lists of bytes. The field and function names are those of the
  code.
\<close>

section \<open>The theories\<close>

text \<open>
  Prelude has the outcome type, its sequencing, the faults and the collections of simplification
  rules.

  The kernel layer. Locks models \<open>Lock\<close> (thread.h) as one step per call, with the
  interface \<open>lock_interface\<close> the other components rely on; Lock_Steps models the same
  class one memory access per step, shows mutual exclusion over all interleavings, and that every
  run of these steps is one of the coarse calls made one after the other (a refinement, with each
  thread's calls in their order). Monitors models
  \<open>ConditionVariable\<close> and the pattern of an object with a lock and a condition
  variable; the locale \<open>wakeup_contract\<close> states when no wake-up is lost, and every
  blocking class is an interpretation of it where it holds. Kernel_Sync models
  \<open>Semaphore\<close> (thread.cc), \<open>SyncVar\<close> (syncvar.h) and the sending half of
  \<open>Channel\<close> (channel.h). Byte_Buf models \<open>ByteBuf\<close> (bytebuf.h, bytebuf.cc)
  over an explicit heap of blocks.

  The serialiser. Lin_Tree has the buffer of lintree.h. Singular_Values has the values of the
  interpreter as far as the code looks into them, and the parameters that stand for Singular and GMP
  (record \<open>singular\<close>). Codec_Numbers and Codec_Rings have the codecs of numbers,
  polynomials, matrices, ideals and rings with the locale \<open>codec\<close> (what is encoded is
  read back, and nothing after it is touched); Lin_Codec and Lin_Decode the registry,
  \<open>encode\<close>, \<open>decode\<close>, \<open>updateref\<close>, \<open>to_string\<close>
  and \<open>from_string\<close>. Lin_Registry shows that the registry refines partial functions;
  Lin_Roundtrip and Lin_Rings that values are read back, and what happens to the values that are
  not.

  Shared objects. Shared_Heap has the objects by address, the reference counts, the tables of names,
  regions and the blackbox functions (\<open>shared_copy\<close>, \<open>shared_destroy\<close>,
  \<open>shared_assign\<close>, \<open>rlock_...\<close>); Shared_Tx has
  \<open>Transactional\<close>, \<open>TxTable\<close> and \<open>TxList\<close> with the locale
  \<open>transactional\<close> between them; Shared_Sync has \<open>SingularChannel\<close> and
  \<open>SingularSyncVar\<close>. Commands has the class \<open>Command\<close> and the checks of
  arguments, Shared_Commands the commands from \<open>makeAtomicTable\<close> to
  \<open>statSyncVar\<close>. Shared_Invariant and Shared_Library show that every command, wake-up
  and blackbox operation keeps the state well formed; Value_Transfer that what one thread stores
  another one finds.

  Threads has the array of \<open>ThreadState\<close>, \<open>interpreter_thread\<close> and the
  commands from \<open>createThread\<close> to \<open>threadResult\<close>. Thread_Messages is about
  every interleaving of an interpreter thread with its parent, Thread_Table about the slots of the
  array.

  Jobs has the class \<open>Job\<close> and its subclasses, \<open>JobCompare\<close>, and the
  queues and the cancelling of \<open>Scheduler\<close>; Scheduler has the triggers, the
  notification of dependent jobs, \<open>Job::run\<close>, the main loop of the workers,
  \<open>waitJob\<close> and \<open>shutdown\<close>; Job_Commands and Trigger_Commands have the
  commands on pools, jobs and triggers, the functions of libthread.h for C++ callers, and the table
  of all commands. Flow_Post has postconditions; Job_Safety and Job_Runs show with them that every
  operation lets jobs only advance, queues only jobs whose dependencies are done, and does not leave
  a job in a queue with all the workers asleep; Job_Steps has the runs of the system, Job_Properties
  concludes that jobs run after their dependencies, and Pool_Wakeups that no queued job is
  forgotten. Job_Results follows a job from \<open>startJob\<close> to \<open>waitJob\<close>;
  Solo_Pool is about pools without threads, where the waiting thread runs the jobs. Two theories are
  counterexamples: in Double_Run a job is executed twice, in Lost_Waits a thread waits for a
  cancelled job for good. Cancelling is about
  \<open>cancelJob\<close>, Job_Order about the order of the queue and the triggers. Library_Init
  has \<open>mod_init\<close>.
\<close>

section \<open>What is shown\<close>

text \<open>
  Safety: mutual exclusion of locks; permits of a semaphore are conserved; channels and the messages
  between threads are first-in first-out; updates of a synchronisation variable are atomic; an
  interpreter thread evaluates the next request, sleeps or ends, and faults only where that
  evaluation does; no thread slot is given away twice; shared objects stay well formed; a job is executed only after its dependencies.

  Liveness, as far as it can be said of states: whenever a thread sleeps for something that is
  there, a wake-up is on its way (channels, synchronisation variables, thread messages), and while
  jobs are queued in a pool somebody is awake to take them; for \<open>Semaphore\<close> and for
  threads that wait for a job this fails, and the counterexamples are runs of the model. Waiting in
  a pool without threads terminates.

  Function: round trips of the buffer, the codecs, whole values, and values through tables and
  channels; a job returns what its procedure computes; the abstract behaviour of tables, lists,
  names, cancelling, triggers, the order of the queue, and loading the library.

  Errors: what growing a buffer, growing a list, reading a null ring, an object of another type
  under a name, a joined thread or an unencodable value lead to. Where the code does not do what it
  means to, the theorem says what it does.
\<close>

section \<open>Bounds and fuel\<close>

text \<open>
  Decoding follows its input, not a structure, so it has fuel, one unit for each level of nesting;
  the theorems on decoding say how much is enough (the depth of the value), and
  \<open>transferable\<close> includes it. \<open>cancelJob\<close> has fuel; one unit more than
  there are jobs not yet cancelled is enough. \<open>main_loop\<close>, run by the thread that waits
  in a pool without workers, may execute jobs without end, so \<open>Out_of_fuel\<close> stands for
  not returning; Solo_Pool shows that one unit more than there are jobs in the queue is enough when
  these are procedures that return and nothing depends on them. \<open>resize\<close> of a list fails beyond
  \<open>max_vector\<close>, the \<open>max_size\<close> of a vector of strings. There are
  \<open>MAX_THREADS\<close> = 128 slots for threads.
\<close>

section \<open>Parameters and what is not modelled\<close>

text \<open>
  Singular is a parameter: the numbers of its types, \<open>Eval\<close>, the constructors of rings,
  monomial orderings, and procedure calls; GMP's \<open>mpz_export\<close> and
  \<open>mpz_import\<close> with the hypothesis \<open>gmp_ok\<close> that the one inverts the other
  on magnitudes; \<open>setBlackboxStuff\<close>. The functions of kernel jobs are parameters of
  \<open>job_env\<close>; \<open>kernel_ok\<close> says that the addresses of objects they create
  are new. The waiter that a signal wakes is chosen by a parameter \<open>pick\<close>, and so is
  the element a queue yields whose comparison is no ordering, which the standard leaves undefined;
  the theorem on the order of the queue excludes that case.

  The C++ \<open>int\<close> counters of nested locks and of waiting threads (\<open>locked\<close>,
  \<open>waiting\<close>) are integers without bound: they would overflow, which is undefined, only with
  $2^{31}$ nested calls or sleeping threads. Rings are values: \<open>last_ring\<close> has the ring
  and not its address, so the reference counts by which Singular shares rings (\<open>ref\<close>,
  \<open>rKill\<close>), which \<open>set_last_ring\<close> adjusts and \<open>clear\<close> does not,
  have no counterpart.

  Objects are never freed: \<open>releaseShared\<close> has its \<open>delete\<close> commented out,
  so destructors of shared objects do not run and are not modelled. \<open>Channel::receive\<close>
  of channel.h does not compile when it is instantiated. A procedure called by a trigger is one
  step, although the scheduler's lock is given back meanwhile. The runs of theory Job_Steps have the
  commands on pools, jobs and triggers, the functions for C++ callers and the workers; commands on
  threads and shared objects are covered by a step that changes these arbitrarily. A thread that
  waits in a pool without workers runs jobs inside that one step. Options set at the start of a
  thread (\<open>setOption\<close>), error messages on the terminal and the dump functions are
  output or Singular's. singthreads.h has declarations and allocator macros. autosetup/jimsh0.c is a
  vendored Tcl interpreter for the build; the .lib and .sg files are written in Singular's language.
\<close>

end
